(* ===== verification/Prelude.thy ===== *)
theory Prelude
  imports Main "HOL-Library.Sublist" "HOL-Library.Finite_Map"
begin

text \<open>
  Shared vocabulary of the development: the error values every fallible Go function of the
  repository returns, the two error queries the code makes on them (\<open>errors.Is\<close> and
  \<open>errors.As\<close>), and the generic lemmas on lists and results that several components use.

  A Go function with result type \<open>(T, error)\<close> is a function into \<open>goerr + T\<close>; one with
  result type \<open>error\<close> is a function into \<open>goerr option\<close>, \<open>None\<close> being the nil error.
\<close>

named_theorems frame_simps "what an operation leaves unchanged in the process state"
named_theorems go_defs "definitions that are unfolded when an operation is evaluated"

section \<open>Error values\<close>

text \<open>The sentinel errors that the code compares against with \<open>errors.Is\<close>.\<close>

datatype sentinel =
    ErrRateLimited
  | ErrUnrenderedToken
  | ErrJobAlreadyExists
  | JobAlreadyExistsError
  | ErrBuildNotConfigured
  | ErrUnknownDestination
  | ErrCommandObjectSkipped
  | BucketNotFoundError
  | BucketAlreadyExistsError

text \<open>
  \<open>Wrapf\<close> is \<open>errors.Wrap\<close>/\<open>errors.Wrapf\<close> (the cause stays reachable for \<open>errors.Is\<close>),
  \<open>Errorf\<close> a fresh error, \<open>StatusErr\<close> is \<open>libhttp.WrapWithStatusCode\<close>. The \<open>Gh\<close>
  constructors are the error types of the go-github package the client asks for with
  \<open>errors.As\<close>; \<open>NotExist\<close> and \<open>K8sNotFound\<close> are the values \<open>os.IsNotExist\<close> and
  \<open>apierrors.IsNotFound\<close> recognise; \<open>Foreign\<close> is any other error of a callee.
\<close>

datatype goerr =
    Sentinel sentinel
  | Errorf string
  | Wrapf string goerr
  | StatusErr int goerr
  | GhRateLimitError
  | GhAbuseRateLimitError
  | GhErrorResponse int
  | NotExist
  | K8sNotFound
  | Foreign string

type_synonym 'a res = "goerr + 'a"

fun err_is :: "sentinel \<Rightarrow> goerr \<Rightarrow> bool" where
  "err_is t (Sentinel u) = (t = u)"
| "err_is t (Wrapf _ e) = err_is t e"
| "err_is t (StatusErr _ e) = err_is t e"
| "err_is _ _ = False"

fun err_status :: "goerr \<Rightarrow> int option" where
  "err_status (StatusErr n _) = Some n"
| "err_status (Wrapf _ e) = err_status e"
| "err_status _ = None"

section \<open>Lists\<close>

lemma takeWhile_eq_self_iff: "takeWhile P xs = xs \<longleftrightarrow> (\<forall>x\<in>set xs. P x)"
  by (metis set_takeWhileD takeWhile_eq_all_conv)

lemma dropWhile_rev_last: "xs \<noteq> [] \<Longrightarrow> \<not> P (last xs) \<Longrightarrow> dropWhile P (rev xs) = rev xs"
  by (cases xs rule: rev_cases) auto

text \<open>Two strings joined at a separator that occurs in neither left part determine the parts.\<close>

lemma append_sep_inj:
  assumes "a @ c # b = a' @ c # b'" and "c \<notin> set a" and "c \<notin> set a'"
  shows "a = a' \<and> b = b'"
  using assms
proof (induction a arbitrary: a')
  case Nil
  then show ?case by (cases a') auto
next
  case (Cons x a)
  then show ?case by (cases a') auto
qed

lemma append_sep_inj_right:
  assumes "a @ c # b = a' @ c # b'" and "c \<notin> set b" and "c \<notin> set b'"
  shows "a = a' \<and> b = b'"
proof -
  have "rev b @ c # rev a = rev b' @ c # rev a'"
    using arg_cong [OF assms(1), of rev] by simp
  with assms(2,3) have "rev b = rev b' \<and> rev a = rev a'"
    using append_sep_inj [of "rev b" c "rev a" "rev b'" "rev a'"] by simp
  then show ?thesis by simp
qed


lemma map_sum_Inr_iff: "map_sum id f x = Inr y \<longleftrightarrow> (\<exists>z. x = Inr z \<and> y = f z)"
  by (cases x) auto

text \<open>A deterministic relation ends in at most one final state.\<close>

lemma steps_to_final:
  assumes det: "\<And>x y z. R x y \<Longrightarrow> R x z \<Longrightarrow> y = z"
    and "R\<^sup>*\<^sup>* x y" "R\<^sup>*\<^sup>* x z" "\<And>y'. \<not> R y y'" "\<And>z'. \<not> R z z'"
  shows "y = z"
  using assms(2,3)
proof (induction rule: converse_rtranclp_induct)
  case base
  then show ?case using assms(4) by (metis converse_rtranclpE)
next
  case (step x x')
  then show ?case using det assms(5) by (metis converse_rtranclpE)
qed

end
