(* ===== verification/Go_Strings.thy ===== *)
theory Go_Strings
  imports Prelude
begin

text \<open>
  The parts of Go's \<open>strings\<close>, \<open>strconv\<close>, \<open>unicode\<close> and \<open>utf8\<close> packages that the
  repository calls, on Go strings modelled as lists of bytes (\<open>char\<close>). Functions whose
  behaviour depends on runes (\<open>TrimSpace\<close>, \<open>range\<close> over a string) go through the UTF-8
  decoder, which like Go's yields U+FFFD with width one on an invalid sequence. Cutsets and
  separators are single bytes, as every call in the repository has them.
\<close>

section \<open>Prefixes, cutting, splitting\<close>

definition HasPrefix :: "string \<Rightarrow> string \<Rightarrow> bool" where
  "HasPrefix s p \<longleftrightarrow> prefix p s"

definition TrimPrefix :: "string \<Rightarrow> string \<Rightarrow> string" where
  "TrimPrefix s p = (if HasPrefix s p then drop (length p) s else s)"

fun Cut :: "string \<Rightarrow> char \<Rightarrow> string \<times> string \<times> bool" where
  "Cut [] c = ([], [], False)"
| "Cut (x # xs) c =
     (if x = c then ([], xs, True)
      else (case Cut xs c of (b, a, found) \<Rightarrow> (x # b, a, found)))"

fun Split :: "string \<Rightarrow> char \<Rightarrow> string list" where
  "Split [] c = [[]]"
| "Split (x # xs) c =
     (if x = c then [] # Split xs c
      else (case Split xs c of [] \<Rightarrow> [[x]] | p # ps \<Rightarrow> (x # p) # ps))"

fun Join :: "string list \<Rightarrow> string \<Rightarrow> string" where
  "Join [] sep = []"
| "Join [x] sep = x"
| "Join (x # y # zs) sep = x @ sep @ Join (y # zs) sep"

definition Contains :: "string \<Rightarrow> char \<Rightarrow> bool" where
  "Contains s c \<longleftrightarrow> c \<in> set s"

definition ContainsAny :: "string \<Rightarrow> string \<Rightarrow> bool" where
  "ContainsAny s cs \<longleftrightarrow> list_ex (\<lambda>c. c \<in> set cs) s"

definition LastIndex :: "string \<Rightarrow> char \<Rightarrow> int" where
  "LastIndex s c = int (length (dropWhile (\<lambda>x. x \<noteq> c) (rev s))) - 1"

definition TrimRight :: "string \<Rightarrow> string \<Rightarrow> string" where
  "TrimRight s cutset = rev (dropWhile (\<lambda>c. c \<in> set cutset) (rev s))"

definition Trim :: "string \<Rightarrow> string \<Rightarrow> string" where
  "Trim s cutset = TrimRight (dropWhile (\<lambda>c. c \<in> set cutset) s) cutset"

section \<open>UTF-8\<close>

abbreviation byte :: "char \<Rightarrow> nat" where
  "byte c \<equiv> of_char c"

definition RuneError :: nat where
  "RuneError = 65533"

definition cont_byte :: "char \<Rightarrow> bool" where
  "cont_byte c \<longleftrightarrow> 128 \<le> byte c \<and> byte c \<le> 191"

text \<open>The range the second byte must lie in, from the first byte (Go's \<open>acceptRanges\<close>).\<close>

definition second_ok :: "nat \<Rightarrow> char \<Rightarrow> bool" where
  "second_ok b0 c \<longleftrightarrow>
     (if b0 = 224 then 160 \<le> byte c \<and> byte c \<le> 191
      else if b0 = 237 then 128 \<le> byte c \<and> byte c \<le> 159
      else if b0 = 240 then 144 \<le> byte c \<and> byte c \<le> 191
      else if b0 = 244 then 128 \<le> byte c \<and> byte c \<le> 143
      else cont_byte c)"

definition DecodeRune :: "string \<Rightarrow> nat \<times> nat" where
  "DecodeRune s = (case s of [] \<Rightarrow> (RuneError, 0)
     | c0 # cs \<Rightarrow> (let b0 = byte c0 in
         if b0 < 128 then (b0, 1)
         else if 194 \<le> b0 \<and> b0 \<le> 223 then
           (case cs of c1 # _ \<Rightarrow>
              if cont_byte c1 then (b0 mod 32 * 64 + byte c1 mod 64, 2) else (RuneError, 1)
            | _ \<Rightarrow> (RuneError, 1))
         else if 224 \<le> b0 \<and> b0 \<le> 239 then
           (case cs of c1 # c2 # _ \<Rightarrow>
              if second_ok b0 c1 \<and> cont_byte c2
              then (b0 mod 16 * 4096 + byte c1 mod 64 * 64 + byte c2 mod 64, 3)
              else (RuneError, 1)
            | _ \<Rightarrow> (RuneError, 1))
         else if 240 \<le> b0 \<and> b0 \<le> 244 then
           (case cs of c1 # c2 # c3 # _ \<Rightarrow>
              if second_ok b0 c1 \<and> cont_byte c2 \<and> cont_byte c3
              then (b0 mod 8 * 262144 + byte c1 mod 64 * 4096 + byte c2 mod 64 * 64
                      + byte c3 mod 64, 4)
              else (RuneError, 1)
            | _ \<Rightarrow> (RuneError, 1))
         else (RuneError, 1)))"

text \<open>A string cut into runes, each with the bytes it was decoded from.\<close>

fun chunks :: "string \<Rightarrow> (nat \<times> string) list" where
  "chunks [] = []"
| "chunks (c # cs) =
     (let (r, n) = DecodeRune (c # cs)
      in (r, c # take (n - 1) cs) # chunks (drop (n - 1) cs))"

definition runes :: "string \<Rightarrow> nat list" where
  "runes s = map fst (chunks s)"

definition IsSpace :: "nat \<Rightarrow> bool" where
  "IsSpace r \<longleftrightarrow> (9 \<le> r \<and> r \<le> 13) \<or> r = 32 \<or> r = 133 \<or> r = 160 \<or> r = 5760
     \<or> (8192 \<le> r \<and> r \<le> 8202) \<or> r = 8232 \<or> r = 8233 \<or> r = 8239 \<or> r = 8287 \<or> r = 12288"

definition TrimSpace :: "string \<Rightarrow> string" where
  "TrimSpace s =
     (let sp = (\<lambda>(r, _). IsSpace r)
      in concat (map snd (rev (dropWhile sp (rev (dropWhile sp (chunks s)))))))"

section \<open>Numbers\<close>

definition digit_char :: "nat \<Rightarrow> char" where
  "digit_char d = char_of (48 + d)"

definition is_digit :: "char \<Rightarrow> bool" where
  "is_digit c \<longleftrightarrow> 48 \<le> byte c \<and> byte c \<le> 57"

fun digits :: "nat \<Rightarrow> string" where
  "digits n = (if n < 10 then [digit_char n] else digits (n div 10) @ [digit_char (n mod 10)])"

declare digits.simps [simp del]

definition Itoa :: "int \<Rightarrow> string" where
  "Itoa i = (if i < 0 then CHR ''-'' # digits (nat (- i)) else digits (nat i))"

definition digits_value :: "string \<Rightarrow> int" where
  "digits_value s = foldl (\<lambda>v c. 10 * v + (int (byte c) - 48)) 0 s"

text \<open>
  \<open>strconv.Atoi\<close>: an optional sign and decimal digits, in the range of a 64-bit \<open>int\<close>.
\<close>

definition Atoi :: "string \<Rightarrow> int option" where
  "Atoi s =
     (let (neg, ds) = (case s of [] \<Rightarrow> (False, [])
                        | c # cs \<Rightarrow> if c = CHR ''-'' then (True, cs)
                                     else if c = CHR ''+'' then (False, cs) else (False, s));
          v = (if neg then - digits_value ds else digits_value ds)
      in if ds \<noteq> [] \<and> list_all is_digit ds \<and> - (2 ^ 63) \<le> v \<and> v < 2 ^ 63 then Some v
         else None)"

section \<open>Facts\<close>

lemma HasPrefix_append [simp]: "HasPrefix (p @ s) p"
  by (simp add: HasPrefix_def)

lemma HasPrefixD: "HasPrefix s p \<Longrightarrow> s = p @ drop (length p) s"
  by (metis HasPrefix_def append_eq_conv_conj prefixE)

lemma TrimPrefix_append [simp]: "TrimPrefix (p @ s) p = s"
  by (simp add: TrimPrefix_def)

lemma Cut_sep: "c \<notin> set b \<Longrightarrow> Cut (b @ c # a) c = (b, a, True)"
  by (induction b) auto

lemma Cut_none: "c \<notin> set s \<Longrightarrow> Cut s c = (s, [], False)"
  by (induction s) auto

lemma Cut_found: "Cut s c = (b, a, True) \<Longrightarrow> s = b @ c # a \<and> c \<notin> set b"
  by (induction s c arbitrary: b rule: Cut.induct) (auto split: if_splits prod.splits)

lemma Cut_not_found: "Cut s c = (b, a, False) \<Longrightarrow> c \<notin> set s \<and> b = s \<and> a = []"
  by (induction s c arbitrary: b rule: Cut.induct) (auto split: if_splits prod.splits)

lemma Split_nonempty [simp]: "Split s c \<noteq> []"
  by (induction s c rule: Split.induct) (auto split: list.splits)

lemma Split_none: "c \<notin> set s \<Longrightarrow> Split s c = [s]"
  by (induction s) auto

lemma Split_sep: "c \<notin> set b \<Longrightarrow> Split (b @ c # a) c = b # Split a c"
  by (induction b) (auto split: list.splits)

lemma Join_Split: "Join (Split s c) [c] = s"
proof (induction s c rule: Split.induct)
  case (2 x xs c)
  then show ?case
    by (cases "Split xs c") (auto simp: neq_Nil_conv, (metis Join.simps(2,3) append_Cons list.exhaust)?)
qed simp

lemma set_Split: "p \<in> set (Split s c) \<Longrightarrow> c \<notin> set p"
  by (induction s c arbitrary: p rule: Split.induct) (auto split: if_splits list.splits)

lemma LastIndex_none: "c \<notin> set s \<Longrightarrow> LastIndex s c = - 1"
  by (auto simp: LastIndex_def dropWhile_eq_Nil_conv)

lemma LastIndex_sep: "c \<notin> set a \<Longrightarrow> LastIndex (b @ c # a) c = int (length b)"
proof -
  assume "c \<notin> set a"
  then have "dropWhile (\<lambda>x. x \<noteq> c) (rev a @ c # rev b) = c # rev b"
    by (subst dropWhile_append2) auto
  then show ?thesis by (simp add: LastIndex_def)
qed

lemma TrimRight_split: "\<exists>t. s = TrimRight s cs @ t \<and> set t \<subseteq> set cs"
proof -
  have "rev s = takeWhile (\<lambda>c. c \<in> set cs) (rev s) @ dropWhile (\<lambda>c. c \<in> set cs) (rev s)"
    by simp
  then have "s = TrimRight s cs @ rev (takeWhile (\<lambda>c. c \<in> set cs) (rev s))"
    by (metis TrimRight_def rev_append rev_rev_ident)
  then show ?thesis
    by (metis set_rev set_takeWhileD subsetI)
qed

lemma TrimRight_last: "TrimRight s cs \<noteq> [] \<Longrightarrow> last (TrimRight s cs) \<notin> set cs"
  unfolding TrimRight_def by (metis hd_dropWhile last_rev rev_is_Nil_conv)

lemma TrimRight_id: "s = [] \<or> last s \<notin> set cs \<Longrightarrow> TrimRight s cs = s"
  by (cases "s = []") (auto simp: TrimRight_def dropWhile_rev_last [of s "\<lambda>c. c \<in> set cs"])

lemma set_TrimRight: "set (TrimRight s cs) \<subseteq> set s"
  unfolding TrimRight_def using set_dropWhileD by fastforce

lemma set_Trim: "set (Trim s cs) \<subseteq> set s"
  unfolding Trim_def using set_TrimRight set_dropWhileD by fastforce

lemma length_TrimRight: "length (TrimRight s cs) \<le> length s"
  unfolding TrimRight_def by (metis length_dropWhile_le length_rev)

lemma length_Trim: "length (Trim s cs) \<le> length s"
  unfolding Trim_def by (meson length_TrimRight length_dropWhile_le order_trans)

lemma Trim_last: "Trim s cs \<noteq> [] \<Longrightarrow> last (Trim s cs) \<notin> set cs"
  unfolding Trim_def by (rule TrimRight_last)

lemma Trim_hd: "Trim s cs \<noteq> [] \<Longrightarrow> hd (Trim s cs) \<notin> set cs"
proof -
  assume ne: "Trim s cs \<noteq> []"
  let ?d = "dropWhile (\<lambda>c. c \<in> set cs) s"
  obtain t where t: "?d = TrimRight ?d cs @ t" using TrimRight_split by blast
  with ne have "hd (Trim s cs) = hd ?d" by (metis Trim_def hd_append2)
  moreover have "?d \<noteq> []"
  proof
    assume "?d = []"
    with ne show False unfolding Trim_def by (simp only: TrimRight_def) simp
  qed
  ultimately show ?thesis by (metis hd_dropWhile)
qed

lemma Trim_id: "s = [] \<or> (hd s \<notin> set cs \<and> last s \<notin> set cs) \<Longrightarrow> Trim s cs = s"
  by (cases s) (auto simp: Trim_def TrimRight_id)

text \<open>Runes: the chunks partition the string, and on ASCII they are its bytes.\<close>

lemma DecodeRune_width: "snd (DecodeRune (c # cs)) \<in> {1..4}"
  by (auto simp: DecodeRune_def Let_def split: list.splits)

lemma DecodeRune_fits: "snd (DecodeRune (c # cs)) \<le> Suc (length cs)"
  by (auto simp: DecodeRune_def Let_def split: list.splits)

lemma chunks_concat: "concat (map snd (chunks s)) = s"
  by (induction s rule: chunks.induct) (auto split: prod.splits)

lemma chunks_ascii: "\<forall>c\<in>set s. byte c < 128 \<Longrightarrow> chunks s = map (\<lambda>c. (byte c, [c])) s"
  by (induction s) (auto simp: DecodeRune_def)

lemma runes_ascii: "\<forall>c\<in>set s. byte c < 128 \<Longrightarrow> runes s = map byte s"
  by (simp add: runes_def chunks_ascii)

lemma TrimSpace_id:
  assumes "\<forall>c\<in>set s. byte c < 128 \<and> \<not> IsSpace (byte c)"
  shows "TrimSpace s = s"
proof -
  have ch: "chunks s = map (\<lambda>c. (byte c, [c])) s"
    using assms by (intro chunks_ascii) auto
  have ns: "\<forall>p\<in>set (chunks s). \<not> (\<lambda>(r, _). IsSpace r) p"
    using assms by (auto simp: ch)
  have 1: "dropWhile (\<lambda>(r, _). IsSpace r) (chunks s) = chunks s"
    using ns by (cases "chunks s") auto
  have 2: "dropWhile (\<lambda>(r, _). IsSpace r) (rev (chunks s)) = rev (chunks s)"
    using ns by (cases "chunks s" rule: rev_cases) auto
  show ?thesis by (simp add: TrimSpace_def 1 2 chunks_concat)
qed

lemma digits_nonempty [simp]: "digits n \<noteq> []"
  by (subst digits.simps) simp

lemma is_digit_digit_char: "d < 10 \<Longrightarrow> is_digit (digit_char d)"
  by (simp add: is_digit_def digit_char_def)

lemma digits_are_digits: "list_all is_digit (digits n)"
proof (induction n rule: digits.induct)
  case (1 n)
  then show ?case
    by (subst digits.simps) (auto simp: is_digit_digit_char)
qed

lemma digits_value_digits: "digits_value (digits n) = int n"
proof (induction n rule: digits.induct)
  case (1 n)
  show ?case
  proof (cases "n < 10")
    case True
    then show ?thesis
      by (subst digits.simps) (simp add: digits_value_def digit_char_def)
  next
    case False
    with 1 have "digits_value (digits (n div 10)) = int (n div 10)" by simp
    with False have "digits_value (digits n) = 10 * int (n div 10) + int (n mod 10)"
      by (subst digits.simps) (simp add: digits_value_def digit_char_def)
    then show ?thesis by presburger
  qed
qed

lemma dropWhile_rev_empty: "dropWhile P (rev xs) = [] \<longleftrightarrow> (\<forall>x\<in>set xs. P x)"
  by (simp add: dropWhile_eq_Nil_conv)

lemma chunks_nonempty: "p \<in> set (chunks s) \<Longrightarrow> snd p \<noteq> []"
  by (induction s rule: chunks.induct) (auto split: prod.splits)

lemma TrimSpace_empty_iff: "TrimSpace s = [] \<longleftrightarrow> (\<forall>r\<in>set (runes s). IsSpace r)"
proof -
  define sp :: "nat \<times> string \<Rightarrow> bool" where "sp = (\<lambda>(r, _). IsSpace r)"
  let ?d = "dropWhile sp (chunks s)"
  let ?k = "rev (dropWhile sp (rev ?d))"
  have "set ?k \<subseteq> set (chunks s)" by (metis set_dropWhileD set_rev subsetI)
  then have "\<forall>p\<in>set ?k. snd p \<noteq> []" using chunks_nonempty by blast
  moreover have "concat (map snd k) = [] \<longleftrightarrow> k = []"
    if "\<forall>p\<in>set k. snd p \<noteq> []" for k :: "(nat \<times> string) list"
    using that by (cases k) auto
  ultimately have "concat (map snd ?k) = [] \<longleftrightarrow> ?k = []" by blast
  moreover have "?k = [] \<longleftrightarrow> (\<forall>x\<in>set ?d. sp x)" by (simp add: dropWhile_eq_Nil_conv)
  moreover have "(\<forall>x\<in>set ?d. sp x) \<longleftrightarrow> ?d = []"
    by (metis dropWhile_eq_Nil_conv dropWhile_idem dropWhile_id hd_dropWhile list.set_sel(1))
  moreover have "?d = [] \<longleftrightarrow> (\<forall>r\<in>set (runes s). IsSpace r)"
    by (auto simp: dropWhile_eq_Nil_conv runes_def sp_def)
  ultimately show ?thesis by (simp add: TrimSpace_def sp_def Let_def)
qed

end
