(* ===== verification/Domain.thy ===== *)
theory Domain
  imports Go_Strings
begin

text \<open>
  The domain values of \<open>pkg\<close>: repositories (\<open>repo.go\<close>), releases (\<open>release.go\<close>), the
  deterministic task identifier (\<open>taskid.go\<close>), the task title (\<open>filename.go\<close>) and the
  command that carries a task (\<open>taskbuilder.go\<close>). The SHA-1 based UUID function of the uuid
  package is a parameter: namespace and data to the UUID's text.
\<close>

section \<open>Repositories and releases\<close>

record Repo =
  Owner :: string
  Name :: string
  DefaultBranch :: string
  Fork :: bool

definition Key :: "Repo \<Rightarrow> string" where
  "Key r = ''github.com/'' @ Owner r @ ''/'' @ Name r"

definition RepoString :: "Repo \<Rightarrow> string" where
  "RepoString r = Owner r @ ''/'' @ Name r"

record Release =
  RelRepo :: Repo
  HeadSHA :: string
  CurrentVersion :: string
  UnreleasedBullets :: nat
  AutoRelease :: bool
  AllowFork :: bool

definition ShortSHA :: "Release \<Rightarrow> string" where
  "ShortSHA r = (if length (HeadSHA r) < 7 then HeadSHA r else take 7 (HeadSHA r))"

section \<open>Tasks\<close>

definition taskIDNamespace :: string where
  "taskIDNamespace = ''4f9e2c1a-7b30-4d8f-9a2e-1c5b8d4f3a90''"

definition task_key :: "string \<Rightarrow> string \<Rightarrow> string \<Rightarrow> string" where
  "task_key owner repo headSHA = owner @ ''/'' @ repo @ ''@'' @ headSHA"

definition DeriveTaskID ::
    "(string \<Rightarrow> string \<Rightarrow> string) \<Rightarrow> string \<Rightarrow> string \<Rightarrow> string \<Rightarrow> string" where
  "DeriveTaskID newSHA1 owner repo headSHA = newSHA1 taskIDNamespace (task_key owner repo headSHA)"

definition ComputeTaskTitle :: "Release \<Rightarrow> string" where
  "ComputeTaskTitle release =
     ''Release '' @ Owner (RelRepo release) @ ''-'' @ Name (RelRepo release) @ '' '' @ ShortSHA release"

record TaskConfig =
  Stage :: string
  TargetVault :: string

record CreateCommand =
  Title :: string
  CmdTargetVault :: string
  TaskIdentifier :: string
  Frontmatter :: "string \<rightharpoonup> string"
  Body :: string

definition buildFrontmatter :: "Release \<Rightarrow> string \<Rightarrow> TaskConfig \<Rightarrow> (string \<rightharpoonup> string)" where
  "buildFrontmatter release taskIDStr cfg =
     [''task_type'' \<mapsto> ''github-release'',
      ''assignee'' \<mapsto> ''github-releaser-agent'',
      ''phase'' \<mapsto> ''planning'',
      ''status'' \<mapsto> ''in_progress'',
      ''stage'' \<mapsto> Stage cfg,
      ''task_identifier'' \<mapsto> taskIDStr,
      ''title'' \<mapsto> ComputeTaskTitle release,
      ''repo'' \<mapsto> Owner (RelRepo release) @ ''/'' @ Name (RelRepo release),
      ''clone_url'' \<mapsto>
        ''git@github.com:'' @ Owner (RelRepo release) @ ''/'' @ Name (RelRepo release) @ ''.git'',
      ''ref'' \<mapsto> HeadSHA release,
      ''current_version'' \<mapsto> CurrentVersion release]"

definition newline :: string where
  "newline = [CHR 0x0A]"

definition buildTaskBody :: "Release \<Rightarrow> string" where
  "buildTaskBody release =
     (let owner = Owner (RelRepo release); name = Name (RelRepo release)
      in ''# Release: '' @ owner @ ''/'' @ name @ newline @ newline
         @ ''**Current version:** '' @ CurrentVersion release @ newline
         @ ''**HEAD:** '' @ ShortSHA release @ newline
         @ ''**Changelog:** https://github.com/'' @ owner @ ''/'' @ name
         @ ''/blob/master/CHANGELOG.md'' @ newline
         @ ''**Repo:** ['' @ owner @ ''/'' @ name @ ''](https://github.com/'' @ owner @ ''/'' @ name
         @ '')'' @ newline)"

definition BuildCreateCommand ::
    "(string \<Rightarrow> string \<Rightarrow> string) \<Rightarrow> Release \<Rightarrow> TaskConfig \<Rightarrow> CreateCommand" where
  "BuildCreateCommand newSHA1 release cfg =
     (let taskIDStr = DeriveTaskID newSHA1 (Owner (RelRepo release)) (Name (RelRepo release)) (HeadSHA release)
      in \<lparr>Title = ComputeTaskTitle release,
          CmdTargetVault = TargetVault cfg,
          TaskIdentifier = taskIDStr,
          Frontmatter = buildFrontmatter release taskIDStr cfg,
          Body = buildTaskBody release\<rparr>)"

section \<open>Facts\<close>

text \<open>
  Names as GitHub has them: an owner or a repository name never contains a slash or an at
  sign. The keys and identifiers built from such names are injective.
\<close>

definition plain_name :: "string \<Rightarrow> bool" where
  "plain_name s \<longleftrightarrow> s \<noteq> [] \<and> CHR ''/'' \<notin> set s \<and> CHR ''@'' \<notin> set s"

definition plain_repo :: "Repo \<Rightarrow> bool" where
  "plain_repo r \<longleftrightarrow> plain_name (Owner r) \<and> plain_name (Name r)"

lemma task_key_inj:
  assumes "task_key o1 n1 s1 = task_key o2 n2 s2"
    and "plain_name o1" "plain_name n1" "plain_name o2" "plain_name n2"
  shows "o1 = o2 \<and> n1 = n2 \<and> s1 = s2"
proof -
  have "o1 @ CHR ''/'' # (n1 @ CHR ''@'' # s1) = o2 @ CHR ''/'' # (n2 @ CHR ''@'' # s2)"
    using assms(1) by (simp add: task_key_def)
  then have "o1 = o2" and "n1 @ CHR ''@'' # s1 = n2 @ CHR ''@'' # s2"
    using append_sep_inj assms(2,4) by (metis plain_name_def)+
  with assms(3,5) show ?thesis
    using append_sep_inj [of n1 "CHR ''@''" s1 n2 s2] by (auto simp: plain_name_def)
qed

lemma RepoString_inj:
  assumes "RepoString r = RepoString r'" and "plain_repo r" "plain_repo r'"
  shows "Owner r = Owner r' \<and> Name r = Name r'"
  using append_sep_inj [of "Owner r" "CHR ''/''" "Name r" "Owner r'" "Name r'"] assms
  by (simp add: RepoString_def plain_repo_def plain_name_def)

lemma Key_RepoString: "Key r = ''github.com/'' @ RepoString r"
  by (simp add: Key_def RepoString_def)

lemma Key_inj:
  assumes "Key r = Key r'" and "plain_repo r" "plain_repo r'"
  shows "Owner r = Owner r' \<and> Name r = Name r'"
  using RepoString_inj [OF _ assms(2,3)] assms(1) by (simp add: Key_RepoString)

lemma ShortSHA_prefix: "prefix (ShortSHA r) (HeadSHA r)"
  by (simp add: ShortSHA_def take_is_prefix)

lemma length_ShortSHA: "length (ShortSHA r) = min 7 (length (HeadSHA r))"
  by (simp add: ShortSHA_def)

section \<open>Properties\<close>

text \<open>A task identifier names one release. Two releases of repositories with GitHub names get
  the same identifier exactly when owner, name and commit agree, or when UUIDv5 itself collides:
  then it maps two different texts of the form owner/name@commit to the same identifier. What is
  hashed keeps the three parts apart, whatever the commit's text is.\<close>

theorem DeriveTaskID_unique:
  assumes "plain_name own" "plain_name nm" "plain_name own'" "plain_name nm'"
  shows "DeriveTaskID newSHA1 own nm sha = DeriveTaskID newSHA1 own' nm' sha'
    \<longleftrightarrow> (own = own' \<and> nm = nm' \<and> sha = sha')
      \<or> (\<exists>x y. x \<noteq> y \<and> x = own @ ''/'' @ nm @ ''@'' @ sha \<and> y = own' @ ''/'' @ nm' @ ''@'' @ sha'
          \<and> newSHA1 taskIDNamespace x = newSHA1 taskIDNamespace y)"
  using task_key_inj [OF _ assms, of sha sha'] by (auto simp: DeriveTaskID_def task_key_def)

text \<open>The input: identifiers of a fixed length, made of the last characters, for two commits and
  for two commits that agree in them.\<close>

theorem DeriveTaskID_unique_witness:
  "let h = (\<lambda>ns d. take 6 (rev d)) in
     DeriveTaskID h ''bborbe'' ''kv'' ''abc1234'' \<noteq> DeriveTaskID h ''bborbe'' ''kv'' ''abc1235''
     \<and> DeriveTaskID h ''bborbe'' ''kv'' ''abc1234'' = DeriveTaskID h ''bborbe'' ''kw'' ''abc1234''"
  unfolding Let_def by (subst (1 2) DeriveTaskID_unique) (simp_all add: plain_name_def)

text \<open>The title, which becomes a file name, stays one path segment: it has no slash
  when the repository has a GitHub name and the commit is a hash.\<close>

theorem ComputeTaskTitle_no_slash:
  assumes "plain_repo (RelRepo r)" "CHR ''/'' \<notin> set (HeadSHA r)"
  shows "CHR ''/'' \<notin> set (ComputeTaskTitle r)"
proof -
  have "set (ShortSHA r) \<subseteq> set (HeadSHA r)" using ShortSHA_prefix set_mono_prefix by blast
  then show ?thesis using assms by (auto simp: ComputeTaskTitle_def plain_repo_def plain_name_def)
qed

theorem ComputeTaskTitle_no_slash_witness:
  "CHR ''/'' \<notin> set (ComputeTaskTitle \<lparr>RelRepo = \<lparr>Owner = ''bborbe'', Name = ''kv'',
     DefaultBranch = ''master'', Fork = False\<rparr>, HeadSHA = ''0123456789'', CurrentVersion = ''v1.0.0'',
     UnreleasedBullets = 1, AutoRelease = True, AllowFork = False\<rparr>)"
  by (rule ComputeTaskTitle_no_slash) (simp_all add: plain_repo_def plain_name_def)

end
