(* ===== verification/Process.thy ===== *)
theory Process
  imports Domain
begin

text \<open>
  The state of the running service. Third-party services (GitHub, Kafka, the cluster, the
  registry, the clock) are an opaque part \<open>Ext\<close> of type \<open>'w\<close> that the parameters standing
  for them read and update. What the code itself keeps or emits is explicit: the last
  rate-limit reading of the GitHub client, the debouncer's map, the files, the log lines,
  and the list of observable actions (metric updates and messages handed to other systems),
  in the order the code performs them.
\<close>

section \<open>Messages and actions\<close>

record TriggerReleaseCheckCommand =
  Scope :: string
  Force :: bool
  Tag :: string

text \<open>A batch Job: what the code reads of it, and the rest of the manifest as opaque text.\<close>

record Job =
  JobName :: string
  JobNamespace :: string
  ContainerImages :: "string list"
  JobRest :: string

datatype action =
    IncPollCycle string
  | IncPublished string
  | IncReposScanned nat
  | IncFilterSkipped string
  | IncBuildDispatched string
  | IncWebhookDelivery string
  | IncWebhookSignatureRejected
  | IncWebhookSkipped string
  | SetRateLimitRemaining int
  | ObserveWebhookDispatchLatency int
  | SendCreate CreateCommand bool
  | SendTrigger TriggerReleaseCheckCommand bool
  | CreateJob Job

section \<open>Files\<close>

text \<open>
  A fault table per path makes every outcome of the operating system calls possible: an open
  that fails leaves the file alone, a write that fails leaves a prefix of the data.
\<close>

datatype write_fault = OpenFails goerr | WriteFails nat goerr

record fs =
  files :: "string \<Rightarrow> string option"
  readFault :: "string \<Rightarrow> goerr option"
  writeFault :: "string \<Rightarrow> write_fault option"
  renameFault :: "string \<Rightarrow> goerr option"

definition ReadFile :: "string \<Rightarrow> fs \<Rightarrow> string res" where
  "ReadFile path f = (case readFault f path of
      Some e \<Rightarrow> Inl e
    | None \<Rightarrow> (case files f path of None \<Rightarrow> Inl NotExist | Some d \<Rightarrow> Inr d))"

definition WriteFile :: "string \<Rightarrow> string \<Rightarrow> fs \<Rightarrow> goerr option \<times> fs" where
  "WriteFile path data f = (case writeFault f path of
      Some (OpenFails e) \<Rightarrow> (Some e, f)
    | Some (WriteFails n e) \<Rightarrow> (Some e, f\<lparr>files := (files f)(path := Some (take n data))\<rparr>)
    | None \<Rightarrow> (None, f\<lparr>files := (files f)(path := Some data)\<rparr>))"

definition Rename :: "string \<Rightarrow> string \<Rightarrow> fs \<Rightarrow> goerr option \<times> fs" where
  "Rename old new f = (case renameFault f old of
      Some e \<Rightarrow> (Some e, f)
    | None \<Rightarrow> (case files f old of
         None \<Rightarrow> (Some NotExist, f)
       | Some d \<Rightarrow> (None, f\<lparr>files := (files f)(old := None, new := Some d)\<rparr>)))"

section \<open>The process\<close>

record 'w sys =
  Ext :: 'w
  RateRemaining :: int
  Acts :: "action list"
  Log :: "string list"
  Fs :: fs
  DebounceLast :: "string \<Rightarrow> int option"

definition act :: "action \<Rightarrow> 'w sys \<Rightarrow> 'w sys" where
  "act a s = s\<lparr>Acts := Acts s @ [a]\<rparr>"

definition logline :: "string \<Rightarrow> 'w sys \<Rightarrow> 'w sys" where
  "logline l s = s\<lparr>Log := Log s @ [l]\<rparr>"

text \<open>\<open>ctx.Err()\<close> at the moment of the check: the context is a view of the state.\<close>

type_synonym 'w ctx = "'w sys \<Rightarrow> goerr option"

lemma act_sel [simp]:
  "Ext (act a s) = Ext s" "RateRemaining (act a s) = RateRemaining s"
  "Acts (act a s) = Acts s @ [a]" "Log (act a s) = Log s" "Fs (act a s) = Fs s"
  "DebounceLast (act a s) = DebounceLast s"
  by (simp_all add: act_def)

lemma logline_sel [simp]:
  "Ext (logline l s) = Ext s" "RateRemaining (logline l s) = RateRemaining s"
  "Acts (logline l s) = Acts s" "Log (logline l s) = Log s @ [l]" "Fs (logline l s) = Fs s"
  "DebounceLast (logline l s) = DebounceLast s"
  by (simp_all add: logline_def)

text \<open>
  Two frame relations: \<open>quiet s t\<close> says that nothing but the outside world, the rate reading
  and the log moved (an API call of the GitHub client), \<open>acts_only\<close> that files and the
  debouncer are untouched while actions were appended (an operation that talks to other
  systems).
\<close>

definition quiet :: "'w sys \<Rightarrow> 'w sys \<Rightarrow> bool" where
  "quiet s t \<longleftrightarrow> Acts t = Acts s \<and> Fs t = Fs s \<and> DebounceLast t = DebounceLast s"

definition extends :: "'w sys \<Rightarrow> 'w sys \<Rightarrow> bool" where
  "extends s t \<longleftrightarrow> prefix (Acts s) (Acts t) \<and> Fs t = Fs s \<and> DebounceLast t = DebounceLast s"

definition new_acts :: "'w sys \<Rightarrow> 'w sys \<Rightarrow> action list" where
  "new_acts s t = drop (length (Acts s)) (Acts t)"

lemma quiet_refl [simp]: "quiet s s"
  by (simp add: quiet_def)

lemma quiet_trans: "quiet s t \<Longrightarrow> quiet t u \<Longrightarrow> quiet s u"
  by (simp add: quiet_def)

lemma quiet_logline [simp]: "quiet s (logline l s)"
  by (simp add: quiet_def)

lemma extends_refl [simp]: "extends s s"
  by (simp add: extends_def)

lemma extends_trans: "extends s t \<Longrightarrow> extends t u \<Longrightarrow> extends s u"
  unfolding extends_def using prefix_order.trans by fastforce

lemma quiet_extends: "quiet s t \<Longrightarrow> extends s t"
  by (simp add: quiet_def extends_def)

lemma extends_act [simp]: "extends s (act a s)"
  by (simp add: extends_def)

lemma new_acts_refl [simp]: "new_acts s s = []"
  by (simp add: new_acts_def)

lemma new_acts_act [simp]: "new_acts s (act a s) = [a]"
  by (simp add: new_acts_def)

lemma new_acts_quiet: "quiet s t \<Longrightarrow> new_acts s t = []"
  by (simp add: quiet_def new_acts_def)

lemma Acts_extends: "extends s t \<Longrightarrow> Acts t = Acts s @ new_acts s t"
  by (auto simp: extends_def new_acts_def prefix_def)

lemma new_acts_trans:
  assumes "extends s t" "extends t u"
  shows "new_acts s u = new_acts s t @ new_acts t u"
  using assms by (auto simp: extends_def new_acts_def elim!: prefixE)

text \<open>A call to the outside world.\<close>

definition world_call :: "('w \<Rightarrow> 'a \<times> 'w) \<Rightarrow> 'w sys \<Rightarrow> 'a \<times> 'w sys" where
  "world_call f s = (case f (Ext s) of (r, w) \<Rightarrow> (r, s\<lparr>Ext := w\<rparr>))"

lemma quiet_world_call: "world_call f s = (r, t) \<Longrightarrow> quiet s t"
  by (auto simp: world_call_def quiet_def split: prod.splits)

text \<open>One action appended after a quiet call.\<close>

lemma quiet_act: "quiet s t \<Longrightarrow> extends s (act a t) \<and> new_acts s (act a t) = [a]"
  by (metis extends_act extends_trans new_acts_act new_acts_quiet new_acts_trans quiet_extends
      append_Nil)

text \<open>The process when it starts: nothing sent, no rate reading, nothing debounced.\<close>

definition initial_sys :: "'w \<Rightarrow> fs \<Rightarrow> 'w sys" where
  "initial_sys w f = \<lparr>Ext = w, RateRemaining = 0, Acts = [], Log = [], Fs = f, DebounceLast = Map.empty\<rparr>"

definition empty_fs :: fs where
  "empty_fs = \<lparr>files = Map.empty, readFault = Map.empty, writeFault = Map.empty, renameFault = Map.empty\<rparr>"

lemma initial_sys_sel [simp]:
  "Ext (initial_sys w f) = w" "RateRemaining (initial_sys w f) = 0" "Acts (initial_sys w f) = []"
  "Log (initial_sys w f) = []" "Fs (initial_sys w f) = f" "DebounceLast (initial_sys w f) = Map.empty"
  by (simp_all add: initial_sys_def)

end
