(* ===== verification/Build_Config.thy ===== *)
theory Build_Config
  imports Process
begin

text \<open>
  Build requests (\<open>pkg/build/dispatch.go\<close>), destination classes (\<open>destination.go\<close>), a
  repository's build configuration (\<open>config.go\<close>) and where it is read from
  (\<open>autobuild.go\<close>). The YAML decoder and the Kubernetes check of label values are
  parameters; the latter returns its list of complaints.
\<close>

section \<open>Requests\<close>

datatype Trigger = TriggerWebhook | TriggerPoll

definition TagRefPrefix :: string where
  "TagRefPrefix = ''refs/tags/''"

record Request =
  ReqRepo :: string
  ReqTag :: string

definition Request_Validate :: "(string \<Rightarrow> string list) \<Rightarrow> Request \<Rightarrow> goerr option" where
  "Request_Validate isValidLabelValue r =
     (if ReqRepo r = '''' then Some (Errorf ''build request missing repo'')
      else if ReqTag r = '''' then Some (Errorf (''build request missing tag for repo='' @ ReqRepo r))
      else (let errs = isValidLabelValue (ReqTag r)
            in if errs \<noteq> [] then
                 Some (Errorf (''build request tag is not a valid Kubernetes label value repo='' @ ReqRepo r
                    @ '': '' @ Join errs ''; ''))
               else None))"

definition Request_Ref :: "Request \<Rightarrow> string" where
  "Request_Ref r = TagRefPrefix @ ReqTag r"

definition Request_ServicePath :: "Request \<Rightarrow> string" where
  "Request_ServicePath r = ReqRepo r"

text \<open>The interface of a dispatcher, as the backstop and the command executor see it.\<close>

type_synonym 'w Dispatcher = "Request \<Rightarrow> Trigger \<Rightarrow> 'w sys \<Rightarrow> goerr option \<times> 'w sys"

section \<open>Destinations\<close>

definition DestinationDockerHub :: string where "DestinationDockerHub = ''dockerhub''"
definition DestinationGHCR :: string where "DestinationGHCR = ''ghcr''"
definition DestinationInternal :: string where "DestinationInternal = ''internal''"

definition registryHosts :: "string \<rightharpoonup> string" where
  "registryHosts = [DestinationDockerHub \<mapsto> ''docker.io'',
     DestinationGHCR \<mapsto> ''ghcr.io'',
     DestinationInternal \<mapsto> ''docker.prod.nuke.benjamin-borbe.de:443'']"

definition ImageRepository :: "string \<Rightarrow> string \<Rightarrow> string res" where
  "ImageRepository dest repo = (case registryHosts dest of
      None \<Rightarrow> Inl (Wrapf (''resolve build destination='' @ dest @ '' repo='' @ repo)
                     (Sentinel ErrUnknownDestination))
    | Some host \<Rightarrow> Inr (host @ ''/'' @ repo))"

definition ValidateDestination :: "string \<Rightarrow> bool" where
  "ValidateDestination dest \<longleftrightarrow> registryHosts dest \<noteq> None"

section \<open>Configuration\<close>

record Config =
  AutoBuild :: bool
  Destinations :: "string list"
  PushSecret :: string
  DeadlineSeconds :: int
  Dockerfile :: string
  ServicePath :: string
  ContextPath :: string
  DockerfilePath :: string

definition zeroConfig :: Config where
  "zeroConfig = \<lparr>AutoBuild = False, Destinations = [], PushSecret = '''', DeadlineSeconds = 0,
     Dockerfile = '''', ServicePath = '''', ContextPath = '''', DockerfilePath = ''''\<rparr>"

definition DefaultMaxConcurrentBuilds :: int where "DefaultMaxConcurrentBuilds = 3"
definition DefaultPushSecret :: string where "DefaultPushSecret = ''buildkit-push''"
definition DefaultDeadlineSeconds :: int where "DefaultDeadlineSeconds = 3600"

definition Config_Validate :: "Config \<Rightarrow> goerr option" where
  "Config_Validate c =
     (if Destinations c = [] then
        Some (Wrapf ''dockerBuild.destinations is empty'' (Sentinel ErrBuildNotConfigured))
      else (case find (\<lambda>d. \<not> ValidateDestination d) (Destinations c) of
              Some d \<Rightarrow> Some (Wrapf (''dockerBuild.destinations contains '' @ d)
                                (Sentinel ErrUnknownDestination))
            | None \<Rightarrow> None))"

definition ImageRepositoryFor :: "Config \<Rightarrow> string \<Rightarrow> string res" where
  "ImageRepositoryFor c repo = (case Destinations c of
      [] \<Rightarrow> Inl (Wrapf ''dockerBuild.destinations is empty'' (Sentinel ErrBuildNotConfigured))
    | d # _ \<Rightarrow> ImageRepository d repo)"

section \<open>The opt-in file\<close>

definition MaintainerConfigPath :: string where
  "MaintainerConfigPath = ''.maintainer.yaml''"

text \<open>The decoded \<open>dockerBuild\<close> block.\<close>

record DockerBuildConfig =
  DbAutoBuild :: bool
  DbDestinations :: "string list"
  DbPushSecret :: string
  DbDeadlineSeconds :: int
  DbDockerfile :: string
  DbServicePath :: string
  DbContextPath :: string
  DbDockerfilePath :: string

definition orDefault :: "string \<Rightarrow> string \<Rightarrow> string" where
  "orDefault v fallback = (if v = '''' then fallback else v)"

definition orDefaultInt :: "int \<Rightarrow> int \<Rightarrow> int" where
  "orDefaultInt v fallback = (if v \<le> 0 then fallback else v)"

definition ParseBuildConfig ::
    "(string \<Rightarrow> DockerBuildConfig res) \<Rightarrow> string \<Rightarrow> string \<Rightarrow> Config res" where
  "ParseBuildConfig yaml raw repo = (case yaml raw of
      Inl e \<Rightarrow> Inl (Wrapf (''parse '' @ MaintainerConfigPath @ '' dockerBuild'') e)
    | Inr b \<Rightarrow> Inr \<lparr>AutoBuild = DbAutoBuild b,
        Destinations = DbDestinations b,
        PushSecret = orDefault (DbPushSecret b) DefaultPushSecret,
        DeadlineSeconds = orDefaultInt (DbDeadlineSeconds b) DefaultDeadlineSeconds,
        Dockerfile = DbDockerfile b,
        ServicePath = orDefault (DbServicePath b) repo,
        ContextPath = DbContextPath b,
        DockerfilePath = DbDockerfilePath b\<rparr>)"

type_synonym 'w FileFetcher =
  "string \<Rightarrow> string \<Rightarrow> string \<Rightarrow> 'w sys \<Rightarrow> string option res \<times> 'w sys"

type_synonym 'w ConfigProvider = "string \<Rightarrow> 'w sys \<Rightarrow> Config res \<times> 'w sys"

text \<open>The provider reads the default branch: the ref is empty. An absent file has no bytes.\<close>

definition configProvider ::
    "(string \<Rightarrow> DockerBuildConfig res) \<Rightarrow> 'w FileFetcher \<Rightarrow> 'w ConfigProvider" where
  "configProvider yaml fetcher repo s =
     (case fetcher repo MaintainerConfigPath '''' s of
        (Inl e, t) \<Rightarrow> (Inl (Wrapf (''read '' @ MaintainerConfigPath @ '' repo='' @ repo) e), t)
      | (Inr raw, t) \<Rightarrow>
          (case raw of
             None \<Rightarrow> (Inr zeroConfig, t)
           | Some d \<Rightarrow> (if length d = 0 then (Inr zeroConfig, t)
                        else (ParseBuildConfig yaml d repo, t))))"

section \<open>Facts\<close>

lemma Request_Validate_None:
  "Request_Validate v r = None \<longleftrightarrow> ReqRepo r \<noteq> '''' \<and> ReqTag r \<noteq> '''' \<and> v (ReqTag r) = []"
  by (simp add: Request_Validate_def Let_def)

lemma Config_Validate_None:
  "Config_Validate c = None \<longleftrightarrow> Destinations c \<noteq> [] \<and> list_all ValidateDestination (Destinations c)"
proof (cases "find (\<lambda>d. \<not> ValidateDestination d) (Destinations c)")
  case None
  then have "list_all ValidateDestination (Destinations c)"
    by (auto simp: find_None_iff list_all_iff)
  with None show ?thesis by (simp add: Config_Validate_def)
next
  case (Some d)
  then have "d \<in> set (Destinations c)" and "\<not> ValidateDestination d"
    by (auto simp: find_Some_iff)
  with Some show ?thesis by (auto simp: Config_Validate_def list_all_iff)
qed

text \<open>A validated configuration always resolves.\<close>

lemma ImageRepositoryFor_validated:
  assumes "Config_Validate c = None"
  obtains host where "registryHosts (hd (Destinations c)) = Some host"
    and "ImageRepositoryFor c repo = Inr (host @ ''/'' @ repo)"
proof -
  obtain d ds where d: "Destinations c = d # ds" and "ValidateDestination d"
    using assms by (cases "Destinations c") (auto simp: Config_Validate_None)
  then obtain host where "registryHosts d = Some host" by (auto simp: ValidateDestination_def)
  then show thesis using that d by (simp add: ImageRepositoryFor_def ImageRepository_def)
qed

lemma ParseBuildConfig_positive_deadline:
  "ParseBuildConfig yaml raw repo = Inr c \<Longrightarrow> 0 < DeadlineSeconds c \<and> PushSecret c \<noteq> ''''"
  by (auto simp: ParseBuildConfig_def orDefaultInt_def orDefault_def DefaultDeadlineSeconds_def
      DefaultPushSecret_def split: sum.splits if_splits)

section \<open>Properties\<close>

text \<open>A configuration is accepted exactly when it names at least one destination and only
  known ones, and then the image repository always resolves: the first destination's host,
  a slash and the repository. The dispatcher's "unknown destination" branch cannot be taken.\<close>

theorem Config_Validate_resolves:
  "(Config_Validate c = None \<longleftrightarrow> Destinations c \<noteq> [] \<and> list_all (\<lambda>d. registryHosts d \<noteq> None) (Destinations c))
   \<and> (Config_Validate c = None \<longrightarrow> (\<exists>host. registryHosts (hd (Destinations c)) = Some host
        \<and> ImageRepositoryFor c repo = Inr (host @ ''/'' @ repo)))"
proof -
  have "Config_Validate c = None \<longleftrightarrow> Destinations c \<noteq> [] \<and> list_all (\<lambda>d. registryHosts d \<noteq> None) (Destinations c)"
    unfolding Config_Validate_None by (auto simp: list_all_iff ValidateDestination_def)
  moreover have "\<exists>host. registryHosts (hd (Destinations c)) = Some host
        \<and> ImageRepositoryFor c repo = Inr (host @ ''/'' @ repo)" if "Config_Validate c = None"
    using ImageRepositoryFor_validated [OF that] by metis
  ultimately show ?thesis by blast
qed

theorem Config_Validate_resolves_witness:
  "\<exists>host. ImageRepositoryFor (zeroConfig\<lparr>Destinations := [''ghcr'', ''internal'']\<rparr>) ''bborbe/kv''
     = Inr (host @ ''/bborbe/kv'')"
proof -
  let ?c = "zeroConfig\<lparr>Destinations := [''ghcr'', ''internal'']\<rparr>"
  have "Config_Validate ?c = None"
    by (simp add: Config_Validate_def ValidateDestination_def registryHosts_def DestinationGHCR_def
        DestinationInternal_def DestinationDockerHub_def)
  then show ?thesis using Config_Validate_resolves [of ?c "''bborbe/kv''"] by auto
qed

end
