(* ===== verification/Manifest.thy ===== *)
theory Manifest
  imports Build_Config
begin

text \<open>
  Rendering the build-job manifest (\<open>pkg/build/manifest.go\<close>): the token dialect, Go's
  \<open>strings.NewReplacer\<close>, the scan for surviving tokens, the derived paths and the Job name.
  The YAML decoder of a Job, the clock and the random source are parameters.
\<close>

definition BuildJobManifestPath :: string where "BuildJobManifestPath = ''hack/build-job.yaml''"
definition DefaultBuildNamespace :: string where "DefaultBuildNamespace = ''build''"
definition DefaultDockerfile :: string where "DefaultDockerfile = ''Dockerfile''"

definition TokenJobName :: string where "TokenJobName = ''__JOB_NAME__''"
definition TokenRepoURL :: string where "TokenRepoURL = ''__REPO_URL__''"
definition TokenRef :: string where "TokenRef = ''__REF__''"
definition TokenTag :: string where "TokenTag = ''__TAG__''"
definition TokenDockerfile :: string where "TokenDockerfile = ''__DOCKERFILE__''"
definition TokenImage :: string where "TokenImage = ''__IMAGE__''"
definition TokenPush :: string where "TokenPush = ''__PUSH__''"
definition TokenPushSecret :: string where "TokenPushSecret = ''__PUSH_SECRET__''"
definition TokenDeadlineSeconds :: string where "TokenDeadlineSeconds = ''__DEADLINE_SECONDS__''"
definition TokenSourceDateEpoch :: string where "TokenSourceDateEpoch = ''__SOURCE_DATE_EPOCH__''"
definition TokenServicePath :: string where "TokenServicePath = ''__SERVICE_PATH__''"
definition TokenContextPath :: string where "TokenContextPath = ''__CONTEXT_PATH__''"
definition TokenDockerfilePath :: string where "TokenDockerfilePath = ''__DOCKERFILE_PATH__''"
definition TokenNodeSelector :: string where "TokenNodeSelector = ''__NODE_SELECTOR__''"

lemmas token_defs = TokenJobName_def TokenRepoURL_def TokenRef_def TokenTag_def
  TokenDockerfile_def TokenImage_def TokenPush_def TokenPushSecret_def TokenDeadlineSeconds_def
  TokenSourceDateEpoch_def TokenServicePath_def TokenContextPath_def TokenDockerfilePath_def
  TokenNodeSelector_def

record RenderParams =
  RpJobName :: string
  RpRepoURL :: string
  RpRef :: string
  RpTag :: string
  RpDockerfile :: string
  RpImage :: string
  RpPush :: bool
  RpPushSecret :: string
  RpDeadlineSeconds :: int
  RpSourceDateEpoch :: int
  RpServicePath :: string
  RpContextPath :: string
  RpDockerfilePath :: string
  RpNodeSelector :: string

section \<open>Text substitution\<close>

text \<open>
  \<open>strings.NewReplacer(pairs).Replace\<close>: at every position the first pair (in argument order)
  whose old string is a prefix wins; its new string is emitted and not scanned again.
\<close>

function Replace :: "(string \<times> string) list \<Rightarrow> string \<Rightarrow> string" where
  "Replace ps [] = []"
| "Replace ps (c # cs) =
     (case find (\<lambda>(old, _). old \<noteq> [] \<and> prefix old (c # cs)) ps of
        Some (old, new) \<Rightarrow> new @ Replace ps (drop (length old - 1) cs)
      | None \<Rightarrow> c # Replace ps cs)"
  by pat_completeness auto
termination by (relation "measure (length \<circ> snd)") auto

text \<open>The pattern \<open>__[A-Z0-9_]+__\<close>.\<close>

definition token_char :: "char \<Rightarrow> bool" where
  "token_char c \<longleftrightarrow> (65 \<le> byte c \<and> byte c \<le> 90) \<or> is_digit c \<or> c = CHR ''_''"

definition underscores :: string where "underscores = ''__''"

text \<open>
  The length of the longest match at the start of the text: the greedy body runs to the last
  double underscore of the run of token characters that leaves at least one character.
\<close>

definition match_token :: "string \<Rightarrow> nat option" where
  "match_token s =
     (if prefix underscores s then
        (let run = takeWhile token_char (drop 2 s);
             ends = filter (\<lambda>i. prefix underscores (drop i run)) [1..<length run]
         in if ends = [] then None else Some (last ends + 4))
      else None)"

function FindAllTokens :: "string \<Rightarrow> string list" where
  "FindAllTokens [] = []"
| "FindAllTokens (c # cs) = (case match_token (c # cs) of
      Some n \<Rightarrow> take n (c # cs) # FindAllTokens (drop (n - 1) cs)
    | None \<Rightarrow> FindAllTokens cs)"
  by pat_completeness auto
termination by (relation "measure length") auto

text \<open>The text cut after every newline; the last piece may lack one.\<close>

fun lines_keep :: "string \<Rightarrow> string list" where
  "lines_keep [] = []"
| "lines_keep (c # cs) =
     (if c = CHR 0x0A then [c] # lines_keep cs
      else (case lines_keep cs of [] \<Rightarrow> [[c]] | l # ls \<Rightarrow> (c # l) # ls))"

text \<open>Deleting every match of \<open>(?m)^.*__NODE_SELECTOR__.*\n?\<close>.\<close>

definition drop_selector_lines :: "string \<Rightarrow> string" where
  "drop_selector_lines raw = concat (filter (\<lambda>l. \<not> sublist TokenNodeSelector l) (lines_keep raw))"

section \<open>Rendering\<close>

definition RenderParams_validate :: "RenderParams \<Rightarrow> goerr option" where
  "RenderParams_validate p =
     (if RpJobName p = '''' then Some (Errorf ''render build job manifest: missing job name'')
      else if RpRepoURL p = '''' then Some (Errorf ''render build job manifest: missing repo url'')
      else if RpRef p = '''' then Some (Errorf ''render build job manifest: missing ref'')
      else if RpTag p = '''' then Some (Errorf ''render build job manifest: missing tag'')
      else if RpImage p = '''' then Some (Errorf ''render build job manifest: missing image'')
      else if RpSourceDateEpoch p \<le> 0 then
        Some (Errorf (''render build job manifest: missing source date epoch for tag='' @ RpTag p))
      else None)"

definition contextRoot :: "string \<Rightarrow> string" where
  "contextRoot servicePath =
     (let parts = Split (Trim servicePath ''/'') (CHR ''/'')
      in if length parts \<le> 2 then ''/src'' else ''/src/'' @ Join (drop 2 parts) ''/'')"

definition FormatBool :: "bool \<Rightarrow> string" where
  "FormatBool b = (if b then ''true'' else ''false'')"

definition replacements :: "RenderParams \<Rightarrow> (string \<times> string) list" where
  "replacements p =
     (let dockerfile = (if RpDockerfile p = '''' then DefaultDockerfile else RpDockerfile p);
          contextPath = (if RpContextPath p = '''' then contextRoot (RpServicePath p) else RpContextPath p);
          dockerfilePath = (if RpDockerfilePath p = '''' then contextPath else RpDockerfilePath p)
      in [(TokenJobName, RpJobName p),
          (TokenRepoURL, RpRepoURL p),
          (TokenRef, RpRef p),
          (TokenTag, RpTag p),
          (TokenDockerfile, dockerfile),
          (TokenImage, RpImage p),
          (TokenPush, FormatBool (RpPush p)),
          (TokenPushSecret, RpPushSecret p),
          (TokenDeadlineSeconds, Itoa (RpDeadlineSeconds p)),
          (TokenSourceDateEpoch, Itoa (RpSourceDateEpoch p)),
          (TokenServicePath, RpServicePath p),
          (TokenContextPath, contextPath),
          (TokenDockerfilePath, dockerfilePath),
          (TokenNodeSelector, RpNodeSelector p)])"

text \<open>First occurrences only, in order.\<close>

fun uniqueStrings_from :: "string list \<Rightarrow> string list \<Rightarrow> string list" where
  "uniqueStrings_from seen [] = []"
| "uniqueStrings_from seen (s # ss) =
     (if s \<in> set seen then uniqueStrings_from seen ss
      else s # uniqueStrings_from (s # seen) ss)"

definition uniqueStrings :: "string list \<Rightarrow> string list" where
  "uniqueStrings ss = uniqueStrings_from [] ss"

definition RenderJob :: "(string \<Rightarrow> Job res) \<Rightarrow> string \<Rightarrow> RenderParams \<Rightarrow> Job res" where
  "RenderJob yamlJob raw p =
     (case RenderParams_validate p of
        Some e \<Rightarrow> Inl e
      | None \<Rightarrow>
          (let raw' = (if RpNodeSelector p = '''' then drop_selector_lines raw else raw);
               rendered = Replace (replacements p) raw';
               leftovers = FindAllTokens rendered
           in if leftovers \<noteq> [] then
                Inl (Wrapf (''render build job manifest service='' @ RpServicePath p @ '' tag='' @ RpTag p
                      @ '' unrendered='' @ Join (uniqueStrings leftovers) '','')
                    (Sentinel ErrUnrenderedToken))
              else (case yamlJob rendered of
                  Inl e \<Rightarrow> Inl (Wrapf (''parse build job manifest service='' @ RpServicePath p
                             @ '' tag='' @ RpTag p) e)
                | Inr job \<Rightarrow> Inr (if JobNamespace job = ''''
                                 then job\<lparr>JobNamespace := DefaultBuildNamespace\<rparr> else job))))"

section \<open>Names\<close>

definition ImageBase :: "string \<Rightarrow> string" where
  "ImageBase s = (let idx = LastIndex s (CHR ''/'') in if 0 \<le> idx then drop (nat (idx + 1)) s else s)"

text \<open>
  \<open>unicode.ToLower\<close> where it matters: the runes outside ASCII whose lower case is an ASCII
  letter are the dotted capital I and the Kelvin sign; all others stay outside the label's
  alphabet.
\<close>

definition ToLowerRune :: "nat \<Rightarrow> nat" where
  "ToLowerRune r = (if 65 \<le> r \<and> r \<le> 90 then r + 32
                    else if r = 304 then 105 else if r = 8490 then 107 else r)"

definition label_rune :: "nat \<Rightarrow> bool" where
  "label_rune r \<longleftrightarrow> (97 \<le> r \<and> r \<le> 122) \<or> (48 \<le> r \<and> r \<le> 57)"

text \<open>The loop over the runes, with the builder's content and the last-dash flag.\<close>

fun label_loop :: "nat list \<Rightarrow> string \<Rightarrow> bool \<Rightarrow> string" where
  "label_loop [] b lastDash = b"
| "label_loop (r # rs) b lastDash =
     (if label_rune r then label_loop rs (b @ [char_of r]) False
      else if \<not> lastDash \<and> 0 < length b then label_loop rs (b @ ''-'') True
      else label_loop rs b lastDash)"

definition dnsLabel :: "string \<Rightarrow> string" where
  "dnsLabel s =
     (let out = Trim (label_loop (map ToLowerRune (runes s)) '''' False) ''-''
      in if 63 < length out then Trim (take 63 out) ''-'' else out)"

record civil_time =
  year :: nat
  month :: nat
  day :: nat
  hour :: nat
  minute :: nat
  second :: nat

definition pad2 :: "nat \<Rightarrow> string" where
  "pad2 n = (if n < 10 then CHR ''0'' # digits n else digits n)"

definition pad4 :: "nat \<Rightarrow> string" where
  "pad4 n = replicate (4 - length (digits n)) (CHR ''0'') @ digits n"

text \<open>\<open>Format("20060102-150405")\<close>.\<close>

definition format_time :: "civil_time \<Rightarrow> string" where
  "format_time t = pad4 (year t) @ pad2 (month t) @ pad2 (day t) @ ''-''
     @ pad2 (hour t) @ pad2 (minute t) @ pad2 (second t)"

definition alphabet :: string where
  "alphabet = ''abcdefghijklmnopqrstuvwxyz0123456789''"

text \<open>Four random bytes, or \<open>None\<close> when the random source failed.\<close>

definition randomSuffix :: "(nat \<times> nat \<times> nat \<times> nat) option \<Rightarrow> string" where
  "randomSuffix rnd = (case rnd of
      None \<Rightarrow> ''0000''
    | Some (a, b, c, d) \<Rightarrow> map (\<lambda>x. alphabet ! (x mod length alphabet)) [a, b, c, d])"

definition NewJobName ::
    "civil_time \<Rightarrow> (nat \<times> nat \<times> nat \<times> nat) option \<Rightarrow> string \<Rightarrow> string \<Rightarrow> string" where
  "NewJobName now rnd repo tag =
     dnsLabel (''build-'' @ ImageBase repo @ ''-'' @ tag @ ''-'' @ format_time now @ ''-'' @ randomSuffix rnd)"

section \<open>No token survives\<close>

text \<open>A token of the dialect, and the scan's completeness for it.\<close>

definition is_token :: "string \<Rightarrow> bool" where
  "is_token t \<longleftrightarrow> (\<exists>body. t = underscores @ body @ underscores \<and> body \<noteq> [] \<and> list_all token_char body)"

lemma match_token_complete:
  assumes "is_token t"
  shows "match_token (t @ b) \<noteq> None"
proof -
  obtain body where t: "t = underscores @ body @ underscores" and "body \<noteq> []"
    and tc: "list_all token_char body"
    using assms by (auto simp: is_token_def)
  let ?run = "takeWhile token_char (drop 2 (t @ b))"
  have "list_all token_char (body @ underscores)"
    using tc by (simp add: underscores_def token_char_def)
  then obtain u where u: "?run = (body @ underscores) @ u"
    unfolding t by (simp add: underscores_def takeWhile_append list_all_iff)
  have "prefix underscores (t @ b)" by (simp add: t)
  moreover have "length body \<in> {1..<length ?run}" "prefix underscores (drop (length body) ?run)"
    using \<open>body \<noteq> []\<close> u by (auto simp: underscores_def Suc_le_eq)
  ultimately show ?thesis by (auto simp: match_token_def Let_def filter_empty_conv)
qed

lemma FindAllTokens_none: "FindAllTokens (a @ s) = [] \<Longrightarrow> s \<noteq> [] \<Longrightarrow> match_token s = None"
proof (induction a)
  case Nil
  then show ?case by (cases s) (auto split: option.splits)
qed (auto split: option.splits)

lemma FindAllTokens_no_token:
  assumes "FindAllTokens text = []" "sublist t text"
  shows "\<not> is_token t"
proof
  assume tok: "is_token t"
  obtain a b where "text = a @ (t @ b)" using assms(2) by (auto simp: sublist_def)
  moreover have "t @ b \<noteq> []" using tok by (auto simp: is_token_def underscores_def)
  ultimately show False
    using FindAllTokens_none assms(1) match_token_complete [OF tok] by metis
qed

lemma RenderParams_validate_None:
  "RenderParams_validate p = None \<longleftrightarrow> RpJobName p \<noteq> '''' \<and> RpRepoURL p \<noteq> '''' \<and> RpRef p \<noteq> ''''
     \<and> RpTag p \<noteq> '''' \<and> RpImage p \<noteq> '''' \<and> 0 < RpSourceDateEpoch p"
  by (auto simp: RenderParams_validate_def)

lemma RenderJob_ok:
  assumes "RenderJob yamlJob raw p = Inr job"
  obtains rendered j where "yamlJob rendered = Inr j"
    and "job = (if JobNamespace j = '''' then j\<lparr>JobNamespace := DefaultBuildNamespace\<rparr> else j)"
    and "\<forall>t. sublist t rendered \<longrightarrow> \<not> is_token t"
    and "rendered = Replace (replacements p) (if RpNodeSelector p = '''' then drop_selector_lines raw else raw)"
    and "RenderParams_validate p = None"
proof -
  let ?r = "Replace (replacements p) (if RpNodeSelector p = '''' then drop_selector_lines raw else raw)"
  have v: "RenderParams_validate p = None" and l: "FindAllTokens ?r = []"
    using assms by (auto simp: RenderJob_def Let_def split: option.splits if_splits)
  then obtain j where "yamlJob ?r = Inr j"
    and "job = (if JobNamespace j = '''' then j\<lparr>JobNamespace := DefaultBuildNamespace\<rparr> else j)"
    using assms by (auto simp: RenderJob_def Let_def split: sum.splits)
  with that v FindAllTokens_no_token [OF l] show thesis by blast
qed

lemma uniqueStrings_from:
  "distinct (uniqueStrings_from seen ss) \<and> set (uniqueStrings_from seen ss) = set ss - set seen"
  by (induction ss arbitrary: seen) auto

section \<open>What a template becomes\<close>

text \<open>
  The template dialect of a build-job manifest: lines of plain text, without underscores, and of
  the fourteen placeholders, each of which stands for one value of the build.
\<close>

datatype slot = JobNameSlot | RepoURLSlot | RefSlot | TagSlot | DockerfileSlot | ImageSlot | PushSlot
  | PushSecretSlot | DeadlineSlot | EpochSlot | ServicePathSlot | ContextPathSlot | DockerfilePathSlot
  | NodeSelectorSlot

datatype piece = Words string | Slot slot

fun slot_text :: "slot \<Rightarrow> string" where
  "slot_text JobNameSlot = ''__JOB_NAME__''"
| "slot_text RepoURLSlot = ''__REPO_URL__''"
| "slot_text RefSlot = ''__REF__''"
| "slot_text TagSlot = ''__TAG__''"
| "slot_text DockerfileSlot = ''__DOCKERFILE__''"
| "slot_text ImageSlot = ''__IMAGE__''"
| "slot_text PushSlot = ''__PUSH__''"
| "slot_text PushSecretSlot = ''__PUSH_SECRET__''"
| "slot_text DeadlineSlot = ''__DEADLINE_SECONDS__''"
| "slot_text EpochSlot = ''__SOURCE_DATE_EPOCH__''"
| "slot_text ServicePathSlot = ''__SERVICE_PATH__''"
| "slot_text ContextPathSlot = ''__CONTEXT_PATH__''"
| "slot_text DockerfilePathSlot = ''__DOCKERFILE_PATH__''"
| "slot_text NodeSelectorSlot = ''__NODE_SELECTOR__''"

text \<open>The paths have defaults: the service's own context, and the context for the Dockerfile's path.\<close>

definition context_of :: "RenderParams \<Rightarrow> string" where
  "context_of p = (if RpContextPath p = '''' then contextRoot (RpServicePath p) else RpContextPath p)"

fun slot_value :: "RenderParams \<Rightarrow> slot \<Rightarrow> string" where
  "slot_value p JobNameSlot = RpJobName p"
| "slot_value p RepoURLSlot = RpRepoURL p"
| "slot_value p RefSlot = RpRef p"
| "slot_value p TagSlot = RpTag p"
| "slot_value p DockerfileSlot = (if RpDockerfile p = '''' then ''Dockerfile'' else RpDockerfile p)"
| "slot_value p ImageSlot = RpImage p"
| "slot_value p PushSlot = (if RpPush p then ''true'' else ''false'')"
| "slot_value p PushSecretSlot = RpPushSecret p"
| "slot_value p DeadlineSlot = Itoa (RpDeadlineSeconds p)"
| "slot_value p EpochSlot = Itoa (RpSourceDateEpoch p)"
| "slot_value p ServicePathSlot = RpServicePath p"
| "slot_value p ContextPathSlot = context_of p"
| "slot_value p DockerfilePathSlot = (if RpDockerfilePath p = '''' then context_of p else RpDockerfilePath p)"
| "slot_value p NodeSelectorSlot = RpNodeSelector p"

fun piece_text :: "piece \<Rightarrow> string" where
  "piece_text (Words w) = w"
| "piece_text (Slot x) = slot_text x"

fun piece_value :: "RenderParams \<Rightarrow> piece \<Rightarrow> string" where
  "piece_value p (Words w) = w"
| "piece_value p (Slot x) = slot_value p x"

fun plain_piece :: "piece \<Rightarrow> bool" where
  "plain_piece (Words w) \<longleftrightarrow> CHR ''_'' \<notin> set w \<and> CHR 0x0A \<notin> set w"
| "plain_piece (Slot x) \<longleftrightarrow> True"

definition template_text :: "piece list list \<Rightarrow> string" where
  "template_text ls = concat (map (\<lambda>l. concat (map piece_text l) @ [CHR 0x0A]) ls)"

text \<open>The lines that name the node selector go when there is none; each placeholder becomes its value.\<close>

definition template_value :: "RenderParams \<Rightarrow> piece list list \<Rightarrow> string" where
  "template_value p ls = concat (map (\<lambda>l. concat (map (piece_value p) l) @ [CHR 0x0A])
     (filter (\<lambda>l. RpNodeSelector p = '''' \<longrightarrow> \<not> sublist ''__NODE_SELECTOR__'' (concat (map piece_text l))) ls))"

lemma find_slot: "find (\<lambda>(old, _). old \<noteq> [] \<and> prefix old (slot_text x @ b)) (replacements p)
    = Some (slot_text x, slot_value p x)"
  by (cases x) (simp_all add: replacements_def token_defs Let_def FormatBool_def DefaultDockerfile_def context_of_def)

lemma Replace_slot: "Replace (replacements p) (slot_text x @ b) = slot_value p x @ Replace (replacements p) b"
proof -
  obtain c cs where x: "slot_text x = c # cs" by (cases x) simp_all
  then show ?thesis using find_slot [of x b p] by simp
qed

lemma Replace_word: "CHR ''_'' \<notin> set w \<Longrightarrow> Replace (replacements p) (w @ b) = w @ Replace (replacements p) b"
proof (induction w)
  case (Cons c w)
  have "find (\<lambda>(old, _). old \<noteq> [] \<and> prefix old (c # w @ b)) (replacements p) = None"
    using Cons.prems by (simp add: replacements_def token_defs Let_def)
  then show ?case using Cons by simp
qed simp

lemma Replace_pieces: "list_all plain_piece l \<Longrightarrow>
    Replace (replacements p) (concat (map piece_text l) @ b) = concat (map (piece_value p) l) @ Replace (replacements p) b"
proof (induction l)
  case (Cons x l)
  then show ?case by (cases x) (simp_all add: Replace_word Replace_slot)
qed simp

lemma Replace_lines: "list_all (list_all plain_piece) ls \<Longrightarrow>
    Replace (replacements p) (template_text ls) = concat (map (\<lambda>l. concat (map (piece_value p) l) @ [CHR 0x0A]) ls)"
proof (induction ls)
  case (Cons l ls)
  then show ?case
    using Replace_word [of "[CHR 0x0A]" p] by (simp add: template_text_def Replace_pieces)
qed (simp add: template_text_def)

lemma lines_keep_line: "CHR 0x0A \<notin> set l \<Longrightarrow> lines_keep (l @ CHR 0x0A # b) = (l @ [CHR 0x0A]) # lines_keep b"
  by (induction l) auto

lemma plain_line: "list_all plain_piece l \<Longrightarrow> CHR 0x0A \<notin> set (concat (map piece_text l))"
proof (induction l)
  case (Cons x l)
  have "CHR 0x0A \<notin> set (slot_text y)" for y by (cases y) simp_all
  then show ?case using Cons by (cases x) simp_all
qed simp

lemma selector_line: "sublist TokenNodeSelector (l @ [CHR 0x0A]) \<longleftrightarrow> sublist TokenNodeSelector l"
proof -
  have "last TokenNodeSelector \<noteq> CHR 0x0A" by (simp add: TokenNodeSelector_def)
  then have "TokenNodeSelector \<noteq> zs @ [CHR 0x0A]" for zs by (metis last_snoc)
  moreover have "TokenNodeSelector \<noteq> []" by (simp add: TokenNodeSelector_def)
  ultimately show ?thesis by (simp add: sublist_snoc)
qed

lemma drop_template: "list_all (list_all plain_piece) ls \<Longrightarrow> drop_selector_lines (template_text ls)
    = template_text (filter (\<lambda>l. \<not> sublist TokenNodeSelector (concat (map piece_text l))) ls)"
proof -
  assume "list_all (list_all plain_piece) ls"
  then have "lines_keep (template_text ls) = map (\<lambda>l. concat (map piece_text l) @ [CHR 0x0A]) ls"
  proof (induction ls)
    case (Cons l ls)
    then show ?case using lines_keep_line [OF plain_line] by (simp add: template_text_def)
  qed (simp add: template_text_def)
  then show ?thesis by (simp add: drop_selector_lines_def template_text_def filter_map o_def selector_line)
qed

lemma rendered_template:
  assumes "list_all (list_all plain_piece) ls"
  shows "Replace (replacements p) (if RpNodeSelector p = '''' then drop_selector_lines (template_text ls) else template_text ls)
    = template_value p ls"
proof -
  have "list_all (list_all plain_piece) (filter P ls)" for P using assms by (auto simp: list_all_iff)
  then show ?thesis
    using drop_template [OF assms] Replace_lines assms
    by (simp add: template_value_def TokenNodeSelector_def [symmetric])
qed

section \<open>Labels\<close>

definition label_char :: "char \<Rightarrow> bool" where
  "label_char c \<longleftrightarrow> (97 \<le> byte c \<and> byte c \<le> 122) \<or> is_digit c"

text \<open>A DNS-1123 label, up to being empty.\<close>

definition dns_label :: "string \<Rightarrow> bool" where
  "dns_label s \<longleftrightarrow> length s \<le> 63 \<and> (\<forall>c\<in>set s. label_char c \<or> c = CHR ''-'')
     \<and> (s \<noteq> '''' \<longrightarrow> hd s \<noteq> CHR ''-'' \<and> last s \<noteq> CHR ''-'')"

lemma label_char_of_rune: "label_rune r \<Longrightarrow> label_char (char_of r)"
  by (auto simp: label_rune_def label_char_def is_digit_def)

lemma label_char_not_dash: "label_char c \<Longrightarrow> c \<noteq> CHR ''-''"
  by (auto simp: label_char_def is_digit_def)

lemma label_loop_chars:
  "\<forall>c\<in>set b. label_char c \<or> c = CHR ''-'' \<Longrightarrow>
   c \<in> set (label_loop rs b d) \<Longrightarrow> label_char c \<or> c = CHR ''-''"
proof (induction rs b d rule: label_loop.induct)
  case (2 r rs b d)
  then show ?case using label_char_of_rune by (auto split: if_splits)
qed auto

lemma dnsLabel_is_label: "dns_label (dnsLabel s)"
proof -
  define out where "out = Trim (label_loop (map ToLowerRune (runes s)) '''' False) ''-''"
  have chars: "\<forall>c\<in>set out. label_char c \<or> c = CHR ''-''"
    unfolding out_def using label_loop_chars [of "[]"] subsetD [OF set_Trim] by force
  have ends: "t \<noteq> '''' \<longrightarrow> hd t \<noteq> CHR ''-'' \<and> last t \<noteq> CHR ''-''" if "t = Trim u ''-''" for t u :: string
    using that Trim_hd [of u "''-''"] Trim_last [of u "''-''"] by auto
  show ?thesis
  proof (cases "63 < length out")
    case True
    then have eq: "dnsLabel s = Trim (take 63 out) ''-''" by (simp add: dnsLabel_def out_def Let_def)
    have "set (dnsLabel s) \<subseteq> set out" unfolding eq using set_Trim set_take_subset by fastforce
    moreover have "length (dnsLabel s) \<le> 63" unfolding eq using length_Trim [of "take 63 out"] by (simp add: order_trans)
    ultimately show ?thesis using chars ends [OF eq] by (auto simp: dns_label_def)
  next
    case False
    then have eq: "dnsLabel s = out" by (simp add: dnsLabel_def out_def Let_def)
    show ?thesis using False chars ends [of out] by (auto simp: dns_label_def eq out_def)
  qed
qed

text \<open>The flag of the loop is determined by what the builder holds.\<close>

definition ends_dash :: "string \<Rightarrow> bool" where
  "ends_dash b \<longleftrightarrow> b \<noteq> [] \<and> last b = CHR ''-''"

lemma ends_dash_snoc [simp]: "ends_dash (b @ [c]) \<longleftrightarrow> c = CHR ''-''"
  by (simp add: ends_dash_def)

lemma label_loop_append:
  "label_loop (xs @ ys) b (ends_dash b) =
     label_loop ys (label_loop xs b (ends_dash b)) (ends_dash (label_loop xs b (ends_dash b)))"
proof (induction xs arbitrary: b)
  case (Cons r xs)
  show ?case
  proof (cases "label_rune r")
    case True
    then have "ends_dash (b @ [char_of r]) = False"
      using label_char_not_dash [OF label_char_of_rune] by simp
    with True Cons [of "b @ [char_of r]"] show ?thesis by simp
  next
    case False
    with Cons [of b] Cons [of "b @ ''-''"] show ?thesis by simp
  qed
qed simp

lemma label_loop_labels:
  "list_all label_rune rs \<Longrightarrow> label_loop rs b d = b @ map char_of rs"
  by (induction rs arbitrary: b d) auto

lemma prefix_label_loop: "prefix b (label_loop rs b d)"
proof (induction rs b d rule: label_loop.induct)
  case (2 r rs b d)
  then show ?case by (auto intro: append_prefixD)
qed auto

lemma length_label_loop: "length (label_loop rs b d) \<le> length b + length rs"
  by (induction rs b d rule: label_loop.induct) auto

text \<open>
  The shape of a job name that was not truncated: it ends with the time and the random
  suffix, so two runs of the same tag differ unless both agree.
\<close>

lemma digits_label: "c \<in> set (digits n) \<Longrightarrow> is_digit c"
  using digits_are_digits [of n] by (simp add: list_all_iff)

lemma label_char_ascii: "label_char c \<Longrightarrow> byte c < 128 \<and> ToLowerRune (byte c) = byte c \<and> label_rune (byte c)"
  by (auto simp: label_char_def is_digit_def ToLowerRune_def label_rune_def)

lemma label_text_runes:
  assumes "list_all label_char s"
  shows "map ToLowerRune (runes s) = map byte s" "list_all label_rune (map byte s)"
  using assms label_char_ascii
  by (auto simp: runes_ascii list_all_iff)

lemma runes_append_ascii:
  assumes "\<forall>c\<in>set a. byte c < 128" "\<forall>c\<in>set b. byte c < 128"
  shows "runes (a @ b) = map byte a @ map byte b"
  using assms by (subst runes_ascii) auto

lemma label_loop_dash:
  assumes "b \<noteq> []"
  shows "\<exists>b'. label_loop (45 # rs) b (ends_dash b) = label_loop rs (b' @ ''-'') True"
proof (cases "ends_dash b")
  case True
  then obtain b' where "b = b' @ ''-''"
    using assms by (cases b rule: rev_cases) (auto simp: ends_dash_def)
  with True show ?thesis by (auto simp: label_rune_def)
next
  case False
  then show ?thesis using assms by (auto simp: label_rune_def)
qed

lemma label_loop_tail:
  assumes "list_all label_char u" "b \<noteq> []"
  shows "\<exists>b'. label_loop (45 # map byte u) b (ends_dash b) = b' @ CHR ''-'' # u"
proof -
  obtain b' where "label_loop (45 # map byte u) b (ends_dash b) = label_loop (map byte u) (b' @ ''-'') True"
    using label_loop_dash assms(2) by blast
  then show ?thesis
    using label_loop_labels [OF label_text_runes(2) [OF assms(1)]] by (simp add: comp_def)
qed

lemma label_loop_tail2:
  assumes u: "list_all label_char u" "u \<noteq> []" and v: "list_all label_char v" and b: "b \<noteq> []"
  shows "\<exists>b'. label_loop (45 # map byte u @ 45 # map byte v) b (ends_dash b) = b' @ CHR ''-'' # u @ CHR ''-'' # v"
proof -
  obtain b' where eq: "label_loop (45 # map byte u) b (ends_dash b) = b' @ CHR ''-'' # u"
    using label_loop_tail [OF u(1) b] by blast
  have "last u \<noteq> CHR ''-''"
    using u label_char_not_dash by (auto simp: list_all_iff)
  then have nd: "ends_dash (b' @ CHR ''-'' # u) = False" using u(2) by (simp add: ends_dash_def)
  have "label_loop ((45 # map byte u) @ 45 # map byte v) b (ends_dash b) =
      label_loop (45 # map byte v) (b' @ CHR ''-'' # u) False"
    by (simp only: label_loop_append [of "45 # map byte u"] eq nd)
  then show ?thesis
    using label_loop_labels [OF label_text_runes(2) [OF v]] by (simp add: label_rune_def comp_def)
qed

lemma length_digits: "n < 10 ^ k \<Longrightarrow> 0 < k \<Longrightarrow> length (digits n) \<le> k"
proof (induction n arbitrary: k rule: digits.induct)
  case (1 n)
  show ?case
  proof (cases "n < 10")
    case True
    then show ?thesis using 1(3) by (subst digits.simps) simp
  next
    case False
    obtain j where k: "k = Suc j" using 1(3) by (cases k) auto
    have j: "0 < j" using 1(2) False k by (cases j) auto
    have "n div 10 < 10 ^ j" using 1(2) k by (simp add: less_mult_imp_div_less mult.commute)
    then have "length (digits (n div 10)) \<le> j" using 1(1) [OF False _ j] by blast
    then show ?thesis using False k by (subst digits.simps) simp
  qed
qed

definition valid_civil :: "civil_time \<Rightarrow> bool" where
  "valid_civil t \<longleftrightarrow> year t < 10000 \<and> month t < 100 \<and> day t < 100 \<and> hour t < 100
     \<and> minute t < 100 \<and> second t < 100"

lemma length_pad2: "n < 100 \<Longrightarrow> length (pad2 n) = 2"
proof -
  assume n: "n < 100"
  have "length (digits n) \<le> 2" using length_digits [of n 2] n by simp
  moreover have "2 \<le> length (digits n)" if "\<not> n < 10"
    using that by (subst digits.simps) (simp add: Suc_le_eq)
  moreover have "length (digits n) = 1" if "n < 10"
    using that by (subst digits.simps) simp
  ultimately show ?thesis by (auto simp: pad2_def)
qed

lemma length_pad4: "n < 10000 \<Longrightarrow> length (pad4 n) = 4"
  using length_digits [of n 4] by (simp add: pad4_def)

lemma length_format_time: "valid_civil t \<Longrightarrow> length (format_time t) = 15"
  by (simp add: valid_civil_def format_time_def length_pad2 length_pad4)

lemma length_randomSuffix: "length (randomSuffix rnd) = 4"
  by (auto simp: randomSuffix_def split: option.split)

lemma label_pad: "list_all label_char (pad2 n)" "list_all label_char (pad4 n)"
  using digits_label by (auto simp: pad2_def pad4_def label_char_def list_all_iff is_digit_def)

lemma label_randomSuffix: "list_all label_char (randomSuffix rnd)"
proof -
  have "label_char (alphabet ! i)" if "i < length alphabet" for i
  proof -
    have "list_all label_char alphabet" by (simp add: alphabet_def label_char_def is_digit_def)
    with that show ?thesis by (simp add: list_all_length)
  qed
  then show ?thesis
    by (auto simp: randomSuffix_def label_char_def is_digit_def alphabet_def split: option.split)
qed

lemma label_loop_word:
  "list_all label_char u \<Longrightarrow> label_loop (map byte u @ ys) b False = label_loop ys (b @ u) False"
  by (induction u arbitrary: b) (auto simp: label_char_ascii)

text \<open>A string whose loop result starts like a word and ends in a label is not trimmed.\<close>

lemma dnsLabel_untrimmed:
  assumes "b = label_loop (map ToLowerRune (runes s)) '''' False"
    and "b \<noteq> ''''" "hd b \<noteq> CHR ''-''" "last b \<noteq> CHR ''-''" "length b \<le> 63"
  shows "dnsLabel s = b"
  using assms by (simp add: dnsLabel_def Trim_id)

lemma label_loop_tail3:
  assumes "list_all label_char d" "d \<noteq> []" "list_all label_char h" "h \<noteq> []" "list_all label_char r" "b \<noteq> []"
  shows "\<exists>b'. label_loop (45 # map byte d @ 45 # map byte h @ 45 # map byte r) b (ends_dash b)
    = b' @ CHR ''-'' # d @ CHR ''-'' # h @ CHR ''-'' # r"
proof -
  obtain b' where B: "label_loop (45 # map byte d @ 45 # map byte h) b (ends_dash b) = b' @ CHR ''-'' # d @ CHR ''-'' # h"
    using label_loop_tail2 [OF assms(1-3,6)] by blast
  have "ends_dash (b' @ CHR ''-'' # d @ CHR ''-'' # h) = False"
    using assms(3,4) label_char_not_dash by (auto simp: ends_dash_def list_all_iff)
  then have "label_loop (45 # map byte d @ 45 # map byte h @ 45 # map byte r) b (ends_dash b)
      = label_loop (45 # map byte r) (b' @ CHR ''-'' # d @ CHR ''-'' # h) False"
    using label_loop_append [of "45 # map byte d @ 45 # map byte h" "45 # map byte r" b] B
    by (simp only: append_Cons append_assoc)
  then show ?thesis
    using label_loop_labels [OF label_text_runes(2) [OF assms(5)]] by (simp add: label_rune_def comp_def)
qed

lemma NewJobName_untruncated:
  assumes t: "valid_civil now" and ascii: "\<forall>c\<in>set repo \<union> set tag. byte c < 128"
    and len: "length (ImageBase repo) + length tag \<le> 35"
  shows "\<exists>p. NewJobName now rnd repo tag = p @ ''-'' @ format_time now @ ''-'' @ randomSuffix rnd"
proof -
  define pre where "pre = ''build-'' @ ImageBase repo @ ''-'' @ tag"
  define d where "d = pad4 (year now) @ pad2 (month now) @ pad2 (day now)"
  define h where "h = pad2 (hour now) @ pad2 (minute now) @ pad2 (second now)"
  define r where "r = randomSuffix rnd"
  define rs where "rs = map ToLowerRune (map byte pre)"
  define b where "b = label_loop rs '''' False"
  have lab: "list_all label_char d" "list_all label_char h" "d \<noteq> []" "h \<noteq> []" "list_all label_char r"
    using label_pad label_randomSuffix by (auto simp: d_def h_def r_def pad2_def)
  have base: "set (ImageBase repo) \<subseteq> set repo"
    by (auto simp: ImageBase_def Let_def dest: in_set_dropD)
  have lr: "map ToLowerRune (map byte u) = map byte u" "\<forall>c\<in>set u. byte c < 128"
    if "list_all label_char u" for u
    using that label_char_ascii by (auto simp: list_all_iff)
  let ?s = "pre @ ''-'' @ d @ ''-'' @ h @ ''-'' @ r"
  have "\<forall>c\<in>set ?s. byte c < 128"
    using ascii base lr(2) [OF lab(1)] lr(2) [OF lab(2)] lr(2) [OF lab(5)] by (auto simp: pre_def)
  then have "map ToLowerRune (runes ?s) = map ToLowerRune (map byte ?s)" by (simp only: runes_ascii)
  also have "\<dots> = rs @ 45 # map byte d @ 45 # map byte h @ 45 # map byte r"
    using lr(1) [OF lab(1)] lr(1) [OF lab(2)] lr(1) [OF lab(5)]
    by (simp add: rs_def ToLowerRune_def)
  finally have runes_eq: "map ToLowerRune (runes ?s) =
      rs @ 45 # map byte d @ 45 # map byte h @ 45 # map byte r" .
  define L where "L = label_loop (map ToLowerRune (runes ?s)) '''' False"
  have rs_build: "rs = map byte ''build'' @ map ToLowerRune (map byte (drop 5 pre))"
    by (simp add: rs_def pre_def ToLowerRune_def)
  then have "b = label_loop (map ToLowerRune (map byte (drop 5 pre))) ''build'' False"
    using label_loop_word [of "''build''" "map ToLowerRune (map byte (drop 5 pre))" "[]"]
    by (simp only: b_def append_Nil) (simp add: label_char_def is_digit_def)
  then have "prefix ''build'' b" using prefix_label_loop by simp
  then have b: "b \<noteq> []" "hd b = CHR ''b''" by (auto elim: prefixE)
  have nil: "ends_dash [] = False" by (simp add: ends_dash_def)
  have split: "L = label_loop (45 # map byte d @ 45 # map byte h @ 45 # map byte r) b (ends_dash b)"
    unfolding L_def runes_eq b_def using label_loop_append [of rs _ "[]"] nil by metis
  obtain b' where L: "L = b' @ CHR ''-'' # d @ CHR ''-'' # h @ CHR ''-'' # r"
    using label_loop_tail3 [OF lab(1,3,2,4,5) b(1)] split by blast
  have "r \<noteq> []" using length_randomSuffix [of rnd] by (auto simp: r_def)
  then have last: "last L \<noteq> CHR ''-''" using L lab(5) label_char_not_dash by (auto simp: list_all_iff)
  have "prefix b L" unfolding split by (rule prefix_label_loop)
  then have hd: "hd L = CHR ''b''" using b by (auto elim: prefixE)
  have "length L \<le> length (map ToLowerRune (runes ?s))"
    unfolding L_def by (rule order_trans [OF length_label_loop]) simp
  also have "\<dots> = length pre + length d + length h + length r + 3"
    unfolding runes_eq by (simp add: rs_def)
  also have "\<dots> \<le> 63"
    using len length_format_time [OF t] length_randomSuffix [of rnd]
    by (simp add: pre_def d_def h_def r_def format_time_def)
  finally have "dnsLabel ?s = L"
    by (intro dnsLabel_untrimmed) (use L hd last in \<open>auto simp: L_def\<close>)
  moreover have "NewJobName now rnd repo tag = dnsLabel ?s"
    by (simp add: NewJobName_def pre_def d_def h_def r_def format_time_def)
  ultimately have "NewJobName now rnd repo tag = b' @ ''-'' @ format_time now @ ''-'' @ randomSuffix rnd"
    using L by (simp add: d_def h_def r_def format_time_def)
  then show ?thesis by blast
qed

section \<open>Properties\<close>

text \<open>C31: what a manifest becomes. A Job is only rendered from parameters that name the Job, the
  repository, the ref, the tag, the image and a positive epoch; its text, which is what the YAML
  decoder gets, carries no placeholder any more; and a manifest written in the template dialect
  became that text line by line, each of the fourteen placeholders replaced by its own value and
  nothing else changed, without the lines for a node selector when there is none. The Job gets
  the default namespace when the manifest names none.\<close>

theorem RenderJob_no_token:
  assumes "RenderJob yamlJob raw p = Inr job"
  shows "\<exists>rendered j. yamlJob rendered = Inr j \<and> (\<forall>t. sublist t rendered \<longrightarrow> \<not> is_token t)
     \<and> (\<forall>ls. raw = template_text ls \<and> list_all (list_all plain_piece) ls \<longrightarrow> rendered = template_value p ls)
     \<and> job = (if JobNamespace j = '''' then j\<lparr>JobNamespace := ''build''\<rparr> else j)
     \<and> RpJobName p \<noteq> '''' \<and> RpRepoURL p \<noteq> '''' \<and> RpRef p \<noteq> '''' \<and> RpTag p \<noteq> ''''
     \<and> RpImage p \<noteq> '''' \<and> 0 < RpSourceDateEpoch p"
proof -
  obtain rendered j where "yamlJob rendered = Inr j"
    and "job = (if JobNamespace j = [] then j\<lparr>JobNamespace := DefaultBuildNamespace\<rparr> else j)"
    and "\<forall>t. sublist t rendered \<longrightarrow> \<not> is_token t" and v: "RenderParams_validate p = None"
    and "rendered = Replace (replacements p) (if RpNodeSelector p = '''' then drop_selector_lines raw else raw)"
    by (rule RenderJob_ok [OF assms])
  then show ?thesis
    using v [unfolded RenderParams_validate_None] rendered_template unfolding DefaultBuildNamespace_def by blast
qed

text \<open>The input: a manifest of four lines, the last of which is for a node selector, and no node selector.\<close>

definition demo_lines :: "piece list list" where
  "demo_lines = [[Words ''name: '', Slot JobNameSlot], [Words ''image: '', Slot ImageSlot, Words '':'', Slot TagSlot],
     [Words ''push: '', Slot PushSlot], [Words ''host: '', Slot NodeSelectorSlot]]"

definition demo_params :: RenderParams where
  "demo_params = \<lparr>RpJobName = ''build-kv'', RpRepoURL = ''u'', RpRef = ''r'', RpTag = ''v1'', RpDockerfile = '''',
    RpImage = ''ghcr.io/kv'', RpPush = True, RpPushSecret = ''s'', RpDeadlineSeconds = 1, RpSourceDateEpoch = 1,
    RpServicePath = '''', RpContextPath = '''', RpDockerfilePath = '''', RpNodeSelector = ''''\<rparr>"

definition demo_yaml :: "string \<Rightarrow> Job res" where
  "demo_yaml text = Inr \<lparr>JobName = ''j'', JobNamespace = '''', ContainerImages = [], JobRest = text\<rparr>"

lemma FindAllTokens_plain: "CHR ''_'' \<notin> set s \<Longrightarrow> FindAllTokens s = []"
  by (induction s) (auto simp: match_token_def underscores_def)

lemma demo_template: "template_value demo_params demo_lines
    = ''name: build-kv'' @ [CHR 0x0A] @ ''image: ghcr.io/kv:v1'' @ [CHR 0x0A] @ ''push: true'' @ [CHR 0x0A]"
  by (simp add: template_value_def demo_lines_def demo_params_def sublist_Cons_right)

theorem RenderJob_no_token_witness:
  "RenderJob demo_yaml (template_text demo_lines) demo_params = Inr \<lparr>JobName = ''j'', JobNamespace = ''build'',
     ContainerImages = [], JobRest = ''name: build-kv'' @ [CHR 0x0A] @ ''image: ghcr.io/kv:v1'' @ [CHR 0x0A]
       @ ''push: true'' @ [CHR 0x0A]\<rparr>"
proof -
  have plain: "list_all (list_all plain_piece) demo_lines" by (simp add: demo_lines_def)
  have "RenderParams_validate demo_params = None" by (simp add: RenderParams_validate_None demo_params_def)
  moreover have "FindAllTokens (template_value demo_params demo_lines) = []"
    by (rule FindAllTokens_plain) (simp add: demo_template)
  ultimately obtain job where job: "RenderJob demo_yaml (template_text demo_lines) demo_params = Inr job"
    using rendered_template [OF plain, of demo_params] by (simp add: RenderJob_def Let_def demo_yaml_def)
  obtain rendered j where "demo_yaml rendered = Inr j" "rendered = template_value demo_params demo_lines"
    "job = (if JobNamespace j = '''' then j\<lparr>JobNamespace := ''build''\<rparr> else j)"
    using RenderJob_no_token [OF job] plain by blast
  then show ?thesis unfolding job by (auto simp: demo_yaml_def demo_template)
qed

text \<open>C32: whatever repository and tag, the Job's name is empty or a DNS-1123 label: at most
  63 characters, lower-case letters, digits and inner dashes only. Its reduction function
  has this range on every string.\<close>

theorem dnsLabel_range:
  "length (dnsLabel s) \<le> 63 \<and> list_all (\<lambda>c. label_char c \<or> c = CHR ''-'') (dnsLabel s)
   \<and> (dnsLabel s = [] \<or> (hd (dnsLabel s) \<noteq> CHR ''-'' \<and> last (dnsLabel s) \<noteq> CHR ''-''))"
  using dnsLabel_is_label [of s] by (auto simp: dns_label_def list_all_iff)

text \<open>C33: two dispatches of the same tag get different Job names unless they agree in the
  second and in the random suffix, for every repository and tag (in ASCII) whose lengths
  leave room for both, that is at most 35 characters for the image base and the tag.\<close>

theorem NewJobName_unique:
  assumes "valid_civil now" "valid_civil now'" "\<forall>c\<in>set repo \<union> set tag. byte c < 128"
    and "length (ImageBase repo) + length tag \<le> 35"
    and eq: "NewJobName now rnd repo tag = NewJobName now' rnd' repo tag"
  shows "format_time now = format_time now' \<and> randomSuffix rnd = randomSuffix rnd'"
proof -
  obtain p where p: "NewJobName now rnd repo tag = p @ ''-'' @ format_time now @ ''-'' @ randomSuffix rnd"
    using NewJobName_untruncated assms by blast
  obtain q where q: "NewJobName now' rnd' repo tag = q @ ''-'' @ format_time now' @ ''-'' @ randomSuffix rnd'"
    using NewJobName_untruncated assms by blast
  have l: "length (format_time now) = length (format_time now')"
    "length (randomSuffix rnd) = length (randomSuffix rnd')"
    using assms(1,2) by (simp_all add: length_format_time length_randomSuffix)
  have "(p @ ''-'') @ format_time now @ (''-'' @ randomSuffix rnd) =
      (q @ ''-'') @ format_time now' @ (''-'' @ randomSuffix rnd')"
    using eq p q by simp
  then show ?thesis
    using l by (metis append_eq_append_conv append_same_eq length_append)
qed

definition demo_time :: "nat \<Rightarrow> civil_time" where
  "demo_time sec = \<lparr>year = 2026, month = 11, day = 18, hour = 22, minute = 0, second = sec\<rparr>"

theorem NewJobName_unique_witness:
  "NewJobName (demo_time 1) None ''bborbe/kv'' ''v1.0.0'' \<noteq> NewJobName (demo_time 2) None ''bborbe/kv'' ''v1.0.0''"
proof
  assume eq: "NewJobName (demo_time 1) None ''bborbe/kv'' ''v1.0.0'' = NewJobName (demo_time 2) None ''bborbe/kv'' ''v1.0.0''"
  have "format_time (demo_time 1) = format_time (demo_time 2)"
    using NewJobName_unique [OF _ _ _ _ eq]
    by (simp add: valid_civil_def demo_time_def ImageBase_def LastIndex_def)
  then show False
    by (simp add: format_time_def demo_time_def pad2_def digits.simps digit_char_def)
qed

lemma TrimRight_prefix:
  assumes "prefix p s" "p \<noteq> []" "last p \<notin> set cs"
  shows "prefix p (TrimRight s cs)"
proof -
  obtain t where t: "s = TrimRight s cs @ t" "set t \<subseteq> set cs" using TrimRight_split by blast
  have "prefix (TrimRight s cs) s" using t(1) by (metis prefixI)
  then have "prefix p (TrimRight s cs) \<or> strict_prefix (TrimRight s cs) p"
    using assms(1) prefix_same_cases by (auto simp: strict_prefix_def)
  moreover have False if "strict_prefix (TrimRight s cs) p"
  proof -
    obtain u where u: "p = TrimRight s cs @ u" "u \<noteq> []"
      using \<open>strict_prefix (TrimRight s cs) p\<close> by (metis append_Nil2 prefixE strict_prefix_def)
    obtain v where "s = p @ v" using assms(1) by (auto elim: prefixE)
    then have "t = u @ v" using t(1) u(1) by (metis append.assoc same_append_eq)
    then have "last p \<in> set cs" using t(2) u by auto
    with assms(3) show False by simp
  qed
  ultimately show ?thesis by blast
qed

lemma label_loop_word_any:
  "list_all label_char u \<Longrightarrow> u \<noteq> [] \<Longrightarrow> label_loop (map byte u @ ys) b d = label_loop ys (b @ u) False"
proof (cases u)
  case (Cons c cs)
  assume "list_all label_char u" "u \<noteq> []"
  then show ?thesis using Cons label_loop_word [of cs ys "b @ [c]"] by (simp add: label_char_ascii)
qed simp

lemma Trim_prefix_letter: "prefix ''b'' s \<Longrightarrow> prefix ''b'' (Trim s ''-'')"
proof -
  assume p: "prefix ''b'' s"
  then have "Trim s ''-'' = TrimRight s ''-''" by (auto simp: Trim_def elim!: prefixE)
  with TrimRight_prefix [OF p] show ?thesis by simp
qed

lemma NewJobName_nonempty: "NewJobName now rnd repo tag \<noteq> []"
proof -
  have "dnsLabel (CHR ''b'' # x) \<noteq> []" for x
  proof -
    let ?L = "label_loop (map ToLowerRune (runes (CHR ''b'' # x))) [] False"
    have "runes (CHR ''b'' # x) = 98 # runes x" by (simp add: runes_def DecodeRune_def)
    moreover have "char_of (98 :: nat) = CHR ''b''" using char_of_char [of "CHR ''b''"] by simp
    ultimately have "?L = label_loop (map ToLowerRune (runes x)) ''b'' False"
      by (simp add: ToLowerRune_def label_rune_def)
    then have "prefix ''b'' ?L" by (simp add: prefix_label_loop)
    note p = Trim_prefix_letter [OF this]
    have "prefix ''b'' (take 63 (Trim ?L ''-''))" using p by (auto elim!: prefixE)
    from Trim_prefix_letter [OF this] p have "prefix ''b'' (dnsLabel (CHR ''b'' # x))"
      unfolding dnsLabel_def Let_def by simp
    then show ?thesis by (cases "dnsLabel (CHR ''b'' # x)") simp_all
  qed
  then show ?thesis by (simp add: NewJobName_def)
qed

text \<open>The label of a long name: whatever ASCII text follows is cut off.\<close>

lemma dnsLabel_truncated:
  assumes base: "list_all label_char (ImageBase repo)" "ImageBase repo \<noteq> []"
    and tag: "list_all label_char tag" "tag \<noteq> []"
    and len: "56 \<le> length (ImageBase repo) + length tag"
    and p_def: "p = ''build-'' @ ImageBase repo @ ''-'' @ tag" and x: "\<forall>c\<in>set x. byte c < 128"
  shows "dnsLabel (p @ ''-'' @ x) = Trim (take 63 p) ''-''"
proof -
  let ?ys = "map ToLowerRune (map byte (''-'' @ x))"
  define L where "L = label_loop (map ToLowerRune (runes (p @ ''-'' @ x))) [] False"
  have asc: "\<forall>c\<in>set p. byte c < 128"
    using base(1) tag(1) label_char_ascii by (auto simp: p_def list_all_iff)
  have low: "map ToLowerRune (map byte u) = map byte u" if "list_all label_char u" for u
    using that label_char_ascii by (auto simp: list_all_iff)
  have "map ToLowerRune (runes (p @ ''-'' @ x)) = map ToLowerRune (map byte p) @ ?ys"
    using asc x by (subst runes_ascii) auto
  also have "map ToLowerRune (map byte p) =
      map byte ''build'' @ 45 # map byte (ImageBase repo) @ 45 # map byte tag"
    using low [OF base(1)] low [OF tag(1)] by (simp add: p_def ToLowerRune_def)
  finally have runes_eq: "map ToLowerRune (runes (p @ ''-'' @ x)) =
      map byte ''build'' @ (45 # map byte (ImageBase repo) @ 45 # map byte tag @ ?ys)" by simp
  have "list_all label_char ''build''" by (simp add: label_char_def is_digit_def)
  note w = label_loop_word [OF this, of _ "[]"]
  have "L = label_loop (45 # map byte (ImageBase repo) @ 45 # map byte tag @ ?ys) ''build'' False"
    unfolding L_def runes_eq by (simp only: w append_Nil)
  also have "\<dots> = label_loop (45 # map byte tag @ ?ys) (''build-'' @ ImageBase repo) False"
    using label_loop_word_any [OF base, of _ "''build-''"] by (simp add: label_rune_def)
  also have "\<dots> = label_loop ?ys p False"
    using label_loop_word_any [OF tag, of ?ys "''build-'' @ ImageBase repo @ ''-''" True]
    by (simp add: label_rune_def p_def)
  finally have L: "L = label_loop ?ys p False" .
  have pL: "prefix p L" unfolding L by (rule prefix_label_loop)
  have lastp: "p \<noteq> []" "last p \<notin> set ''-''"
    using tag label_char_not_dash by (auto simp: p_def list_all_iff)
  have hdL: "L \<noteq> [] \<and> hd L = CHR ''b''"
    using pL by (auto simp: p_def elim!: prefixE)
  then have tl: "Trim L ''-'' = TrimRight L ''-''" by (cases L) (auto simp: Trim_def)
  have out: "prefix p (Trim L ''-'')"
    unfolding tl by (rule TrimRight_prefix [OF pL lastp])
  have "63 \<le> length p" using len by (simp add: p_def)
  then have tk: "take 63 (Trim L ''-'') = take 63 p" using out by (auto elim!: prefixE)
  show ?thesis
  proof (cases "63 < length (Trim L ''-'')")
    case True
    then show ?thesis using tk unfolding dnsLabel_def L_def [symmetric] Let_def by simp
  next
    case False
    obtain zs where zs: "Trim L ''-'' = p @ zs" using out by (rule prefixE)
    have "length zs = 0" using False \<open>63 \<le> length p\<close> unfolding zs length_append by linarith
    then have "Trim L ''-'' = p" by (simp add: zs)
    moreover have "Trim p ''-'' = p" using lastp by (intro Trim_id) (simp add: p_def)
    moreover have "take 63 p = p" using tk False calculation by simp
    ultimately show ?thesis using False unfolding dnsLabel_def L_def [symmetric] Let_def by simp
  qed
qed

text \<open>C34: the limit of that uniqueness: when image base and tag (lower-case letters and
  digits) together have 56 characters or more, the name is cut before the time and the random
  suffix, so every dispatch of the tag gets one and the same Job name.\<close>

theorem NewJobName_truncated:
  assumes base: "list_all label_char (ImageBase repo)" "ImageBase repo \<noteq> []"
    and tag: "list_all label_char tag" "tag \<noteq> []"
    and len: "56 \<le> length (ImageBase repo) + length tag"
  shows "NewJobName now rnd repo tag = NewJobName now' rnd' repo tag"
proof -
  have "\<forall>c\<in>set (format_time t @ ''-'' @ randomSuffix r). byte c < 128" for t r
    using label_pad label_randomSuffix label_char_ascii
    by (fastforce simp: format_time_def list_all_iff)
  from dnsLabel_truncated [OF assms refl this] show ?thesis by (simp add: NewJobName_def)
qed

theorem NewJobName_truncated_witness:
  "NewJobName (demo_time 1) None (replicate 40 CHR ''a'') (replicate 20 CHR ''1'')
     = NewJobName (demo_time 2) None (replicate 40 CHR ''a'') (replicate 20 CHR ''1'')"
proof -
  have "ImageBase (replicate 40 CHR ''a'') = replicate 40 CHR ''a''"
    by (simp add: ImageBase_def LastIndex_none)
  then show ?thesis
    by (intro NewJobName_truncated) (simp_all add: label_char_def is_digit_def list_all_iff)
qed

end
