(* ===== verification/Json.thy ===== *)
theory Json
  imports Go_Strings
begin

text \<open>
  The part of Go's \<open>encoding/json\<close> the repository relies on: the compact encoder with HTML
  escaping (\<open>json.Marshal\<close>), the parser (\<open>json.Unmarshal\<close>'s syntax phase, with its nesting
  limit of 10000, its unquoting of escapes and surrogate pairs and its replacement of invalid
  UTF-8), and the matching of object keys to struct fields (exact name first, then the folded
  name). The typed decoding of a particular struct is in the theory of the component that has
  the struct. The main lemma is the round trip \<open>json_parse (json_print v) = Some (json_clean v)\<close>.
\<close>

datatype json =
    JNull
  | JBool bool
  | JNum string
  | JStr string
  | JArr "json list"
  | JObj "(string \<times> json) list"

section \<open>Strings\<close>

definition ufffd :: string where
  "ufffd = [CHR 0xEF, CHR 0xBF, CHR 0xBD]"

definition hex_val :: "char \<Rightarrow> nat option" where
  "hex_val c = (let b = byte c in
     if 48 \<le> b \<and> b \<le> 57 then Some (b - 48)
     else if 97 \<le> b \<and> b \<le> 102 then Some (b - 87)
     else if 65 \<le> b \<and> b \<le> 70 then Some (b - 55)
     else None)"

definition hex_char :: "nat \<Rightarrow> char" where
  "hex_char d = (if d < 10 then char_of (48 + d) else char_of (87 + d))"

definition hex4 :: "string \<Rightarrow> nat option" where
  "hex4 s = (case s of a # b # c # d # _ \<Rightarrow>
       (case (hex_val a, hex_val b, hex_val c, hex_val d) of
          (Some w, Some x, Some y, Some z) \<Rightarrow> Some (w * 4096 + x * 256 + y * 16 + z)
        | _ \<Rightarrow> None)
     | _ \<Rightarrow> None)"

text \<open>\<open>utf8.AppendRune\<close>: a surrogate or an out-of-range value becomes U+FFFD.\<close>

definition EncodeRune :: "nat \<Rightarrow> string" where
  "EncodeRune r =
     (if r < 128 then [char_of r]
      else if r < 2048 then [char_of (192 + r div 64), char_of (128 + r mod 64)]
      else if 55296 \<le> r \<and> r \<le> 57343 then ufffd
      else if r < 65536 then
        [char_of (224 + r div 4096), char_of (128 + r div 64 mod 64), char_of (128 + r mod 64)]
      else if r < 1114112 then
        [char_of (240 + r div 262144), char_of (128 + r div 4096 mod 64),
         char_of (128 + r div 64 mod 64), char_of (128 + r mod 64)]
      else ufffd)"

definition escape_char :: "char \<Rightarrow> char option" where
  "escape_char e =
     (if e = CHR 0x22 \<or> e = CHR 0x5C \<or> e = CHR ''/'' then Some e
      else if e = CHR ''b'' then Some (CHR 0x08)
      else if e = CHR ''f'' then Some (CHR 0x0C)
      else if e = CHR ''n'' then Some (CHR 0x0A)
      else if e = CHR ''r'' then Some (CHR 0x0D)
      else if e = CHR ''t'' then Some (CHR 0x09)
      else None)"

definition is_surrogate :: "nat \<Rightarrow> bool" where
  "is_surrogate u \<longleftrightarrow> 55296 \<le> u \<and> u < 57344"

text \<open>A low surrogate escape directly after a high one: the pair's code point.\<close>

definition surrogate_pair :: "nat \<Rightarrow> string \<Rightarrow> nat option" where
  "surrogate_pair u s = (case s of bs # v # ds \<Rightarrow>
       (if bs = CHR 0x5C \<and> v = CHR ''u'' then
          (case hex4 ds of
             Some u2 \<Rightarrow> if 55296 \<le> u \<and> u < 56320 \<and> 56320 \<le> u2 \<and> u2 < 57344
                        then Some ((u - 55296) * 1024 + (u2 - 56320) + 65536) else None
           | None \<Rightarrow> None)
        else None)
     | _ \<Rightarrow> None)"

abbreviation prepend :: "string \<Rightarrow> (string \<times> string) option \<Rightarrow> (string \<times> string) option" where
  "prepend p \<equiv> map_option (\<lambda>(s, r). (p @ s, r))"

text \<open>The rest of a string literal, after its opening quote: the value and what follows.\<close>

fun str_body :: "string \<Rightarrow> (string \<times> string) option" where
  "str_body [] = None"
| "str_body (c # cs) =
     (if c = CHR 0x22 then Some ([], cs)
      else if c = CHR 0x5C then
        (case cs of [] \<Rightarrow> None
         | e # es \<Rightarrow>
            (if e = CHR ''u'' then
               (case hex4 es of
                  None \<Rightarrow> None
                | Some u \<Rightarrow>
                    (if is_surrogate u then
                       (case surrogate_pair u (drop 4 es) of
                          Some r \<Rightarrow> prepend (EncodeRune r) (str_body (drop 10 es))
                        | None \<Rightarrow> prepend ufffd (str_body (drop 4 es)))
                     else prepend (EncodeRune u) (str_body (drop 4 es))))
             else (case escape_char e of
                     None \<Rightarrow> None
                   | Some b \<Rightarrow> prepend [b] (str_body es))))
      else if byte c < 32 then None
      else if byte c < 128 then prepend [c] (str_body cs)
      else (let n = snd (DecodeRune (c # cs)) in
              prepend (if n = 1 then ufffd else c # take (n - 1) cs) (str_body (drop (n - 1) cs))))"

text \<open>
  The encoder's form of one rune: \<open>n\<close> is the decoded width (an invalid byte has width one
  and a byte value of 128 or more).
\<close>

definition html_safe :: "char \<Rightarrow> bool" where
  "html_safe c \<longleftrightarrow> 32 \<le> byte c \<and> byte c < 128 \<and> c \<notin> {CHR 0x22, CHR 0x5C, CHR ''&'', CHR ''<'', CHR ''>''}"

definition u_escape :: "nat \<Rightarrow> string" where
  "u_escape n = CHR 0x5C # CHR ''u'' #
     [hex_char (n div 4096 mod 16), hex_char (n div 256 mod 16), hex_char (n div 16 mod 16), hex_char (n mod 16)]"

definition escape_ascii :: "char \<Rightarrow> string" where
  "escape_ascii c =
     (if html_safe c then [c]
      else if c = CHR 0x22 \<or> c = CHR 0x5C then [CHR 0x5C, c]
      else if c = CHR 0x08 then [CHR 0x5C, CHR ''b'']
      else if c = CHR 0x0C then [CHR 0x5C, CHR ''f'']
      else if c = CHR 0x0A then [CHR 0x5C, CHR ''n'']
      else if c = CHR 0x0D then [CHR 0x5C, CHR ''r'']
      else if c = CHR 0x09 then [CHR 0x5C, CHR ''t'']
      else u_escape (byte c))"

definition escape_chunk :: "nat \<times> string \<Rightarrow> string" where
  "escape_chunk p = (case p of (r, bs) \<Rightarrow>
     (case bs of
        [c] \<Rightarrow> if byte c < 128 then escape_ascii c else u_escape RuneError
      | _ \<Rightarrow> if r = 8232 \<or> r = 8233 then u_escape r else bs))"

definition quote :: "string \<Rightarrow> string" where
  "quote s = CHR 0x22 # concat (map escape_chunk (chunks s)) @ [CHR 0x22]"

section \<open>Values\<close>

definition is_ws :: "char \<Rightarrow> bool" where
  "is_ws c \<longleftrightarrow> c = CHR '' '' \<or> c = CHR 0x09 \<or> c = CHR 0x0A \<or> c = CHR 0x0D"

definition skip_ws :: "string \<Rightarrow> string" where
  "skip_ws s = dropWhile is_ws s"

text \<open>A JSON number literal: sign, integer part, fraction, exponent.\<close>

definition num_frac :: "string \<Rightarrow> (string \<times> string) option" where
  "num_frac s = (case s of
       c # ds \<Rightarrow> if c = CHR ''.'' then
           (if takeWhile is_digit ds = [] then None
            else Some (c # takeWhile is_digit ds, dropWhile is_digit ds))
         else Some ([], s)
     | [] \<Rightarrow> Some ([], s))"

definition num_exp :: "string \<Rightarrow> (string \<times> string) option" where
  "num_exp s = (case s of
       c # t \<Rightarrow> if c = CHR ''e'' \<or> c = CHR ''E'' then
           (let (sg, ds) = (case t of x # xs \<Rightarrow> if x = CHR ''+'' \<or> x = CHR ''-'' then ([x], xs) else ([], t)
                             | [] \<Rightarrow> ([], t))
            in if takeWhile is_digit ds = [] then None
               else Some (c # sg @ takeWhile is_digit ds, dropWhile is_digit ds))
         else Some ([], s)
     | [] \<Rightarrow> Some ([], s))"

definition num_lit :: "string \<Rightarrow> (string \<times> string) option" where
  "num_lit s =
     (let (sg, t) = (case s of c # cs \<Rightarrow> if c = CHR ''-'' then ([c], cs) else ([], s) | [] \<Rightarrow> ([], s));
          ip = (case t of c # cs \<Rightarrow> if c = CHR ''0'' then [c] else takeWhile is_digit t | [] \<Rightarrow> [])
      in if ip = [] then None
         else (case num_frac (drop (length ip) t) of
                 None \<Rightarrow> None
               | Some (fr, t2) \<Rightarrow>
                   (case num_exp t2 of
                      None \<Rightarrow> None
                    | Some (ex, t3) \<Rightarrow> Some (sg @ ip @ fr @ ex, t3))))"

text \<open>
  The parser. The first argument is fuel (\<open>json_parse\<close> gives two units per byte, and every
  second call consumes a byte), the second the nesting that is still allowed.
\<close>

fun p_val :: "nat \<Rightarrow> nat \<Rightarrow> string \<Rightarrow> (json \<times> string) option"
  and p_elems :: "nat \<Rightarrow> nat \<Rightarrow> string \<Rightarrow> (json list \<times> string) option"
  and p_members :: "nat \<Rightarrow> nat \<Rightarrow> string \<Rightarrow> ((string \<times> json) list \<times> string) option" where
  "p_val 0 d s = None"
| "p_val (Suc f) d s =
     (case skip_ws s of [] \<Rightarrow> None
      | c # cs \<Rightarrow>
         (if c = CHR ''{'' then
            (if d = 0 then None
             else (case skip_ws cs of [] \<Rightarrow> None
                   | x # r \<Rightarrow> if x = CHR ''}'' then Some (JObj [], r)
                             else map_option (\<lambda>(ms, r). (JObj ms, r)) (p_members f (d - 1) cs)))
          else if c = CHR ''['' then
            (if d = 0 then None
             else (case skip_ws cs of [] \<Rightarrow> None
                   | x # r \<Rightarrow> if x = CHR '']'' then Some (JArr [], r)
                             else map_option (\<lambda>(vs, r). (JArr vs, r)) (p_elems f (d - 1) cs)))
          else if c = CHR 0x22 then map_option (\<lambda>(s, r). (JStr s, r)) (str_body cs)
          else if HasPrefix (c # cs) ''null'' then Some (JNull, drop 3 cs)
          else if HasPrefix (c # cs) ''true'' then Some (JBool True, drop 3 cs)
          else if HasPrefix (c # cs) ''false'' then Some (JBool False, drop 4 cs)
          else map_option (\<lambda>(s, r). (JNum s, r)) (num_lit (c # cs))))"
| "p_elems 0 d s = None"
| "p_elems (Suc f) d s =
     (case p_val f d s of None \<Rightarrow> None
      | Some (v, r) \<Rightarrow>
         (case skip_ws r of [] \<Rightarrow> None
          | c # cs \<Rightarrow>
             (if c = CHR '','' then map_option (\<lambda>(vs, r). (v # vs, r)) (p_elems f d cs)
              else if c = CHR '']'' then Some ([v], cs)
              else None)))"
| "p_members 0 d s = None"
| "p_members (Suc f) d s =
     (case skip_ws s of [] \<Rightarrow> None
      | q # qs \<Rightarrow>
         (if q \<noteq> CHR 0x22 then None
          else (case str_body qs of None \<Rightarrow> None
                | Some (k, r) \<Rightarrow>
                   (case skip_ws r of [] \<Rightarrow> None
                    | x # r1 \<Rightarrow>
                       (if x \<noteq> CHR '':'' then None
                        else (case p_val f d r1 of None \<Rightarrow> None
                              | Some (v, r2) \<Rightarrow>
                                 (case skip_ws r2 of [] \<Rightarrow> None
                                  | c # cs \<Rightarrow>
                                     (if c = CHR '','' then
                                        map_option (\<lambda>(ms, r). ((k, v) # ms, r)) (p_members f d cs)
                                      else if c = CHR ''}'' then Some ([(k, v)], cs)
                                      else None))))))))"

definition max_depth :: nat where
  "max_depth = 10000"

definition json_parse :: "string \<Rightarrow> json option" where
  "json_parse s = (case p_val (2 * length s + 2) max_depth s of
      None \<Rightarrow> None
    | Some (v, r) \<Rightarrow> if skip_ws r = [] then Some v else None)"

fun json_print :: "json \<Rightarrow> string" where
  "json_print JNull = ''null''"
| "json_print (JBool b) = (if b then ''true'' else ''false'')"
| "json_print (JNum s) = s"
| "json_print (JStr s) = quote s"
| "json_print (JArr vs) = CHR ''['' # Join (map json_print vs) '','' @ '']''"
| "json_print (JObj ms) =
     CHR ''{'' # Join (map (\<lambda>(k, v). quote k @ CHR '':'' # json_print v) ms) '','' @ ''}''"

section \<open>Struct fields\<close>

text \<open>
  \<open>foldName\<close>: ASCII letters in lower case, and the two runes outside ASCII that fold to an
  ASCII letter (long s, Kelvin sign). Other runes never match a field name of this repository
  (all are ASCII), so they are left as they are.
\<close>

definition fold_rune :: "nat \<Rightarrow> nat" where
  "fold_rune r = (if 65 \<le> r \<and> r \<le> 90 then r + 32
                  else if r = 383 then 115 else if r = 8490 then 107 else r)"

definition fold_name :: "string \<Rightarrow> nat list" where
  "fold_name s = map fold_rune (runes s)"

text \<open>The struct field an object key decodes into, among the field names of the struct.\<close>

definition field_of :: "string list \<Rightarrow> string \<Rightarrow> string option" where
  "field_of names key =
     (if key \<in> set names then Some key
      else List.find (\<lambda>n. fold_name n = fold_name key) names)"

text \<open>Decoding a string field: \<open>null\<close> leaves it alone, any other type is an error.\<close>

definition decode_string :: "string \<Rightarrow> json \<Rightarrow> string res" where
  "decode_string old v = (case v of
      JStr s \<Rightarrow> Inr s | JNull \<Rightarrow> Inr old
    | _ \<Rightarrow> Inl (Errorf ''json: cannot unmarshal value into Go value of type string''))"

section \<open>The round trip of string literals\<close>

lemma hex_val_hex_char: "d < 16 \<Longrightarrow> hex_val (hex_char d) = Some d"
  by (auto simp: hex_val_def hex_char_def Let_def)

lemma hex4_u_escape:
  assumes "n < 65536"
  shows "hex4 (hex_char (n div 4096 mod 16) # hex_char (n div 256 mod 16) #
    hex_char (n div 16 mod 16) # hex_char (n mod 16) # r) = Some n"
proof -
  have "n = n div 16 * 16 + n mod 16" by simp
  moreover have "n div 16 = n div 256 * 16 + n div 16 mod 16"
    using div_mult_mod_eq [of "n div 16" 16] by (simp add: div_mult2_eq [symmetric])
  moreover have "n div 256 = n div 4096 * 16 + n div 256 mod 16"
    using div_mult_mod_eq [of "n div 256" 16] by (simp add: div_mult2_eq [symmetric])
  moreover have "n div 4096 mod 16 = n div 4096"
    using assms by (simp add: less_mult_imp_div_less)
  ultimately have "n div 4096 mod 16 * 4096 + n div 256 mod 16 * 256 + n div 16 mod 16 * 16 + n mod 16 = n"
    by linarith
  then show ?thesis by (simp add: hex4_def hex_val_hex_char del: mod_less)
qed

lemma str_body_u_escape:
  assumes "n < 65536" and "\<not> is_surrogate n"
  shows "str_body (u_escape n @ r) = prepend (EncodeRune n) (str_body r)"
proof -
  have "str_body (u_escape n @ r) =
     (case hex4 (hex_char (n div 4096 mod 16) # hex_char (n div 256 mod 16) #
         hex_char (n div 16 mod 16) # hex_char (n mod 16) # r) of None \<Rightarrow> None
      | Some u \<Rightarrow> (if is_surrogate u then str_body (u_escape n @ r)
                    else prepend (EncodeRune u) (str_body r)))"
    using assms by (simp add: u_escape_def hex4_u_escape del: mod_less mod_mod_trivial)
  then show ?thesis using assms by (simp only: hex4_u_escape option.case if_False)
qed

lemma in_block:
  assumes "128 \<le> (b::nat)" "b \<le> 191"
  shows "b = 128 + b mod 64"
proof -
  obtain k where k: "b = 128 + k" using assms(1) le_Suc_ex by blast
  with assms(2) have "k < 64" by simp
  have "(128 + k) mod 64 = (128 mod 64 + k) mod 64" by (simp only: mod_add_left_eq)
  with \<open>k < 64\<close> have "(128 + k) mod 64 = k" by simp
  with k show ?thesis by simp
qed

lemma line_sep_bytes:
  assumes "224 \<le> b0" "b0 \<le> 239" "128 \<le> b1" "b1 \<le> 191" "128 \<le> b2" "b2 \<le> 191"
    and "b0 mod 16 * 4096 + b1 mod 64 * 64 + b2 mod 64 = r" and "r = 8232 \<or> r = (8233::nat)"
  shows "b0 = 226 \<and> b1 = 128 \<and> b2 = (if r = 8232 then 168 else 169)"
proof -
  obtain x y z where x: "x = b0 mod 16" and y: "y = b1 mod 64" and z: "z = b2 mod 64" by blast
  have lt: "y < 64" "z < 64" by (simp_all add: y z)
  have r: "r = (x * 64 + y) * 64 + z" using assms(7) by (simp add: x y z)
  have rz: "r mod 64 = z" unfolding r using lt by (simp only: mod_mult_self3 mod_less)
  have rd: "r div 64 = x * 64 + y" unfolding r using lt(2) by simp
  have ry: "r div 64 mod 64 = y" unfolding rd using lt by (simp only: mod_mult_self3 mod_less)
  have rx: "r div 64 div 64 = x" unfolding rd using lt(1) by simp
  have "b0 mod 16 = 2" using assms(8) rx unfolding x by (elim disjE) simp_all
  then have "b0 = 226" using assms(1,2) by presburger
  moreover have "b1 mod 64 = 0" using assms(8) ry unfolding y by (elim disjE) simp_all
  then have "b1 = 128" using assms(3,4) by presburger
  moreover have "b2 mod 64 = (if r = 8232 then 40 else 41)"
    using assms(8) rz unfolding z by (elim disjE) simp_all
  then have "b2 = 128 + (if r = 8232 then 40 else 41)" using in_block [OF assms(5,6)] by simp
  ultimately show ?thesis by (simp split: if_split)
qed

lemma DecodeRune_cases:
  assumes d: "DecodeRune (c # cs) = (r, n)" and n: "n \<noteq> 1"
  obtains (two) c1 rest where "cs = c1 # rest" "n = 2" "194 \<le> byte c" "byte c \<le> 223"
      "cont_byte c1" "byte c mod 32 * 64 + byte c1 mod 64 = r"
  | (three) c1 c2 rest where "cs = c1 # c2 # rest" "n = 3" "224 \<le> byte c" "byte c \<le> 239"
      "second_ok (byte c) c1" "cont_byte c2"
      "byte c mod 16 * 4096 + byte c1 mod 64 * 64 + byte c2 mod 64 = r"
  | (four) c1 c2 c3 rest where "cs = c1 # c2 # c3 # rest" "n = 4" "240 \<le> byte c" "byte c \<le> 244"
      "second_ok (byte c) c1" "cont_byte c2" "cont_byte c3"
      "byte c mod 8 * 262144 + byte c1 mod 64 * 4096 + byte c2 mod 64 * 64 + byte c3 mod 64 = r"
proof -
  consider (a) "byte c < 128" | (b) "194 \<le> byte c" "byte c \<le> 223" | (c) "224 \<le> byte c" "byte c \<le> 239"
    | (d) "240 \<le> byte c" "byte c \<le> 244"
    | (e) "128 \<le> byte c" "\<not> (194 \<le> byte c \<and> byte c \<le> 223)" "\<not> (224 \<le> byte c \<and> byte c \<le> 239)"
        "\<not> (240 \<le> byte c \<and> byte c \<le> 244)"
    by linarith
  then show thesis
  proof cases
    case b
    then show thesis using d n two by (auto simp: DecodeRune_def Let_def split: list.splits if_split_asm)
  next
    case c
    then show thesis using d n three by (auto simp: DecodeRune_def Let_def split: list.splits if_split_asm)
  next
    case d
    then show thesis using assms four by (auto simp: DecodeRune_def Let_def split: list.splits if_split_asm)
  qed (use d n in \<open>auto simp: DecodeRune_def\<close>)
qed

lemma DecodeRune_append:
  assumes "DecodeRune (c # cs) = (r, n)" and "n \<noteq> 1"
  shows "DecodeRune (c # take (n - 1) cs @ x) = (r, n)"
  using assms by (cases rule: DecodeRune_cases) (simp_all add: DecodeRune_def)

lemma second_ok_range: "second_ok b c \<Longrightarrow> 128 \<le> byte c \<and> byte c \<le> 191"
  by (auto simp: second_ok_def cont_byte_def split: if_splits)

lemma char_eqI: "byte c = n \<Longrightarrow> c = char_of n"
  by auto

lemma DecodeRune_line_sep:
  assumes d: "DecodeRune (c # cs) = (r, n)" and r: "r = 8232 \<or> r = 8233" and n: "n \<noteq> 1"
  shows "EncodeRune r = c # take (n - 1) cs"
  using d n
proof (cases rule: DecodeRune_cases)
  case (two c1 rest)
  have "byte c mod 32 < 32" "byte c1 mod 64 < 64" by simp_all
  with two(6) have "r < 2048" by linarith
  with r show ?thesis by auto
next
  case (four c1 c2 c3 rest)
  have "65536 \<le> r"
  proof (cases "byte c = 240")
    case True
    with four(5) have "144 \<le> byte c1" "byte c1 \<le> 191" by (auto simp: second_ok_def)
    then have "16 \<le> byte c1 mod 64" using in_block [of "byte c1"] by linarith
    with four(8) show ?thesis by simp
  next
    case False
    obtain k where k: "byte c = 240 + k" using four(3) le_Suc_ex by blast
    with False four(4) have "1 \<le> k" "k \<le> 4" by simp_all
    moreover have "(240 + k) mod 8 = (240 mod 8 + k) mod 8" by (simp only: mod_add_left_eq)
    ultimately have "1 \<le> byte c mod 8" by (simp add: k)
    with four(8) show ?thesis by simp
  qed
  with r show ?thesis by auto
next
  case (three c1 c2 rest)
  have b: "byte c = 226 \<and> byte c1 = 128 \<and> byte c2 = (if r = 8232 then 168 else 169)"
    using second_ok_range [OF three(5)] three(6)
    by (intro line_sep_bytes [OF three(3,4) _ _ _ _ three(7) r]) (simp_all only: cont_byte_def)
  have "EncodeRune r = [c, c1, c2]"
    using r
  proof
    assume "r = 8232"
    with b have "c = char_of (226::nat)" "c1 = char_of (128::nat)" "c2 = char_of (168::nat)"
      by (auto intro: char_eqI)
    with \<open>r = 8232\<close> show ?thesis by (simp add: EncodeRune_def)
  next
    assume "r = 8233"
    with b have "c = char_of (226::nat)" "c1 = char_of (128::nat)" "c2 = char_of (169::nat)"
      by (auto intro: char_eqI)
    with \<open>r = 8233\<close> show ?thesis by (simp add: EncodeRune_def)
  qed
  then show ?thesis using three by simp
qed

text \<open>No byte of the string is decoded as an invalid sequence.\<close>

definition valid_utf8 :: "string \<Rightarrow> bool" where
  "valid_utf8 s \<longleftrightarrow> list_all (\<lambda>(r, bs). length bs = 1 \<longrightarrow> byte (hd bs) < 128) (chunks s)"

lemma valid_utf8_ascii: "\<forall>c\<in>set s. byte c < 128 \<Longrightarrow> valid_utf8 s"
  by (auto simp: valid_utf8_def chunks_ascii list_all_iff)

lemma str_body_ascii:
  assumes "byte c < 128"
  shows "str_body (escape_ascii c @ r) = prepend [c] (str_body r)"
proof -
  have enc: "EncodeRune (byte c) = [c]" using assms by (simp add: EncodeRune_def)
  have sur: "\<not> is_surrogate (byte c)" using assms by (simp add: is_surrogate_def)
  have hex: "str_body (u_escape (byte c) @ r) = prepend [c] (str_body r)"
    using assms sur by (simp add: str_body_u_escape enc)
  show ?thesis
    using assms hex by (auto simp: escape_ascii_def html_safe_def escape_char_def)
qed

text \<open>What the decoder reads back: every byte that is part of no UTF-8 sequence became U+FFFD.\<close>

definition clean_chunk :: "nat \<times> string \<Rightarrow> string" where
  "clean_chunk p = (case snd p of [c] \<Rightarrow> if byte c < 128 then [c] else ufffd | bs \<Rightarrow> bs)"

definition clean :: "string \<Rightarrow> string" where
  "clean s = concat (map clean_chunk (chunks s))"

lemma escape_chunk_clean:
  assumes "DecodeRune (c # cs) = (r, n)"
  shows "str_body (escape_chunk (r, c # take (n - 1) cs) @ x) = prepend (clean_chunk (r, c # take (n - 1) cs)) (str_body x)"
proof (cases "n = 1")
  case True
  have "EncodeRune RuneError = ufffd"
    by (simp add: EncodeRune_def RuneError_def ufffd_def) (auto intro: char_eqI [symmetric])
  moreover have "RuneError < 65536" "\<not> is_surrogate RuneError" by (simp_all add: RuneError_def is_surrogate_def)
  ultimately show ?thesis using True
    by (simp add: escape_chunk_def clean_chunk_def str_body_ascii str_body_u_escape)
next
  case False
  have n: "n \<in> {1..4}" "n \<le> Suc (length cs)"
    using DecodeRune_width [of c cs] DecodeRune_fits [of c cs] assms by auto
  with False have ne: "take (n - 1) cs \<noteq> []" by auto
  then have cl: "clean_chunk (r, c # take (n - 1) cs) = c # take (n - 1) cs"
    by (auto simp: clean_chunk_def split: list.splits)
  have c: "128 \<le> byte c" using assms False by (auto simp: DecodeRune_def Let_def split: if_splits)
  show ?thesis
  proof (cases "r = 8232 \<or> r = 8233")
    case True
    then have "\<not> is_surrogate r" and "r < 65536" by (auto simp: is_surrogate_def)
    moreover have "escape_chunk (r, c # take (n - 1) cs) = u_escape r"
      using True ne by (auto simp: escape_chunk_def split: list.splits)
    ultimately show ?thesis
      using str_body_u_escape [of r x] DecodeRune_line_sep [OF assms True False] cl by simp
  next
    case False2: False
    have dec: "DecodeRune (c # take (n - 1) cs @ x) = (r, n)"
      by (rule DecodeRune_append [OF assms False])
    have "c \<noteq> CHR 0x22" "c \<noteq> CHR 0x5C" using c by auto
    moreover have "escape_chunk (r, c # take (n - 1) cs) = c # take (n - 1) cs"
      using False2 ne by (auto simp: escape_chunk_def split: list.splits)
    moreover have "length (take (n - 1) cs) = n - 1" using n by auto
    ultimately show ?thesis using c dec False n cl by (simp add: Let_def)
  qed
qed

lemma str_body_quoted:
  "str_body (concat (map escape_chunk (chunks s)) @ CHR 0x22 # r) = Some (clean s, r)"
proof (induction s rule: chunks.induct)
  case 1
  then show ?case by (simp add: clean_def)
next
  case (2 c cs)
  obtain q n where d: "DecodeRune (c # cs) = (q, n)" by fastforce
  have "str_body (escape_chunk (q, c # take (n - 1) cs) @
       concat (map escape_chunk (chunks (drop (n - 1) cs))) @ CHR 0x22 # r)
     = prepend (clean_chunk (q, c # take (n - 1) cs)) (Some (clean (drop (n - 1) cs), r))"
    using escape_chunk_clean [OF d] "2.IH" [OF d [symmetric] refl] by simp
  then show ?case using d by (simp add: clean_def)
qed

lemma clean_valid: "valid_utf8 s \<Longrightarrow> clean s = s"
proof -
  assume v: "valid_utf8 s"
  have "clean_chunk p = snd p" if "p \<in> set (chunks s)" for p
    using v that by (fastforce simp: clean_chunk_def valid_utf8_def list_all_iff split: list.splits)
  then have "map clean_chunk (chunks s) = map snd (chunks s)" by simp
  then show ?thesis unfolding clean_def by (simp only: chunks_concat)
qed

text \<open>Appending to a decoded sequence that is not a lone invalid byte.\<close>

lemma valid_utf8_step:
  assumes "DecodeRune (c # cs) = (r, n)" "n = 1 \<longrightarrow> byte c < 128"
  shows "valid_utf8 (c # take (n - 1) cs @ x) \<longleftrightarrow> valid_utf8 x"
proof -
  have n: "n \<in> {1..4}" "n \<le> Suc (length cs)"
    using DecodeRune_width [of c cs] DecodeRune_fits [of c cs] assms by auto
  have "DecodeRune (c # take (n - 1) cs @ x) = (r, n)"
  proof (cases "n = 1")
    case True
    then show ?thesis using assms by (auto simp: DecodeRune_def Let_def split: list.splits if_splits)
  qed (use DecodeRune_append [OF assms(1)] in simp)
  moreover have "length (take (n - 1) cs) = n - 1" using n by auto
  ultimately show ?thesis using assms(2) n by (auto simp: valid_utf8_def)
qed

lemma valid_utf8_ufffd: "valid_utf8 (ufffd @ x) \<longleftrightarrow> valid_utf8 x"
  using valid_utf8_step [of "CHR 0xEF" "[CHR 0xBF, CHR 0xBD]" 65533 3 x]
  by (simp add: ufffd_def DecodeRune_def second_ok_def cont_byte_def)

lemma valid_utf8_clean: "valid_utf8 (clean s)"
proof (induction s rule: chunks.induct)
  case 1
  then show ?case by (simp add: clean_def valid_utf8_def)
next
  case (2 c cs)
  obtain q n where d: "DecodeRune (c # cs) = (q, n)" by fastforce
  have n: "n \<in> {1..4}" "n \<le> Suc (length cs)"
    using DecodeRune_width [of c cs] DecodeRune_fits [of c cs] d by auto
  have IH: "valid_utf8 (clean (drop (n - 1) cs))" using "2.IH" [OF d [symmetric] refl] .
  have eq: "clean (c # cs) = clean_chunk (q, c # take (n - 1) cs) @ clean (drop (n - 1) cs)"
    using d by (simp add: clean_def)
  show ?case
  proof (cases "n = 1 \<and> 128 \<le> byte c")
    case True
    then show ?thesis using IH by (simp add: eq clean_chunk_def valid_utf8_ufffd)
  next
    case False
    then have "clean_chunk (q, c # take (n - 1) cs) = c # take (n - 1) cs"
      using n by (auto simp: clean_chunk_def split: list.splits)
    moreover have "n = 1 \<longrightarrow> byte c < 128" using False by auto
    ultimately show ?thesis using IH valid_utf8_step [OF d] by (simp add: eq)
  qed
qed

text \<open>A decoded string is valid UTF-8, whatever the literal was.\<close>

lemma valid_utf8_ascii_Cons: "byte c < 128 \<Longrightarrow> valid_utf8 (c # x) \<longleftrightarrow> valid_utf8 x"
  using valid_utf8_step [of c "[]" "byte c" 1 x] by (simp add: DecodeRune_def)

lemma valid_utf8_seq:
  assumes "snd (DecodeRune (c # bs)) = Suc (length bs)" "bs \<noteq> []"
  shows "valid_utf8 (c # bs @ x) \<longleftrightarrow> valid_utf8 x"
  using valid_utf8_step [of c bs "fst (DecodeRune (c # bs))" "Suc (length bs)" x] assms
  by (simp add: prod_eq_iff)

lemma mod_63: "k mod 64 \<le> 63" for k :: nat
  using mod_less_divisor [of 64 k] by linarith

lemma valid_utf8_three:
  assumes "2048 \<le> r" "r < 65536" "\<not> (55296 \<le> r \<and> r \<le> 57343)"
  shows "valid_utf8 (EncodeRune r @ x) \<longleftrightarrow> valid_utf8 x"
proof -
  define a where "a = r div 4096"
  define b where "b = r div 64 mod 64"
  have a: "a < 16" using assms by (simp add: a_def less_mult_imp_div_less)
  have ab: "r div 64 = a * 64 + b" unfolding a_def b_def
    using div_mult_mod_eq [of "r div 64" 64] by (simp add: div_mult2_eq [symmetric])
  have bl: "b < 64" by (simp add: b_def)
  have "32 \<le> r div 64" using div_le_mono [OF assms(1), of 64] by simp
  then have "a = 0 \<longrightarrow> 32 \<le> b" using ab by linarith
  moreover have "r div 64 < 864 \<or> 896 \<le> r div 64"
    using assms(3) div_le_mono [of 57344 r 64] by (auto simp: less_mult_imp_div_less not_le)
  then have "a = 13 \<longrightarrow> b < 32" using ab bl by linarith
  ultimately have "second_ok (224 + a) (char_of (128 + b))"
    using bl a by (auto simp: second_ok_def cont_byte_def)
  then have "snd (DecodeRune [char_of (224 + a), char_of (128 + b), char_of (128 + r mod 64)]) = 3"
    using a mod_63 by (simp add: DecodeRune_def cont_byte_def)
  moreover have "EncodeRune r = [char_of (224 + a), char_of (128 + b), char_of (128 + r mod 64)]"
    unfolding EncodeRune_def a_def b_def using assms by (simp only: if_False not_less [symmetric] if_True) simp
  ultimately show ?thesis
    using valid_utf8_seq [of "char_of (224 + a)" "[char_of (128 + b), char_of (128 + r mod 64)]" x] by simp
qed

lemma valid_utf8_four:
  assumes "65536 \<le> r" "r < 1114112"
  shows "valid_utf8 (EncodeRune r @ x) \<longleftrightarrow> valid_utf8 x"
proof -
  define a where "a = r div 262144"
  define b where "b = r div 4096 mod 64"
  have a: "a < 5" using assms by (simp add: a_def less_mult_imp_div_less)
  have ab: "r div 4096 = a * 64 + b" unfolding a_def b_def
    using div_mult_mod_eq [of "r div 4096" 64] by (simp add: div_mult2_eq [symmetric])
  have bl: "b < 64" by (simp add: b_def)
  have "16 \<le> r div 4096" using div_le_mono [OF assms(1), of 4096] by simp
  then have "a = 0 \<longrightarrow> 16 \<le> b" using ab by linarith
  moreover have "r div 4096 < 272" using assms(2) by (simp add: less_mult_imp_div_less)
  then have "a = 4 \<longrightarrow> b < 16" using ab by linarith
  ultimately have "second_ok (240 + a) (char_of (128 + b))"
    using bl a by (auto simp: second_ok_def cont_byte_def)
  then have "snd (DecodeRune [char_of (240 + a), char_of (128 + b), char_of (128 + r div 64 mod 64),
      char_of (128 + r mod 64)]) = 4"
    using a mod_63 by (simp add: DecodeRune_def cont_byte_def)
  moreover have "EncodeRune r = [char_of (240 + a), char_of (128 + b), char_of (128 + r div 64 mod 64),
      char_of (128 + r mod 64)]"
    unfolding EncodeRune_def a_def b_def using assms by simp
  ultimately show ?thesis
    using valid_utf8_seq [of "char_of (240 + a)"
        "[char_of (128 + b), char_of (128 + r div 64 mod 64), char_of (128 + r mod 64)]" x] by simp
qed

lemma valid_utf8_EncodeRune: "valid_utf8 (EncodeRune r @ x) \<longleftrightarrow> valid_utf8 x"
proof -
  consider "r < 128" | "128 \<le> r" "r < 2048" | "2048 \<le> r" "r < 65536" "\<not> (55296 \<le> r \<and> r \<le> 57343)"
    | "55296 \<le> r" "r \<le> 57343" | "65536 \<le> r" "r < 1114112" | "1114112 \<le> r"
    by linarith
  then show ?thesis
  proof cases
    case 1
    then show ?thesis by (simp add: EncodeRune_def valid_utf8_ascii_Cons)
  next
    case 2
    then have b: "192 + r div 64 < 224" "194 \<le> 192 + r div 64" by auto
    then show ?thesis
      using 2 b mod_63 valid_utf8_seq [of "char_of (192 + r div 64)" "[char_of (128 + r mod 64)]" x]
      by (simp add: EncodeRune_def DecodeRune_def cont_byte_def)
  next
    case 3
    then show ?thesis by (rule valid_utf8_three)
  next
    case 4
    then show ?thesis by (simp add: EncodeRune_def valid_utf8_ufffd)
  next
    case 5
    then show ?thesis by (rule valid_utf8_four)
  next
    case 6
    then show ?thesis by (simp add: EncodeRune_def valid_utf8_ufffd)
  qed
qed

lemma str_body_valid: "str_body s = Some (x, r) \<Longrightarrow> valid_utf8 x"
proof (induction s arbitrary: x r rule: str_body.induct)
  case 1
  then show ?case by simp
next
  case (2 c cs)
  have w: "valid_utf8 ((if n = 1 then ufffd else c # take (n - 1) cs) @ y) = valid_utf8 y"
    if "n = snd (DecodeRune (c # cs))" "\<not> byte c < 128" for n y
  proof (cases "n = 1")
    case False
    have "DecodeRune (c # cs) = (fst (DecodeRune (c # cs)), n)" using that(1) by simp
    then show ?thesis using False valid_utf8_step by simp
  qed (simp add: valid_utf8_ufffd)
  consider (quote) "c = CHR 0x22" | (escape) "c = CHR 0x5C" | (ascii) "c \<noteq> CHR 0x22" "c \<noteq> CHR 0x5C" "byte c < 128"
    | (wide) "c \<noteq> CHR 0x22" "c \<noteq> CHR 0x5C" "\<not> byte c < 128" by blast
  then show ?case
  proof cases
    case quote
    then show ?thesis using "2.prems" by (simp add: valid_utf8_def)
  next
    case escape
    obtain e es where cs: "cs = e # es" using "2.prems" escape by (cases cs) auto
    show ?thesis
    proof (cases "e = CHR ''u''")
      case True
      then obtain u where u: "hex4 es = Some u" using "2.prems" escape cs by (auto split: option.splits)
      show ?thesis
        using "2.prems" "2.IH"(1-3) [OF _ _ cs True u] escape cs True u
        by (auto simp: valid_utf8_EncodeRune valid_utf8_ufffd split: if_splits option.splits)
    next
      case False
      then obtain b y where bv: "escape_char e = Some b" "str_body es = Some (y, r)" "x = b # y"
        using "2.prems" escape cs by (auto split: option.splits)
      then have "byte b < 128" by (auto simp: escape_char_def split: if_splits)
      moreover have "valid_utf8 y" using "2.IH"(4) [OF _ _ cs False bv(1) bv(2)] escape by simp
      ultimately show ?thesis by (simp add: bv(3) valid_utf8_ascii_Cons)
    qed
  next
    case ascii
    then show ?thesis using "2.prems" "2.IH" by (auto simp: valid_utf8_ascii_Cons split: if_splits)
  next
    case wide
    obtain n where n: "n = snd (DecodeRune (c # cs))" by blast
    obtain y where "str_body (drop (n - 1) cs) = Some (y, r)"
      "x = (if n = 1 then ufffd else c # take (n - 1) cs) @ y"
      using "2.prems" wide n by (auto simp: Let_def)
    moreover from this(1) have "valid_utf8 y" using "2.IH"(6) [OF _ _ _ _ n] wide by simp
    ultimately show ?thesis using w [OF n wide(3)] by simp
  qed
qed

section \<open>The round trip of values\<close>

text \<open>
  A value without numbers, nested at most \<open>d\<close> deep; what is read back has its strings cleaned.
\<close>

fun json_ok :: "nat \<Rightarrow> json \<Rightarrow> bool" where
  "json_ok d JNull = True"
| "json_ok d (JBool b) = True"
| "json_ok d (JNum s) = False"
| "json_ok d (JStr s) = True"
| "json_ok d (JArr vs) = (0 < d \<and> list_all (json_ok (d - 1)) vs)"
| "json_ok d (JObj ms) = (0 < d \<and> list_all (\<lambda>(k, v). json_ok (d - 1) v) ms)"

fun json_clean :: "json \<Rightarrow> json" where
  "json_clean (JStr s) = JStr (clean s)"
| "json_clean (JArr vs) = JArr (map json_clean vs)"
| "json_clean (JObj ms) = JObj (map (\<lambda>(k, v). (clean k, json_clean v)) ms)"
| "json_clean v = v"

lemma json_print_hd:
  "json_ok d v \<Longrightarrow> \<exists>c cs. json_print v = c # cs \<and> \<not> is_ws c \<and> c \<noteq> CHR '']'' \<and> c \<noteq> CHR '',''"
  by (cases v) (auto simp: quote_def is_ws_def)

lemma skip_print:
  assumes "json_ok d v"
  shows "skip_ws (json_print v @ r) = json_print v @ r"
  using json_print_hd [OF assms] by (auto simp: skip_ws_def)

lemma skip_ws_non [simp]: "\<not> is_ws c \<Longrightarrow> skip_ws (c # cs) = c # cs"
  by (simp add: skip_ws_def)

lemma Join_Cons: "zs \<noteq> [] \<Longrightarrow> Join (x # zs) sep = x @ sep @ Join zs sep"
  by (cases zs) auto

abbreviation print_member :: "string \<times> json \<Rightarrow> string" where
  "print_member \<equiv> \<lambda>(k, v). quote k @ CHR '':'' # json_print v"

lemma p_elems_print:
  assumes "vs \<noteq> []" and "list_all (json_ok d) vs"
    and "\<And>v f r. v \<in> set vs \<Longrightarrow> 2 * length (json_print v) \<le> f \<Longrightarrow>
           p_val f d (json_print v @ r) = Some (json_clean v, r)"
    and "2 * length (Join (map json_print vs) '','') + 1 \<le> f"
  shows "p_elems f d (Join (map json_print vs) '','' @ '']'' @ r) = Some (map json_clean vs, r)"
  using assms
proof (induction vs arbitrary: f)
  case Nil
  then show ?case by simp
next
  case (Cons v vs)
  then obtain g where f: "f = Suc g" by (cases f) auto
  have ws: "\<not> is_ws (CHR '','')" "\<not> is_ws (CHR '']'')" by (simp_all add: is_ws_def)
  have v: "p_val g d (json_print v @ x) = Some (json_clean v, x)" for x
    using Cons.prems(3) [of v g] Cons.prems(4) f by (cases vs) auto
  show ?case
  proof (cases "vs = []")
    case True
    then show ?thesis by (simp add: f v ws)
  next
    case False
    then have "p_elems g d (Join (map json_print vs) '','' @ '']'' @ r) = Some (map json_clean vs, r)"
      using Cons.prems f by (intro Cons.IH) (auto simp: Join_Cons)
    with False show ?thesis by (simp add: f v ws Join_Cons)
  qed
qed

lemma p_members_print:
  assumes "ms \<noteq> []" and "list_all (\<lambda>(k, v). json_ok d v) ms"
    and "\<And>k v f r. (k, v) \<in> set ms \<Longrightarrow> 2 * length (json_print v) \<le> f \<Longrightarrow>
           p_val f d (json_print v @ r) = Some (json_clean v, r)"
    and "2 * length (Join (map print_member ms) '','') + 1 \<le> f"
  shows "p_members f d (Join (map print_member ms) '','' @ ''}'' @ r) = Some (map (\<lambda>(k, v). (clean k, json_clean v)) ms, r)"
  using assms
proof (induction ms arbitrary: f)
  case Nil
  then show ?case by simp
next
  case (Cons m ms)
  obtain k v where m: "m = (k, v)" by fastforce
  from Cons obtain g where f: "f = Suc g" by (cases f) auto
  have ws: "\<not> is_ws (CHR '','')" "\<not> is_ws (CHR ''}'')" "\<not> is_ws (CHR '':'')" "\<not> is_ws (CHR 0x22)"
    by (simp_all add: is_ws_def)
  have v: "p_val g d (json_print v @ x) = Some (json_clean v, x)" for x
    using Cons.prems(3) [of k v g] Cons.prems(4) f m by (cases ms) auto
  show ?case
  proof (cases "ms = []")
    case True
    then show ?thesis by (simp add: f v ws m quote_def str_body_quoted)
  next
    case False
    then have "p_members g d (Join (map print_member ms) '','' @ ''}'' @ r) = Some (map (\<lambda>(k, v). (clean k, json_clean v)) ms, r)"
      using Cons.prems f m by (intro Cons.IH) (auto simp: Join_Cons)
    with False show ?thesis
      by (simp add: f v ws m Join_Cons quote_def str_body_quoted)
  qed
qed

lemma p_val_arr_print:
  assumes ok: "list_all (json_ok (d - 1)) vs" and d: "0 < d"
    and f: "2 * length (json_print (JArr vs)) \<le> Suc g"
    and IH: "\<And>v f r. v \<in> set vs \<Longrightarrow> 2 * length (json_print v) \<le> f \<Longrightarrow>
      p_val f (d - 1) (json_print v @ r) = Some (json_clean v, r)"
  shows "p_val (Suc g) d (json_print (JArr vs) @ r) = Some (json_clean (JArr vs), r)"
proof (cases vs)
  case Nil
  then show ?thesis using d by (simp add: is_ws_def)
next
  case (Cons v vs')
  have ws: "\<not> is_ws (CHR ''['')" "\<not> is_ws (CHR '']'')" by (simp_all add: is_ws_def)
  obtain c cs where hd: "json_print v = c # cs" "\<not> is_ws c" "c \<noteq> CHR '']''"
    using json_print_hd [of "d - 1" v] ok Cons by auto
  have "p_elems g (d - 1) (Join (map json_print vs) '','' @ '']'' @ r) = Some (map json_clean vs, r)"
    by (rule p_elems_print [OF _ ok]) (use Cons f IH in auto)
  moreover have "\<exists>xs. Join (map json_print vs) '','' = c # xs"
    using hd Cons by (cases vs') auto
  ultimately show ?thesis using hd d by (auto simp: ws)
qed

lemma p_val_obj_print:
  assumes ok: "list_all (\<lambda>(k, v). json_ok (d - 1) v) ms" and d: "0 < d"
    and f: "2 * length (json_print (JObj ms)) \<le> Suc g"
    and IH: "\<And>k v f r. (k, v) \<in> set ms \<Longrightarrow> 2 * length (json_print v) \<le> f \<Longrightarrow>
      p_val f (d - 1) (json_print v @ r) = Some (json_clean v, r)"
  shows "p_val (Suc g) d (json_print (JObj ms) @ r) = Some (json_clean (JObj ms), r)"
proof (cases ms)
  case Nil
  then show ?thesis using d by (simp add: is_ws_def)
next
  case (Cons m ms')
  have ws: "\<not> is_ws (CHR ''{'')" "\<not> is_ws (CHR ''}'')" "\<not> is_ws (CHR 0x22)" by (simp_all add: is_ws_def)
  have "p_members g (d - 1) (Join (map print_member ms) '','' @ ''}'' @ r) = Some (map (\<lambda>(k, v). (clean k, json_clean v)) ms, r)"
    by (rule p_members_print [OF _ ok]) (use Cons f IH in auto)
  moreover have "\<exists>xs. Join (map print_member ms) '','' = CHR 0x22 # xs"
    using Cons by (cases ms'; cases m) (auto simp: quote_def)
  ultimately show ?thesis using d by (auto simp: ws)
qed

lemma p_val_print:
  "json_ok d v \<Longrightarrow> 2 * length (json_print v) \<le> f \<Longrightarrow> p_val f d (json_print v @ r) = Some (json_clean v, r)"
proof (induction v arbitrary: d f r)
  case JNull
  then show ?case by (cases f) (auto simp: is_ws_def HasPrefix_def)
next
  case (JBool b)
  then show ?case by (cases f; cases b) (auto simp: is_ws_def HasPrefix_def)
next
  case (JNum s)
  then show ?case by simp
next
  case (JStr s)
  then show ?case by (cases f) (auto simp: is_ws_def quote_def str_body_quoted)
next
  case (JArr vs)
  then obtain g where f: "f = Suc g" by (cases f) auto
  show ?case unfolding f
    by (rule p_val_arr_print) (use JArr f in \<open>auto simp: list_all_iff\<close>)
next
  case (JObj ms)
  then obtain g where f: "f = Suc g" by (cases f) auto
  show ?case unfolding f
    by (rule p_val_obj_print) (use JObj f in \<open>fastforce simp: list_all_iff\<close>)+
qed

lemma json_roundtrip:
  assumes "json_ok max_depth v"
  shows "json_parse (json_print v) = Some (json_clean v)"
  using p_val_print [OF assms, of "2 * length (json_print v) + 2" "[]"]
  by (simp add: json_parse_def skip_ws_def)

section \<open>Every parsed string is valid\<close>

fun json_valid :: "json \<Rightarrow> bool" where
  "json_valid (JStr s) = valid_utf8 s"
| "json_valid (JArr vs) = list_all json_valid vs"
| "json_valid (JObj ms) = list_all (\<lambda>(k, v). valid_utf8 k \<and> json_valid v) ms"
| "json_valid v = True"

lemma json_clean_valid: "json_valid v \<Longrightarrow> json_clean v = v"
  by (induction v) (auto simp: list_all_iff clean_valid intro!: map_idI)

lemma p_valid:
  "p_val f d s = Some (v, r) \<Longrightarrow> json_valid v"
  "p_elems f d s = Some (vs, r) \<Longrightarrow> list_all json_valid vs"
  "p_members f d s = Some (ms, r) \<Longrightarrow> list_all (\<lambda>(k, v). valid_utf8 k \<and> json_valid v) ms"
proof (induction f d s and f d s and f d s arbitrary: v r and vs r and ms r rule: p_val_p_elems_p_members.induct)
  case (2 f d s)
  then show ?case by (auto dest: str_body_valid split: list.splits if_splits)
next
  case (4 f d s)
  then show ?case by (fastforce split: option.splits list.splits if_splits)
next
  case (6 f d s)
  then show ?case by (fastforce dest: str_body_valid split: option.splits list.splits if_splits)
qed simp_all

lemma json_parse_valid: "json_parse s = Some v \<Longrightarrow> json_valid v"
  by (auto simp: json_parse_def simp del: p_val.simps dest: p_valid(1) split: option.splits if_splits)

end
