(* ===== verification/Image_Ref.thy ===== *)
theory Image_Ref
  imports Build_Config Json
begin

text \<open>
  Image references and the registry pre-flight: \<open>pkg/build/image_exists.go\<close> and the three
  reference helpers at the end of \<open>pkg/build/dispatch.go\<close>. The HTTP client is a parameter:
  whether a request for a URL can be built, and what sending it yields (status code and
  body), with the outside world threaded through.
\<close>

definition dockerHubHost :: string where "dockerHubHost = ''registry-1.docker.io''"

definition dockerHubAuthURL :: string where
  "dockerHubAuthURL = ''https://auth.docker.io/token?service=registry.docker.io&scope=repository:''"

definition manifestAccept :: string where
  "manifestAccept = Join [''application/vnd.docker.distribution.manifest.v2+json'',
     ''application/vnd.docker.distribution.manifest.list.v2+json'',
     ''application/vnd.oci.image.manifest.v1+json'',
     ''application/vnd.oci.image.index.v1+json''] '', ''"

section \<open>References\<close>

record ImageRef =
  Registry :: string
  Repository :: string
  RefTag :: string

definition ImageRef_String :: "ImageRef \<Rightarrow> string" where
  "ImageRef_String r = Registry r @ ''/'' @ Repository r @ '':'' @ RefTag r"

definition ParseImageRef :: "string \<Rightarrow> ImageRef res" where
  "ParseImageRef raw =
     (let img = TrimSpace raw
      in if img = '''' then Inl (Errorf ''empty image reference'')
         else if Contains img CHR ''@'' then
           Inl (Errorf (''image reference '' @ img @ '' carries a digest, not a tag''))
         else
           (let (host, rest) =
              (case Cut img CHR ''/'' of (first, after, found) \<Rightarrow>
                 if found \<and> (ContainsAny first ''.:'' \<or> first = ''localhost'') then (first, after)
                 else (''docker.io'', img));
              idx = LastIndex rest CHR '':'';
              (tag, rest') =
                (if 0 \<le> idx then (drop (nat (idx + 1)) rest, take (nat idx) rest)
                 else (''latest'', rest))
            in if rest' = '''' \<or> tag = '''' then
                 Inl (Errorf (''malformed image reference '' @ img))
               else if host = ''docker.io'' then
                 Inr \<lparr>Registry = dockerHubHost,
                      Repository = (if \<not> Contains rest' CHR ''/'' then ''library/'' @ rest' else rest'),
                      RefTag = tag\<rparr>
               else Inr \<lparr>Registry = host, Repository = rest', RefTag = tag\<rparr>))"

definition ImageReference :: "string \<Rightarrow> string \<Rightarrow> string" where
  "ImageReference img tag =
     (if Contains (drop (nat (LastIndex img CHR ''/'' + 1)) img) CHR '':'' then img
      else img @ '':'' @ tag)"

definition RepoURL :: "string \<Rightarrow> string" where
  "RepoURL repo = ''https://github.com/'' @ repo @ ''.git''"

definition JobImage :: "Job \<Rightarrow> string" where
  "JobImage job = (case ContainerImages job of [] \<Rightarrow> '''' | img # _ \<Rightarrow> TrimSpace img)"

section \<open>Credentials\<close>

record Credentials =
  Username :: string
  Password :: string

definition noCredentials :: Credentials where
  "noCredentials = \<lparr>Username = '''', Password = ''''\<rparr>"

definition IsZero :: "Credentials \<Rightarrow> bool" where
  "IsZero c \<longleftrightarrow> Username c = '''' \<and> Password c = ''''"

definition Credentials_String :: "Credentials \<Rightarrow> string" where
  "Credentials_String c =
     (if IsZero c then ''credentials(anonymous)''
      else ''credentials(user='' @ Username c @ '', password=<redacted>)'')"

section \<open>The registry\<close>

datatype authorization = NoAuth | Bearer string | BasicAuth string string

record registry_request =
  RqMethod :: string
  RqURL :: string
  RqAccept :: string
  RqAuthorization :: authorization

record 'w http_client =
  NewRequest :: "string \<Rightarrow> goerr option"
  Do :: "registry_request \<Rightarrow> 'w \<Rightarrow> (int \<times> string) res \<times> 'w"

definition send :: "'w http_client \<Rightarrow> registry_request \<Rightarrow> 'w sys \<Rightarrow> (int \<times> string) res \<times> 'w sys" where
  "send client req s = (case Do client req (Ext s) of (r, w) \<Rightarrow> (r, s\<lparr>Ext := w\<rparr>))"

text \<open>\<open>url.QueryEscape\<close>.\<close>

definition query_unreserved :: "char \<Rightarrow> bool" where
  "query_unreserved c \<longleftrightarrow> (97 \<le> byte c \<and> byte c \<le> 122) \<or> (65 \<le> byte c \<and> byte c \<le> 90)
     \<or> is_digit c \<or> c \<in> set ''-_.~''"

definition upper_hex :: "nat \<Rightarrow> char" where
  "upper_hex d = (if d < 10 then char_of (48 + d) else char_of (55 + d))"

definition QueryEscape :: "string \<Rightarrow> string" where
  "QueryEscape s = concat (map (\<lambda>c.
     if query_unreserved c then [c] else if c = CHR '' '' then ''+''
     else [CHR ''%'', upper_hex (byte c div 16), upper_hex (byte c mod 16)]) s)"

text \<open>Decoding the token payload: the first JSON value of at most one MiB of the body.\<close>

fun decode_token_fields :: "(string \<times> json) list \<Rightarrow> string \<times> string \<Rightarrow> (string \<times> string) res" where
  "decode_token_fields [] p = Inr p"
| "decode_token_fields ((k, v) # ms) (tok, acc) =
     (case field_of [''token'', ''access_token''] k of
        None \<Rightarrow> decode_token_fields ms (tok, acc)
      | Some f \<Rightarrow>
          (if f = ''token'' then
             (case decode_string tok v of Inl e \<Rightarrow> Inl e | Inr x \<Rightarrow> decode_token_fields ms (x, acc))
           else
             (case decode_string acc v of Inl e \<Rightarrow> Inl e | Inr x \<Rightarrow> decode_token_fields ms (tok, x))))"

definition decode_token :: "string \<Rightarrow> (string \<times> string) res" where
  "decode_token body =
     (let b = take (1024 * 1024) body
      in case p_val (2 * length b + 2) max_depth b of
           None \<Rightarrow> Inl (Errorf ''json: syntax error'')
         | Some (v, _) \<Rightarrow>
             (case v of JNull \<Rightarrow> Inr ('''', '''')
              | JObj ms \<Rightarrow> decode_token_fields ms ('''', '''')
              | _ \<Rightarrow> Inl (Errorf ''json: cannot unmarshal value into token payload'')))"

definition dockerHubToken ::
    "'w http_client \<Rightarrow> string \<Rightarrow> Credentials \<Rightarrow> 'w sys \<Rightarrow> string res \<times> 'w sys" where
  "dockerHubToken client repository creds s =
     (let url = dockerHubAuthURL @ QueryEscape repository @ '':pull''
      in case NewRequest client url of
           Some e \<Rightarrow> (Inl (Wrapf ''build docker hub token request'' e), s)
         | None \<Rightarrow>
             (let req = \<lparr>RqMethod = ''GET'', RqURL = url, RqAccept = '''',
                RqAuthorization = (if \<not> IsZero creds then BasicAuth (Username creds) (Password creds)
                                   else NoAuth)\<rparr>
              in case send client req s of
                   (Inl e, t) \<Rightarrow> (Inl (Wrapf ''docker hub token request'' e), t)
                 | (Inr (status, body), t) \<Rightarrow>
                     (if status \<noteq> 200 then
                        (Inl (Errorf (''docker hub token request returned '' @ Itoa status)), t)
                      else (case decode_token body of
                          Inl e \<Rightarrow> (Inl (Wrapf ''decode docker hub token response'' e), t)
                        | Inr (token, access_token) \<Rightarrow>
                            (if token \<noteq> '''' then (Inr token, t)
                             else if access_token \<noteq> '''' then (Inr access_token, t)
                             else (Inl (Errorf ''docker hub token response carried no token''), t))))))"

definition manifest_url :: "ImageRef \<Rightarrow> string" where
  "manifest_url ref = ''https://'' @ Registry ref @ ''/v2/'' @ Repository ref @ ''/manifests/'' @ RefTag ref"

definition registry_authorization ::
    "'w http_client \<Rightarrow> ImageRef \<Rightarrow> Credentials \<Rightarrow> 'w sys \<Rightarrow> authorization res \<times> 'w sys" where
  "registry_authorization client ref creds s =
     (if Registry ref = dockerHubHost then
        (case dockerHubToken client (Repository ref) creds s of
           (Inl e, t) \<Rightarrow> (Inl e, t)
         | (Inr token, t) \<Rightarrow> (Inr (Bearer token), t))
      else if \<not> IsZero creds then (Inr (BasicAuth (Username creds) (Password creds)), s)
      else (Inr NoAuth, s))"

text \<open>
  A checker is the client it asks. Without one it gets a client with a timeout of twenty seconds,
  which is a parameter like every client.
\<close>

definition NewRegistryImageChecker :: "'w http_client \<Rightarrow> 'w http_client option \<Rightarrow> 'w http_client" where
  "NewRegistryImageChecker timeoutClient client = (case client of None \<Rightarrow> timeoutClient | Some c \<Rightarrow> c)"

lemma NewRegistryImageChecker_simps [simp]:
  "NewRegistryImageChecker http None = http" "NewRegistryImageChecker http (Some c) = c"
  by (simp_all add: NewRegistryImageChecker_def)

definition Exists ::
    "'w http_client \<Rightarrow> string \<Rightarrow> Credentials \<Rightarrow> 'w sys \<Rightarrow> bool res \<times> 'w sys" where
  "Exists client imageRef creds s =
     (case ParseImageRef imageRef of
        Inl e \<Rightarrow> (Inl (Wrapf (''parse image reference '' @ imageRef) e), s)
      | Inr ref \<Rightarrow>
          (case NewRequest client (manifest_url ref) of
             Some e \<Rightarrow> (Inl (Wrapf (''build manifest request '' @ ImageRef_String ref) e), s)
           | None \<Rightarrow>
               (case registry_authorization client ref creds s of
                  (Inl e, t) \<Rightarrow> (Inl e, t)
                | (Inr a, t) \<Rightarrow>
                    (case send client \<lparr>RqMethod = ''HEAD'', RqURL = manifest_url ref,
                                       RqAccept = manifestAccept, RqAuthorization = a\<rparr> t of
                       (Inl e, u) \<Rightarrow> (Inl (Wrapf (''manifest request '' @ ImageRef_String ref) e), u)
                     | (Inr (status, _), u) \<Rightarrow>
                         (if status = 200 then (Inr True, u)
                          else if status = 404 then (Inr False, u)
                          else (Inl (Errorf (''manifest request '' @ ImageRef_String ref
                                  @ '' returned '' @ Itoa status)), u))))))"

section \<open>Facts\<close>

text \<open>The characters a repository name or a tag may have here: no separator, no space.\<close>

definition ref_char :: "char \<Rightarrow> bool" where
  "ref_char c \<longleftrightarrow> query_unreserved c"

definition ref_name :: "string \<Rightarrow> bool" where
  "ref_name s \<longleftrightarrow> s \<noteq> [] \<and> list_all ref_char s"

lemma ref_char_facts:
  assumes "ref_char c"
  shows "byte c < 128" "\<not> IsSpace (byte c)" "c \<noteq> CHR ''/''" "c \<noteq> CHR '':''" "c \<noteq> CHR ''@''"
  using assms by (auto simp: ref_char_def query_unreserved_def is_digit_def IsSpace_def)

lemma ref_name_not_in:
  "ref_name s \<Longrightarrow> CHR ''/'' \<notin> set s" "ref_name s \<Longrightarrow> CHR '':'' \<notin> set s"
  "ref_name s \<Longrightarrow> CHR ''@'' \<notin> set s"
  using ref_char_facts(3-5) by (auto simp: ref_name_def list_all_iff)

lemma registryHosts_cases:
  assumes "registryHosts d = Some host"
  shows "host \<in> {''docker.io'', ''ghcr.io'', ''docker.prod.nuke.benjamin-borbe.de:443''}"
  using assms by (auto simp: registryHosts_def split: if_splits)

lemma host_facts:
  assumes "host \<in> {''docker.io'', ''ghcr.io'', ''docker.prod.nuke.benjamin-borbe.de:443''}"
  shows "\<forall>c\<in>set host. byte c < 128 \<and> \<not> IsSpace (byte c)" "CHR ''@'' \<notin> set host"
    "CHR ''/'' \<notin> set host" "ContainsAny host ''.:''" "host \<noteq> []"
  using assms by (auto simp: IsSpace_def ContainsAny_def)

text \<open>A quiet client: the pre-flight moves the outside world only.\<close>

lemma quiet_send: "send client req s = (r, t) \<Longrightarrow> quiet s t"
  by (auto simp: send_def quiet_def split: prod.splits)

lemma quiet_dockerHubToken: "dockerHubToken client repository creds s = (r, t) \<Longrightarrow> quiet s t"
  by (auto simp: dockerHubToken_def Let_def dest: quiet_send
      split: option.splits prod.splits sum.splits if_splits)

lemma quiet_registry_authorization:
  "registry_authorization client ref creds s = (r, t) \<Longrightarrow> quiet s t"
  by (auto simp: registry_authorization_def dest: quiet_dockerHubToken
      split: prod.splits sum.splits if_splits)

lemma quiet_Exists: "Exists client imageRef creds s = (r, t) \<Longrightarrow> quiet s t"
  by (auto simp: Exists_def dest!: quiet_send quiet_registry_authorization intro: quiet_trans
      split: option.splits prod.splits sum.splits if_splits)

text \<open>The image reference the dispatcher builds for a resolved destination, and what the
  checker reads out of it.\<close>

lemma ImageReference_resolved:
  assumes "ref_name name"
  shows "ImageReference (prfx @ CHR ''/'' # name) tag = prfx @ CHR ''/'' # name @ '':'' @ tag"
proof -
  have "LastIndex (prfx @ CHR ''/'' # name) CHR ''/'' = int (length prfx)"
    using LastIndex_sep ref_name_not_in(1) [OF assms] by blast
  then show ?thesis
    using ref_name_not_in(2) [OF assms] by (simp add: ImageReference_def Contains_def nat_add_distrib)
qed

lemma ParseImageRef_resolved:
  assumes host: "registryHosts d = Some host" and own: "ref_name own" and name: "ref_name name"
    and tag: "ref_name tag"
  shows "ParseImageRef (host @ CHR ''/'' # own @ CHR ''/'' # name @ CHR '':'' # tag) =
    Inr \<lparr>Registry = (if host = ''docker.io'' then dockerHubHost else host),
         Repository = own @ CHR ''/'' # name, RefTag = tag\<rparr>"
    (is "ParseImageRef ?image = _")
proof -
  note hf = host_facts [OF registryHosts_cases [OF host]]
  have rc: "\<forall>c\<in>set own \<union> set name \<union> set tag. ref_char c"
    using own name tag by (auto simp: ref_name_def list_all_iff)
  have trim: "TrimSpace ?image = ?image"
    by (rule TrimSpace_id) (use rc ref_char_facts hf(1) in \<open>auto simp: IsSpace_def\<close>)
  have at: "CHR ''@'' \<notin> set ?image"
    using hf(2) ref_name_not_in(3) own name tag by auto
  have cut: "Cut ?image CHR ''/'' = (host, own @ CHR ''/'' # name @ CHR '':'' # tag, True)"
    by (rule Cut_sep [OF hf(3)])
  have idx: "LastIndex (own @ CHR ''/'' # name @ CHR '':'' # tag) CHR '':'' =
      int (length (own @ CHR ''/'' # name))"
    using LastIndex_sep [OF ref_name_not_in(2) [OF tag], of "own @ CHR ''/'' # name"] by simp
  have ne: "tag \<noteq> []" using tag by (simp add: ref_name_def)
  show ?thesis
    using at ne hf(4)
    by (simp add: ParseImageRef_def trim cut idx Contains_def Let_def nat_add_distrib)
qed

section \<open>Properties\<close>

text \<open>C30: the pre-flight and the build name the same image. The reference the dispatcher builds
  for a destination, an owner, a name and a tag is read by the checker as exactly this registry,
  repository and tag, Docker Hub's web host becoming its registry host.\<close>

theorem ParseImageRef_ImageReference:
  assumes "registryHosts dest = Some host" and "ref_name own" "ref_name nm" "ref_name tag"
  shows "ImageRepository dest (own @ ''/'' @ nm) = Inr (host @ ''/'' @ own @ ''/'' @ nm)
    \<and> ParseImageRef (ImageReference (host @ ''/'' @ own @ ''/'' @ nm) tag) =
      Inr \<lparr>Registry = (if dest = DestinationDockerHub then dockerHubHost else host),
           Repository = own @ ''/'' @ nm, RefTag = tag\<rparr>"
proof -
  have "host = ''docker.io'' \<longleftrightarrow> dest = DestinationDockerHub"
    using assms(1) by (auto simp: registryHosts_def DestinationDockerHub_def DestinationGHCR_def
        DestinationInternal_def split: if_splits)
  moreover have "ImageReference (host @ ''/'' @ own @ ''/'' @ nm) tag = host @ ''/'' @ own @ ''/'' @ nm @ '':'' @ tag"
    using ImageReference_resolved [OF assms(3), of "host @ ''/'' @ own" tag] by simp
  ultimately show ?thesis
    using ParseImageRef_resolved [OF assms] assms(1) by (simp add: ImageRepository_def)
qed

theorem ParseImageRef_ImageReference_witness:
  "ParseImageRef (ImageReference ''docker.io/bborbe/kv'' ''v1'') =
     Inr \<lparr>Registry = ''registry-1.docker.io'', Repository = ''bborbe/kv'', RefTag = ''v1''\<rparr>"
proof -
  have n: "ref_name ''bborbe''" "ref_name ''kv''" "ref_name ''v1''"
    by (simp_all add: ref_name_def ref_char_def query_unreserved_def is_digit_def)
  have "registryHosts ''dockerhub'' = Some ''docker.io''"
    by (simp add: registryHosts_def DestinationDockerHub_def DestinationGHCR_def DestinationInternal_def)
  from ParseImageRef_ImageReference [OF this n] show ?thesis
    by (simp add: DestinationDockerHub_def dockerHubHost_def)
qed

text \<open>C29: the pre-flight fails closed. It says that an image exists or is missing only on a 200 or
  a 404 answer to a HEAD request for that image's manifest, authorised with a freshly fetched
  bearer token on Docker Hub and with the given credentials elsewhere; every other status, every
  transport error and every unreadable reference or token is an error.\<close>

theorem Exists_fail_closed:
  assumes "Exists http imageRef creds s = (Inr present, t)"
  shows "\<exists>ref a u body. ParseImageRef imageRef = Inr ref \<and> quiet s u \<and> quiet s t
    \<and> Do http \<lparr>RqMethod = ''HEAD'', RqURL = manifest_url ref, RqAccept = manifestAccept, RqAuthorization = a\<rparr> (Ext u)
        = (Inr (if present then 200 else 404, body), Ext t)
    \<and> (if Registry ref = dockerHubHost
       then (\<exists>token. dockerHubToken http (Repository ref) creds s = (Inr token, u) \<and> a = Bearer token)
       else u = s \<and> a = (if IsZero creds then NoAuth else BasicAuth (Username creds) (Password creds)))"
proof -
  obtain ref where ref: "ParseImageRef imageRef = Inr ref" "NewRequest http (manifest_url ref) = None"
    using assms by (auto simp: Exists_def split: sum.splits option.splits)
  obtain ar u where au: "registry_authorization http ref creds s = (ar, u)" by fastforce
  obtain a where a: "ar = Inr a" using assms ref au by (cases ar) (auto simp: Exists_def)
  let ?rq = "\<lparr>RqMethod = ''HEAD'', RqURL = manifest_url ref, RqAccept = manifestAccept, RqAuthorization = a\<rparr>"
  obtain x v where sd: "send http ?rq u = (x, v)" by fastforce
  obtain status body where x: "x = Inr (status, body)" "v = t" "present = (status = 200)" "status \<in> {200, 404}"
    using assms ref au a sd by (cases x) (auto simp: Exists_def split: if_splits)
  have "Do http ?rq (Ext u) = (Inr (if present then 200 else 404, body), Ext t)"
    using sd x by (auto simp: send_def split: prod.splits)
  moreover have "quiet s u" by (rule quiet_registry_authorization [OF au])
  moreover have "quiet s t" using quiet_send [OF sd] calculation(2) x(2) quiet_trans by blast
  moreover have "if Registry ref = dockerHubHost
       then (\<exists>token. dockerHubToken http (Repository ref) creds s = (Inr token, u) \<and> a = Bearer token)
       else u = s \<and> a = (if IsZero creds then NoAuth else BasicAuth (Username creds) (Password creds))"
    using au a by (auto simp: registry_authorization_def split: if_splits prod.splits sum.splits)
  ultimately show ?thesis using ref(1) by blast
qed

theorem Exists_fail_closed_witness:
  "\<exists>ref. ParseImageRef ''ghcr.io/bborbe/kv:v1'' = Inr ref"
proof -
  have n: "ref_name ''bborbe''" "ref_name ''kv''" "ref_name ''v1''"
    by (simp_all add: ref_name_def ref_char_def query_unreserved_def is_digit_def)
  have "registryHosts ''ghcr'' = Some ''ghcr.io''"
    by (simp add: registryHosts_def DestinationGHCR_def DestinationInternal_def)
  from ParseImageRef_resolved [OF this n]
  have "ParseImageRef ''ghcr.io/bborbe/kv:v1'' = Inr \<lparr>Registry = ''ghcr.io'', Repository = ''bborbe/kv'', RefTag = ''v1''\<rparr>"
    by simp
  then have "Exists \<lparr>NewRequest = (\<lambda>_. None), Do = (\<lambda>rq w. (Inr (404, ''''), w))\<rparr> ''ghcr.io/bborbe/kv:v1'' noCredentials
      (initial_sys () empty_fs) = (Inr False, initial_sys () empty_fs)"
    by (simp add: Exists_def registry_authorization_def send_def dockerHubHost_def)
  from Exists_fail_closed [OF this] show ?thesis by auto
qed

end
