(* ===== verification/Dispatch.thy ===== *)
theory Dispatch
  imports Manifest Image_Ref
begin

text \<open>
  The build dispatcher of \<open>pkg/build/dispatch.go\<close>: the gates in their order (opt-in,
  configuration, destination, manifest, rendering, registry pre-flight, dedupe, cap) and the
  creation of the Job. Its dependencies are a record of operations, as in \<open>build.Deps\<close>; what
  they promise the dispatcher is the locale \<open>build_deps\<close>.
\<close>

record ActiveJob =
  ActiveName :: string
  Service :: string

type_synonym 'w ManifestLoader = "string \<Rightarrow> string \<Rightarrow> 'w sys \<Rightarrow> string option res \<times> 'w sys"
type_synonym 'w JobCreator = "Job \<Rightarrow> 'w sys \<Rightarrow> goerr option \<times> 'w sys"
type_synonym 'w ImageChecker = "string \<Rightarrow> Credentials \<Rightarrow> 'w sys \<Rightarrow> bool res \<times> 'w sys"
type_synonym 'w CredentialReader =
  "string \<Rightarrow> string \<Rightarrow> string \<Rightarrow> 'w sys \<Rightarrow> Credentials res \<times> 'w sys"
type_synonym 'w CommitEpochProvider = "string \<Rightarrow> string \<Rightarrow> 'w sys \<Rightarrow> int res \<times> 'w sys"
type_synonym 'w JobLister = "string \<Rightarrow> 'w sys \<Rightarrow> ActiveJob list res \<times> 'w sys"

record 'w Deps =
  Manifests :: "'w ManifestLoader"
  Jobs :: "'w JobCreator"
  Images :: "'w ImageChecker"
  CredentialsDep :: "'w CredentialReader option"
  Configs :: "'w ConfigProvider"
  Epochs :: "'w CommitEpochProvider"
  ActiveJobs :: "'w JobLister"
  MaxConcurrent :: int

text \<open>
  What rendering needs beyond the repository: the Kubernetes check of label values, the YAML
  decoder of a Job, the clock, and the random source with what it leaves of the world.
\<close>

record 'w build_env =
  IsValidLabelValue :: "string \<Rightarrow> string list"
  YamlJob :: "string \<Rightarrow> Job res"
  NowUTC :: "'w \<Rightarrow> civil_time"
  RandRead :: "'w \<Rightarrow> (nat \<times> nat \<times> nat \<times> nat) option \<times> 'w"

text \<open>\<open>None\<close> is \<open>proceed=false\<close> with a nil error.\<close>

type_synonym 'w gate = "(Job \<times> string) option res \<times> 'w sys"

definition skip :: "'w sys \<Rightarrow> 'w gate" where
  "skip s = (Inr None, act (IncBuildDispatched ''skipped'') s)"

definition credentials :: "'w Deps \<Rightarrow> string \<Rightarrow> string \<Rightarrow> 'w sys \<Rightarrow> Credentials res \<times> 'w sys" where
  "credentials d secretName imageRef s =
     (case CredentialsDep d of
        None \<Rightarrow> (Inr noCredentials, s)
      | Some reader \<Rightarrow>
          (if secretName = '''' then (Inr noCredentials, s)
           else (case reader DefaultBuildNamespace secretName imageRef s of
               (Inl e, t) \<Rightarrow> (Inl (Wrapf (''resolve registry credentials secret='' @ secretName) e), t)
             | (Inr creds, t) \<Rightarrow> (Inr creds, t))))"

definition render_params :: "Request \<Rightarrow> Config \<Rightarrow> string \<Rightarrow> string \<Rightarrow> int \<Rightarrow> RenderParams" where
  "render_params req cfg imageRepo jobName epoch =
     \<lparr>RpJobName = jobName, RpRepoURL = RepoURL (ReqRepo req), RpRef = Request_Ref req,
      RpTag = ReqTag req, RpDockerfile = Dockerfile cfg, RpImage = imageRepo, RpPush = True,
      RpPushSecret = PushSecret cfg, RpDeadlineSeconds = DeadlineSeconds cfg,
      RpSourceDateEpoch = epoch, RpServicePath = Request_ServicePath req,
      RpContextPath = ContextPath cfg, RpDockerfilePath = DockerfilePath cfg,
      RpNodeSelector = ''''\<rparr>"

definition render ::
    "'w build_env \<Rightarrow> 'w Deps \<Rightarrow> string \<Rightarrow> Request \<Rightarrow> Config \<Rightarrow> string \<Rightarrow> 'w sys \<Rightarrow> Job res \<times> 'w sys" where
  "render env d raw req cfg imageRepo s =
     (case Epochs d (ReqRepo req) (Request_Ref req) s of
        (Inl e, t) \<Rightarrow> (Inl (Wrapf (''resolve commit epoch repo='' @ ReqRepo req
                         @ '' ref='' @ Request_Ref req) e), t)
      | (Inr epoch, t) \<Rightarrow>
          (case RandRead env (Ext t) of (rnd, w) \<Rightarrow>
             (let jobName = NewJobName (NowUTC env (Ext t)) rnd (ReqRepo req) (ReqTag req)
              in (RenderJob (YamlJob env) raw (render_params req cfg imageRepo jobName epoch),
                  t\<lparr>Ext := w\<rparr>))))"

text \<open>The dedupe loop and the concurrency cap.\<close>

definition admit ::
    "'w Deps \<Rightarrow> Request \<Rightarrow> Job \<Rightarrow> string \<Rightarrow> 'w sys \<Rightarrow> 'w gate" where
  "admit d req job imageRef s =
     (case ActiveJobs d (ReqTag req) s of
        (Inl e, t) \<Rightarrow> (Inl (Wrapf (''list active build jobs tag='' @ ReqTag req) e), t)
      | (Inr active, t) \<Rightarrow>
          (if list_ex (\<lambda>a. Service a = Request_ServicePath req) active then
             (Inr None, act (IncBuildDispatched ''exists'') t)
           else if MaxConcurrent d \<le> int (length active) then
             (Inr None, act (IncBuildDispatched ''deferred'') t)
           else (Inr (Some (job, imageRef)), t)))"

definition preflight ::
    "'w Deps \<Rightarrow> Request \<Rightarrow> Config \<Rightarrow> string \<Rightarrow> Job \<Rightarrow> 'w sys \<Rightarrow> 'w gate" where
  "preflight d req cfg imageRepo job s =
     (let imageRef = ImageReference imageRepo (ReqTag req)
      in case credentials d (PushSecret cfg) imageRef s of
           (Inl e, t) \<Rightarrow> (Inl e, t)
         | (Inr creds, t) \<Rightarrow>
             (case Images d imageRef creds t of
                (Inl e, u) \<Rightarrow> (Inr None, act (IncFilterSkipped ''registry_unreachable'') u)
              | (Inr present, u) \<Rightarrow>
                  (if present then (Inr None, act (IncFilterSkipped ''image_exists'') u)
                   else admit d req job imageRef u)))"

definition prepare :: "'w build_env \<Rightarrow> 'w Deps \<Rightarrow> Request \<Rightarrow> 'w sys \<Rightarrow> 'w gate" where
  "prepare env d req s =
     (case Configs d (ReqRepo req) s of
        (Inl e, t) \<Rightarrow> (Inl (Wrapf (''resolve build config repo='' @ ReqRepo req) e), t)
      | (Inr cfg, t) \<Rightarrow>
          (if \<not> AutoBuild cfg then skip t
           else if Config_Validate cfg \<noteq> None then skip t
           else (case ImageRepositoryFor cfg (ReqRepo req) of
               Inl e \<Rightarrow> skip t
             | Inr imageRepo \<Rightarrow>
                 (case Manifests d (ReqRepo req) (ReqTag req) t of
                    (Inl e, u) \<Rightarrow> (Inl (Wrapf (''load build job manifest repo='' @ ReqRepo req
                                     @ '' tag='' @ ReqTag req) e), u)
                  | (Inr file, u) \<Rightarrow>
                      (let raw = (case file of None \<Rightarrow> '''' | Some b \<Rightarrow> b)
                       in if length raw = 0 then skip u
                          else (case render env d raw req cfg imageRepo u of
                              (Inl e, v) \<Rightarrow> (if err_is ErrUnrenderedToken e then skip v else (Inl e, v))
                            | (Inr job, v) \<Rightarrow> preflight d req cfg imageRepo job v))))))"

definition create :: "'w Deps \<Rightarrow> Request \<Rightarrow> Job \<Rightarrow> 'w sys \<Rightarrow> goerr option \<times> 'w sys" where
  "create d req job s =
     (case Jobs d job s of
        (Some e, t) \<Rightarrow>
          (if err_is ErrJobAlreadyExists e then (None, act (IncBuildDispatched ''exists'') t)
           else (Some (Wrapf (''create build job repo='' @ ReqRepo req @ '' tag='' @ ReqTag req
                   @ '' job='' @ JobName job) e), act (IncBuildDispatched ''error'') t))
      | (None, t) \<Rightarrow> (None, act (IncBuildDispatched ''created'') t))"

definition Dispatch :: "'w build_env \<Rightarrow> 'w Deps \<Rightarrow> 'w Dispatcher" where
  "Dispatch env d req trigger s =
     (case Request_Validate (IsValidLabelValue env) req of
        Some e \<Rightarrow> (Some e, s)
      | None \<Rightarrow>
          (case prepare env d req s of
             (Inl e, t) \<Rightarrow> (Some e, t)
           | (Inr None, t) \<Rightarrow> (None, t)
           | (Inr (Some (job, imageRef)), t) \<Rightarrow> create d req job t))"

definition NewDispatcher :: "'w build_env \<Rightarrow> 'w Deps \<Rightarrow> 'w Dispatcher" where
  "NewDispatcher env d =
     Dispatch env (if MaxConcurrent d \<le> 0 then d\<lparr>MaxConcurrent := DefaultMaxConcurrentBuilds\<rparr> else d)"

section \<open>The gates\<close>

text \<open>What the code records when it decides to build nothing.\<close>

definition skip_actions :: "action set" where
  "skip_actions = {IncBuildDispatched ''skipped'', IncBuildDispatched ''exists'',
     IncBuildDispatched ''deferred'', IncFilterSkipped ''registry_unreachable'',
     IncFilterSkipped ''image_exists''}"

definition gate_result :: "'w sys \<Rightarrow> 'w gate \<Rightarrow> bool" where
  "gate_result s g = (case g of (r, t) \<Rightarrow> extends s t \<and>
     (case r of Inl _ \<Rightarrow> quiet s t
      | Inr x \<Rightarrow> (case x of Some _ \<Rightarrow> quiet s t | None \<Rightarrow> \<exists>a\<in>skip_actions. new_acts s t = [a])))"

lemma gate_result_simps [simp]:
  "gate_result s (Inl e, t) \<longleftrightarrow> quiet s t"
  "gate_result s (Inr (Some x), t) \<longleftrightarrow> quiet s t"
  "gate_result s (Inr None, t) \<longleftrightarrow> extends s t \<and> (\<exists>a\<in>skip_actions. new_acts s t = [a])"
  by (auto simp: gate_result_def dest: quiet_extends)

lemma gate_act: "quiet s t \<Longrightarrow> a \<in> skip_actions \<Longrightarrow> gate_result s (Inr None, act a t)"
  by (auto dest: quiet_act [of s t a])

lemma gate_skip: "quiet s t \<Longrightarrow> gate_result s (skip t)"
  by (simp add: skip_def gate_act skip_actions_def del: gate_result_simps)

lemma gate_result_trans:
  assumes "quiet s t" "gate_result t g"
  shows "gate_result s g"
proof -
  have "extends s u" "new_acts s u = new_acts t u" if "extends t u" for u
    using extends_trans [OF quiet_extends [OF assms(1)] that]
      new_acts_trans [OF quiet_extends [OF assms(1)] that] by (auto simp: new_acts_quiet assms(1))
  with assms show ?thesis
    by (auto simp: gate_result_def split: prod.splits sum.splits option.splits intro: quiet_trans)
qed

text \<open>
  When a build is admitted: every gate was asked, in this order, each in the state the one
  before it left, and each let the build through.
\<close>

definition build_admitted ::
    "'w build_env \<Rightarrow> 'w Deps \<Rightarrow> Request \<Rightarrow> 'w sys \<Rightarrow> Job \<Rightarrow> 'w sys \<Rightarrow> bool" where
  "build_admitted env d req s job t \<longleftrightarrow>
     (\<exists>cfg s1 imageRepo raw s2 s3 creds s4 s5 active.
        Configs d (ReqRepo req) s = (Inr cfg, s1) \<and> AutoBuild cfg \<and> Config_Validate cfg = None
        \<and> ImageRepositoryFor cfg (ReqRepo req) = Inr imageRepo
        \<and> Manifests d (ReqRepo req) (ReqTag req) s1 = (Inr (Some raw), s2) \<and> raw \<noteq> ''''
        \<and> render env d raw req cfg imageRepo s2 = (Inr job, s3)
        \<and> credentials d (PushSecret cfg) (ImageReference imageRepo (ReqTag req)) s3 = (Inr creds, s4)
        \<and> Images d (ImageReference imageRepo (ReqTag req)) creds s4 = (Inr False, s5)
        \<and> ActiveJobs d (ReqTag req) s5 = (Inr active, t)
        \<and> (\<forall>a\<in>set active. Service a \<noteq> Request_ServicePath req)
        \<and> int (length active) < MaxConcurrent d)"

lemma admit_pass:
  "admit d req job ref s = (Inr (Some x), t) \<longleftrightarrow> x = (job, ref) \<and>
     (\<exists>active. ActiveJobs d (ReqTag req) s = (Inr active, t)
        \<and> (\<forall>a\<in>set active. Service a \<noteq> Request_ServicePath req)
        \<and> int (length active) < MaxConcurrent d)"
  by (auto simp: admit_def list_ex_iff split: prod.splits sum.splits)

lemma preflight_pass:
  "preflight d req cfg repo job s = (Inr (Some x), t) \<longleftrightarrow>
     (\<exists>creds s4 s5. credentials d (PushSecret cfg) (ImageReference repo (ReqTag req)) s = (Inr creds, s4)
        \<and> Images d (ImageReference repo (ReqTag req)) creds s4 = (Inr False, s5)
        \<and> admit d req job (ImageReference repo (ReqTag req)) s5 = (Inr (Some x), t))"
  by (auto simp: preflight_def Let_def split: prod.splits sum.splits if_splits)

lemma prepare_admitted:
  assumes "prepare env d req s = (Inr (Some (job, ref)), t)"
  shows "build_admitted env d req s job t"
proof -
  obtain cfg s1 where c: "Configs d (ReqRepo req) s = (Inr cfg, s1)" and ab: "AutoBuild cfg"
    and v: "Config_Validate cfg = None"
    using assms by (auto simp: prepare_def skip_def split: prod.splits sum.splits if_splits)
  obtain repo where i: "ImageRepositoryFor cfg (ReqRepo req) = Inr repo"
    using assms c ab v by (auto simp: prepare_def skip_def split: sum.splits)
  obtain fl s2 where m: "Manifests d (ReqRepo req) (ReqTag req) s1 = (Inr fl, s2)"
    using assms c ab v i by (auto simp: prepare_def split: prod.splits sum.splits)
  obtain raw where f: "fl = Some raw" "raw \<noteq> ''''"
    using assms c ab v i m
    by (cases fl) (auto simp: prepare_def skip_def Let_def split: if_splits)
  obtain j s3 where r: "render env d raw req cfg repo s2 = (Inr j, s3)"
    using assms c ab v i m f
    by (auto simp: prepare_def skip_def Let_def split: prod.splits sum.splits if_splits)
  have p: "preflight d req cfg repo j s3 = (Inr (Some (job, ref)), t)"
    using assms c ab v i m f r by (simp add: prepare_def Let_def)
  then have "j = job" by (auto simp: preflight_pass admit_pass)
  then show ?thesis
    using c ab v i m f r p unfolding build_admitted_def preflight_pass admit_pass by blast
qed

text \<open>
  What a call of the dispatcher gets to see: the manifest, the rendered Job, the registry's
  answer and the active Jobs, each when everything before it let the build through; and the
  reasons for which a build is not wanted at all.
\<close>

definition manifest_read ::
    "'w build_env \<Rightarrow> 'w Deps \<Rightarrow> Request \<Rightarrow> 'w sys \<Rightarrow> Config \<Rightarrow> string \<Rightarrow> string option \<Rightarrow> 'w sys \<Rightarrow> bool" where
  "manifest_read env d req s cfg imageRepo raw u \<longleftrightarrow> Request_Validate (IsValidLabelValue env) req = None
     \<and> (\<exists>s1. Configs d (ReqRepo req) s = (Inr cfg, s1) \<and> AutoBuild cfg \<and> Config_Validate cfg = None
        \<and> ImageRepositoryFor cfg (ReqRepo req) = Inr imageRepo
        \<and> Manifests d (ReqRepo req) (ReqTag req) s1 = (Inr raw, u))"

definition job_rendered ::
    "'w build_env \<Rightarrow> 'w Deps \<Rightarrow> Request \<Rightarrow> 'w sys \<Rightarrow> Config \<Rightarrow> string \<Rightarrow> Job res \<Rightarrow> 'w sys \<Rightarrow> bool" where
  "job_rendered env d req s cfg imageRepo job u \<longleftrightarrow> (\<exists>raw s2. manifest_read env d req s cfg imageRepo (Some raw) s2
     \<and> raw \<noteq> '''' \<and> render env d raw req cfg imageRepo s2 = (job, u))"

definition registry_asked ::
    "'w build_env \<Rightarrow> 'w Deps \<Rightarrow> Request \<Rightarrow> 'w sys \<Rightarrow> Job \<Rightarrow> bool res \<Rightarrow> 'w sys \<Rightarrow> bool" where
  "registry_asked env d req s job present u \<longleftrightarrow> (\<exists>cfg imageRepo s3 creds s4.
     job_rendered env d req s cfg imageRepo (Inr job) s3
     \<and> credentials d (PushSecret cfg) (ImageReference imageRepo (ReqTag req)) s3 = (Inr creds, s4)
     \<and> Images d (ImageReference imageRepo (ReqTag req)) creds s4 = (present, u))"

definition jobs_listed ::
    "'w build_env \<Rightarrow> 'w Deps \<Rightarrow> Request \<Rightarrow> 'w sys \<Rightarrow> Job \<Rightarrow> ActiveJob list \<Rightarrow> 'w sys \<Rightarrow> bool" where
  "jobs_listed env d req s job active u \<longleftrightarrow> (\<exists>s5. registry_asked env d req s job (Inr False) s5
     \<and> ActiveJobs d (ReqTag req) s5 = (Inr active, u))"

definition build_unwanted :: "'w build_env \<Rightarrow> 'w Deps \<Rightarrow> Request \<Rightarrow> 'w sys \<Rightarrow> bool" where
  "build_unwanted env d req s \<longleftrightarrow>
     (Request_Validate (IsValidLabelValue env) req = None \<and>
        (\<exists>cfg u. Configs d (ReqRepo req) s = (Inr cfg, u) \<and> (\<not> AutoBuild cfg \<or> Config_Validate cfg \<noteq> None)))
     \<or> (\<exists>cfg imageRepo raw u. manifest_read env d req s cfg imageRepo raw u \<and> (raw = None \<or> raw = Some ''''))
     \<or> (\<exists>cfg imageRepo e u. job_rendered env d req s cfg imageRepo (Inl e) u \<and> err_is ErrUnrenderedToken e)"

text \<open>What is recorded about a Job that was handed over.\<close>

definition creation_result :: "goerr option \<Rightarrow> string" where
  "creation_result e = (case e of None \<Rightarrow> ''created''
     | Some e \<Rightarrow> (if err_is ErrJobAlreadyExists e then ''exists'' else ''error''))"

text \<open>Each decision is taken exactly when the gate it belongs to says so.\<close>

definition decisions :: "'w build_env \<Rightarrow> 'w Deps \<Rightarrow> Request \<Rightarrow> 'w sys \<Rightarrow> goerr option \<Rightarrow> action list \<Rightarrow> bool" where
  "decisions env d req s r new \<longleftrightarrow>
     (new = [IncBuildDispatched ''skipped''] \<longleftrightarrow> build_unwanted env d req s)
   \<and> (new = [IncFilterSkipped ''registry_unreachable''] \<longleftrightarrow> (\<exists>job e u. registry_asked env d req s job (Inl e) u))
   \<and> (new = [IncFilterSkipped ''image_exists''] \<longleftrightarrow> (\<exists>job u. registry_asked env d req s job (Inr True) u))
   \<and> (new = [IncBuildDispatched ''exists''] \<longleftrightarrow> (\<exists>job active u. jobs_listed env d req s job active u
        \<and> (\<exists>a\<in>set active. Service a = Request_ServicePath req)))
   \<and> (new = [IncBuildDispatched ''deferred''] \<longleftrightarrow> (\<exists>job active u. jobs_listed env d req s job active u
        \<and> (\<forall>a\<in>set active. Service a \<noteq> Request_ServicePath req) \<and> MaxConcurrent d \<le> int (length active)))
   \<and> (\<forall>job result. new = [CreateJob job, IncBuildDispatched result] \<longleftrightarrow> (\<exists>active u. jobs_listed env d req s job active u
        \<and> (\<forall>a\<in>set active. Service a \<noteq> Request_ServicePath req) \<and> int (length active) < MaxConcurrent d
        \<and> result = creation_result (fst (Jobs d job u))))
   \<and> (new = [] \<or> (\<exists>a\<in>skip_actions. new = [a]) \<or> (\<exists>job result. new = [CreateJob job, IncBuildDispatched result]))
   \<and> (r = None \<longleftrightarrow> new \<noteq> [] \<and> (\<forall>job. new \<noteq> [CreateJob job, IncBuildDispatched ''error'']))"

lemma Dispatch_rendered: "job_rendered env d req s cfg imageRepo (Inr job) u \<Longrightarrow> Dispatch env d req trigger s =
    (case preflight d req cfg imageRepo job u of (Inl e, t) \<Rightarrow> (Some e, t) | (Inr None, t) \<Rightarrow> (None, t)
      | (Inr (Some (job, imageRef)), t) \<Rightarrow> create d req job t)"
  by (auto simp: job_rendered_def manifest_read_def Dispatch_def prepare_def Let_def)

lemma Dispatch_asked:
  assumes "registry_asked env d req s job present u"
  shows "\<exists>ref. Dispatch env d req trigger s = (case present of
      Inl e \<Rightarrow> (None, act (IncFilterSkipped ''registry_unreachable'') u)
    | Inr True \<Rightarrow> (None, act (IncFilterSkipped ''image_exists'') u)
    | Inr False \<Rightarrow> (case admit d req job ref u of (Inl e, t) \<Rightarrow> (Some e, t) | (Inr None, t) \<Rightarrow> (None, t)
        | (Inr (Some (job, imageRef)), t) \<Rightarrow> create d req job t))"
proof -
  obtain cfg imageRepo s3 creds s4 where r: "job_rendered env d req s cfg imageRepo (Inr job) s3"
    and c: "credentials d (PushSecret cfg) (ImageReference imageRepo (ReqTag req)) s3 = (Inr creds, s4)"
    and i: "Images d (ImageReference imageRepo (ReqTag req)) creds s4 = (present, u)"
    using assms unfolding registry_asked_def by blast
  show ?thesis
    unfolding Dispatch_rendered [OF r] by (cases present) (auto simp: preflight_def c i Let_def split: bool.split)
qed

lemma Dispatch_listed:
  assumes "jobs_listed env d req s job active u"
  shows "Dispatch env d req trigger s =
    (if \<exists>a\<in>set active. Service a = Request_ServicePath req then (None, act (IncBuildDispatched ''exists'') u)
     else if MaxConcurrent d \<le> int (length active) then (None, act (IncBuildDispatched ''deferred'') u)
     else create d req job u)"
proof -
  obtain s5 where a: "registry_asked env d req s job (Inr False) s5" "ActiveJobs d (ReqTag req) s5 = (Inr active, u)"
    using assms unfolding jobs_listed_def by blast
  obtain ref where "Dispatch env d req trigger s = (case admit d req job ref s5 of
      (Inl e, t) \<Rightarrow> (Some e, t) | (Inr None, t) \<Rightarrow> (None, t) | (Inr (Some (job, imageRef)), t) \<Rightarrow> create d req job t)"
    using Dispatch_asked [OF a(1)] by auto
  then show ?thesis by (auto simp: admit_def a(2) list_ex_iff)
qed

lemma Dispatch_unwanted:
  assumes "build_unwanted env d req s"
  shows "\<exists>u. Dispatch env d req trigger s = (None, act (IncBuildDispatched ''skipped'') u)"
  using assms unfolding build_unwanted_def
proof (elim disjE exE conjE)
  fix cfg imageRepo raw u assume "manifest_read env d req s cfg imageRepo raw u" "raw = None"
  then show ?thesis by (auto simp: manifest_read_def Dispatch_def prepare_def skip_def Let_def)
next
  fix cfg imageRepo raw u assume "manifest_read env d req s cfg imageRepo raw u" "raw = Some ''''"
  then show ?thesis by (auto simp: manifest_read_def Dispatch_def prepare_def skip_def Let_def)
next
  fix cfg imageRepo e u assume "job_rendered env d req s cfg imageRepo (Inl e) u" "err_is ErrUnrenderedToken e"
  then show ?thesis by (auto simp: job_rendered_def manifest_read_def Dispatch_def prepare_def skip_def Let_def)
qed (auto simp: Dispatch_def prepare_def skip_def)

text \<open>Where nothing of this is reached, some step failed, and with it the dispatch.\<close>

lemma Dispatch_failed:
  assumes "\<not> build_unwanted env d req s" "\<And>job e u. \<not> registry_asked env d req s job (Inl e) u"
    and "\<And>job u. \<not> registry_asked env d req s job (Inr True) u" "\<And>job active u. \<not> jobs_listed env d req s job active u"
  shows "\<exists>e t. Dispatch env d req trigger s = (Some e, t)"
proof (cases "Request_Validate (IsValidLabelValue env) req")
  case None
  obtain cr s1 where c: "Configs d (ReqRepo req) s = (cr, s1)" by fastforce
  show ?thesis
  proof (cases cr)
    case (Inl e)
    then show ?thesis by (simp add: Dispatch_def prepare_def None c)
  next
    case (Inr cfg)
    have want: "AutoBuild cfg" "Config_Validate cfg = None"
      using assms(1) None c Inr unfolding build_unwanted_def by blast+
    obtain imageRepo where i: "ImageRepositoryFor cfg (ReqRepo req) = Inr imageRepo"
      using ImageRepositoryFor_validated [OF want(2)] by metis
    obtain mr s2 where m: "Manifests d (ReqRepo req) (ReqTag req) s1 = (mr, s2)" by fastforce
    show ?thesis
    proof (cases mr)
      case (Inl e)
      then show ?thesis by (simp add: Dispatch_def prepare_def None c Inr want i m)
    next
      case manifest: (Inr fl)
      have mf: "manifest_read env d req s cfg imageRepo fl s2"
        using None c Inr want i m manifest by (simp add: manifest_read_def)
      then have "fl \<noteq> None \<and> fl \<noteq> Some ''''" using assms(1) unfolding build_unwanted_def by metis
      then obtain raw where raw: "fl = Some raw" "raw \<noteq> ''''" by auto
      obtain rr s3 where r: "render env d raw req cfg imageRepo s2 = (rr, s3)" by fastforce
      have job: "job_rendered env d req s cfg imageRepo rr s3" using mf raw r unfolding job_rendered_def by blast
      show ?thesis
      proof (cases rr)
        case (Inl e)
        then have "\<not> err_is ErrUnrenderedToken e" using job assms(1) unfolding build_unwanted_def by blast
        then show ?thesis using Inl None c Inr want i m manifest raw r
          by (simp add: Dispatch_def prepare_def Let_def)
      next
        case rendered: (Inr j)
        let ?ref = "ImageReference imageRepo (ReqTag req)"
        obtain cd s4 where cd: "credentials d (PushSecret cfg) ?ref s3 = (cd, s4)" by fastforce
        show ?thesis
        proof (cases cd)
          case (Inl e)
          then show ?thesis using Dispatch_rendered [OF job [unfolded rendered]] cd by (simp add: preflight_def Let_def)
        next
          case creds: (Inr creds)
          obtain present s5 where p: "Images d ?ref creds s4 = (present, s5)" by fastforce
          have asked: "registry_asked env d req s j present s5"
            using job rendered cd creds p unfolding registry_asked_def by blast
          then have "present = Inr False" using assms(2,3) by (cases present) auto
          moreover obtain ar s6 where "ActiveJobs d (ReqTag req) s5 = (ar, s6)" by fastforce
          ultimately show ?thesis
            using asked assms(4) Dispatch_asked [OF asked, of trigger]
            by (cases ar) (auto simp: jobs_listed_def admit_def)
        qed
      qed
    qed
  qed
qed (simp add: Dispatch_def)

section \<open>The contract of the dependencies\<close>

text \<open>
  A gate's query moves nothing but the outside world; creating a Job hands exactly that Job
  to the cluster, once.
\<close>

locale build_deps =
  fixes d :: "'w Deps"
  assumes quiet_Manifests: "Manifests d repo tag s = (mr, t) \<Longrightarrow> quiet s t"
    and quiet_Images: "Images d ref creds s = (ir, t) \<Longrightarrow> quiet s t"
    and quiet_CredentialsDep:
      "CredentialsDep d = Some reader \<Longrightarrow> reader ns secret ref s = (cr, t) \<Longrightarrow> quiet s t"
    and quiet_Configs: "Configs d repo s = (fr, t) \<Longrightarrow> quiet s t"
    and quiet_Epochs: "Epochs d repo ref s = (er, t) \<Longrightarrow> quiet s t"
    and quiet_ActiveJobs: "ActiveJobs d tag s = (ar, t) \<Longrightarrow> quiet s t"
    and Jobs_acts: "Jobs d job s = (jr, t) \<Longrightarrow> extends s t \<and> new_acts s t = [CreateJob job]"
begin

lemma quiet_credentials: "credentials d secret ref s = (r, t) \<Longrightarrow> quiet s t"
  by (auto simp: credentials_def dest: quiet_CredentialsDep
      split: option.splits prod.splits sum.splits if_splits)

lemma build_deps_cap: "build_deps (d\<lparr>MaxConcurrent := n\<rparr>)"
  using quiet_Manifests quiet_Images quiet_CredentialsDep quiet_Configs quiet_Epochs
    quiet_ActiveJobs Jobs_acts by unfold_locales auto

lemma quiet_render: "render env d raw req cfg repo s = (r, t) \<Longrightarrow> quiet s t"
  by (auto simp: render_def Let_def quiet_def dest!: quiet_Epochs split: prod.splits sum.splits)

text \<open>The actions of the gates: one action for "build nothing", none for an error or a pass.\<close>

lemma gate_admit: "gate_result s (admit d req job ref s)"
proof -
  obtain ar t where a: "ActiveJobs d (ReqTag req) s = (ar, t)" by fastforce
  note q = quiet_ActiveJobs [OF a]
  show ?thesis
    by (cases ar) (auto simp: admit_def a q skip_actions_def quiet_act [OF q])
qed

lemma gate_preflight: "gate_result s (preflight d req cfg repo job s)"
proof -
  obtain cr t where c: "credentials d (PushSecret cfg) (ImageReference repo (ReqTag req)) s = (cr, t)"
    by fastforce
  note qt = quiet_credentials [OF c]
  show ?thesis
  proof (cases cr)
    case (Inl e)
    then show ?thesis by (simp add: preflight_def c qt)
  next
    case (Inr creds)
    obtain ir u where i: "Images d (ImageReference repo (ReqTag req)) creds t = (ir, u)" by fastforce
    have qu: "quiet s u" using qt quiet_Images [OF i] by (rule quiet_trans)
    show ?thesis
      by (cases ir) (auto simp: preflight_def c i Inr qu gate_result_trans [OF qu gate_admit]
          skip_actions_def quiet_act [OF qu])
  qed
qed

lemma gate_prepare: "gate_result s (prepare env d req s)"
proof -
  obtain cr t where c: "Configs d (ReqRepo req) s = (cr, t)" by fastforce
  note qt = quiet_Configs [OF c]
  show ?thesis
  proof (cases cr)
    case (Inl e)
    then show ?thesis by (simp add: prepare_def c qt)
  next
    case (Inr cfg)
    obtain mr u where m: "Manifests d (ReqRepo req) (ReqTag req) t = (mr, u)" by fastforce
    have qu: "quiet s u" using qt quiet_Manifests [OF m] by (rule quiet_trans)
    have rest: "gate_result s (case render env d raw req cfg repo u of
        (Inl e, v) \<Rightarrow> (if err_is ErrUnrenderedToken e then skip v else (Inl e, v))
      | (Inr job, v) \<Rightarrow> preflight d req cfg repo job v)" for raw repo
    proof -
      obtain rr v where r: "render env d raw req cfg repo u = (rr, v)" by fastforce
      have qv: "quiet s v" using qu quiet_render [OF r] by (rule quiet_trans)
      show ?thesis
        by (cases rr) (auto simp: r qv gate_skip gate_result_trans [OF qv gate_preflight])
    qed
    show ?thesis
      using rest
      by (auto simp: prepare_def c m Inr qt qu gate_skip Let_def split: sum.split)
  qed
qed

text \<open>A dispatch creates at most one Job, and reports a Job it created by one result.\<close>

lemma create_acts:
  assumes "create d req job s = (r, t)"
  shows "extends s t \<and> (\<exists>result\<in>{''created'', ''exists'', ''error''}.
     new_acts s t = [CreateJob job, IncBuildDispatched result] \<and> (r = None \<longleftrightarrow> result \<noteq> ''error''))"
proof -
  obtain jr u where j: "Jobs d job s = (jr, u)" by fastforce
  have e: "extends s u" "new_acts s u = [CreateJob job]" using Jobs_acts [OF j] by auto
  then have "extends s (act x u)" "new_acts s (act x u) = [CreateJob job, x]" for x
    using extends_trans [OF e(1) extends_act] new_acts_trans [OF e(1) extends_act] by (auto simp: e)
  then show ?thesis using assms j
    by (auto simp: create_def split: option.splits if_splits)
qed

lemma Dispatch_outcome:
  assumes "Dispatch env d req trigger s = (r, t)"
  shows "extends s t \<and>
    (quiet s t \<and> r \<noteq> None
     \<or> (\<exists>a\<in>skip_actions. new_acts s t = [a] \<and> r = None)
     \<or> (\<exists>job result. new_acts s t = [CreateJob job, IncBuildDispatched result]
          \<and> result \<in> {''created'', ''exists'', ''error''} \<and> (r = None \<longleftrightarrow> result \<noteq> ''error'')))"
proof (cases "Request_Validate (IsValidLabelValue env) req")
  case (Some e)
  then have "t = s" "r = Some e" using assms by (auto simp: Dispatch_def)
  then show ?thesis by simp
next
  case None
  obtain pr u where p: "prepare env d req s = (pr, u)" by fastforce
  have g: "gate_result s (pr, u)" using gate_prepare [of s env req] by (simp add: p)
  show ?thesis
  proof (cases "\<exists>job ref. pr = Inr (Some (job, ref))")
    case True
    then obtain job ref where pr: "pr = Inr (Some (job, ref))" by blast
    have c: "create d req job u = (r, t)" using assms None p pr by (simp add: Dispatch_def)
    have q: "quiet s u" using g pr by simp
    have "extends s t" "new_acts s t = new_acts u t"
      using extends_trans [OF quiet_extends [OF q]] new_acts_trans [OF quiet_extends [OF q]]
        create_acts [OF c] new_acts_quiet [OF q] by auto
    then show ?thesis using create_acts [OF c] by auto
  next
    case False
    then have "t = u" and "(\<exists>e. pr = Inl e \<and> r = Some e) \<or> pr = Inr None \<and> r = None"
      using assms None p by (auto simp: Dispatch_def split: sum.splits option.splits)
    then show ?thesis using g by (auto dest: quiet_extends)
  qed
qed

text \<open>Only an admitted build creates a Job.\<close>

lemma Dispatch_creates_only_admitted:
  assumes "Dispatch env d req trigger s = (r, t)" and "CreateJob job \<in> set (new_acts s t)"
  shows "Request_Validate (IsValidLabelValue env) req = None \<and> (\<exists>u. build_admitted env d req s job u)"
proof (cases "Request_Validate (IsValidLabelValue env) req")
  case (Some e)
  then show ?thesis using assms by (auto simp: Dispatch_def)
next
  case None
  obtain pr u where p: "prepare env d req s = (pr, u)" by fastforce
  have g: "gate_result s (pr, u)" using gate_prepare [of s env req] by (simp add: p)
  have "\<exists>ref. pr = Inr (Some (job, ref))"
  proof (cases "\<exists>j ref. pr = Inr (Some (j, ref))")
    case True
    then obtain j ref where pr: "pr = Inr (Some (j, ref))" by blast
    have c: "create d req j u = (r, t)" using assms None p pr by (simp add: Dispatch_def)
    have q: "quiet s u" using g pr by simp
    have "new_acts s t = new_acts u t"
      using new_acts_trans [OF quiet_extends [OF q]] create_acts [OF c] new_acts_quiet [OF q] by auto
    then show ?thesis using create_acts [OF c] assms(2) pr by auto
  next
    case False
    then have "t = u" and "(\<exists>e. pr = Inl e) \<or> pr = Inr None"
      using assms None p by (auto simp: Dispatch_def split: sum.splits option.splits)
    then show ?thesis using g assms(2) by (auto simp: new_acts_quiet skip_actions_def)
  qed
  with None show ?thesis using prepare_admitted p by blast
qed

text \<open>Everything up to the decision only asks.\<close>

lemma manifest_read_quiet: "manifest_read env d req s cfg imageRepo raw u \<Longrightarrow> quiet s u"
  unfolding manifest_read_def using quiet_trans quiet_Configs quiet_Manifests by blast

lemma job_rendered_quiet: "job_rendered env d req s cfg imageRepo job u \<Longrightarrow> quiet s u"
  unfolding job_rendered_def using quiet_trans manifest_read_quiet quiet_render by blast

lemma registry_asked_quiet: "registry_asked env d req s job present u \<Longrightarrow> quiet s u"
  unfolding registry_asked_def by (elim exE conjE) (meson quiet_trans job_rendered_quiet quiet_credentials quiet_Images)

lemma jobs_listed_quiet: "jobs_listed env d req s job active u \<Longrightarrow> quiet s u"
  unfolding jobs_listed_def using quiet_trans registry_asked_quiet quiet_ActiveJobs by blast

lemma created_result:
  assumes "create d req job s = (r, t)"
  shows "new_acts s t = [CreateJob job, IncBuildDispatched (creation_result (fst (Jobs d job s)))]
    \<and> (r = None \<longleftrightarrow> creation_result (fst (Jobs d job s)) \<noteq> ''error'')"
proof -
  obtain jr u where j: "Jobs d job s = (jr, u)" by fastforce
  have e: "extends s u" "new_acts s u = [CreateJob job]" using Jobs_acts [OF j] by auto
  then have "new_acts s (act x u) = [CreateJob job, x]" for x
    using new_acts_trans [OF e(1) extends_act] by simp
  then show ?thesis using assms j
    by (auto simp: create_def creation_result_def split: option.splits if_splits)
qed

lemma asked_outcome:
  assumes "Dispatch env d req trigger s = (r, t)" "registry_asked env d req s job present u"
  shows "(\<forall>e. present = Inl e \<longrightarrow> r = None \<and> new_acts s t = [IncFilterSkipped ''registry_unreachable''])
    \<and> (present = Inr True \<longrightarrow> r = None \<and> new_acts s t = [IncFilterSkipped ''image_exists''])"
  using Dispatch_asked [OF assms(2), of trigger] assms(1) quiet_act [OF registry_asked_quiet [OF assms(2)]]
  by auto

lemma listed_outcome:
  assumes "Dispatch env d req trigger s = (r, t)" "jobs_listed env d req s job active u"
  shows "if \<exists>a\<in>set active. Service a = Request_ServicePath req then r = None \<and> new_acts s t = [IncBuildDispatched ''exists'']
    else if MaxConcurrent d \<le> int (length active) then r = None \<and> new_acts s t = [IncBuildDispatched ''deferred'']
    else new_acts s t = [CreateJob job, IncBuildDispatched (creation_result (fst (Jobs d job u)))]
      \<and> (r = None \<longleftrightarrow> creation_result (fst (Jobs d job u)) \<noteq> ''error'')"
proof -
  note q = jobs_listed_quiet [OF assms(2)] and d = Dispatch_listed [OF assms(2), of trigger]
  have new: "new_acts s t = new_acts u t" if "extends u t"
    using new_acts_trans [OF quiet_extends [OF q] that] new_acts_quiet [OF q] by simp
  show ?thesis
  proof (cases "(\<exists>a\<in>set active. Service a = Request_ServicePath req) \<or> MaxConcurrent d \<le> int (length active)")
    case True
    then show ?thesis using d assms(1) quiet_act [OF q] by (auto split: if_splits)
  next
    case False
    then have "create d req job u = (r, t)" using d assms(1) by (simp split: if_splits)
    from created_result [OF this] create_acts [OF this] new show ?thesis using False by auto
  qed
qed

lemma unwanted_outcome:
  assumes "Dispatch env d req trigger s = (r, t)" "build_unwanted env d req s"
  shows "r = None \<and> new_acts s t = [IncBuildDispatched ''skipped'']"
proof -
  obtain u where "t = act (IncBuildDispatched ''skipped'') u" "r = None"
    using Dispatch_unwanted [OF assms(2), of trigger] assms(1) by auto
  moreover from this have "Acts t = Acts u @ [IncBuildDispatched ''skipped'']" by simp
  ultimately show ?thesis
    using Dispatch_outcome [OF assms(1)] by (auto simp: skip_actions_def extends_def new_acts_def elim!: prefixE)
qed

lemma admitted_listed:
  assumes "Request_Validate (IsValidLabelValue env) req = None \<and> (\<exists>u. build_admitted env d req s job u)"
  shows "\<exists>active u. jobs_listed env d req s job active u"
  using assms unfolding build_admitted_def jobs_listed_def registry_asked_def job_rendered_def manifest_read_def by metis

text \<open>Decisions that are recorded differently, one of which is taken, are told apart by the record.\<close>

lemma one_decision:
  assumes "U \<or> AE \<or> AT \<or> LS \<or> LD \<or> (\<exists>job result. LC job result) \<or> (r \<noteq> None \<and> new = [])"
    and "U \<Longrightarrow> r = None \<and> new = [IncBuildDispatched ''skipped'']"
    and "AE \<Longrightarrow> r = None \<and> new = [IncFilterSkipped ''registry_unreachable'']"
    and "AT \<Longrightarrow> r = None \<and> new = [IncFilterSkipped ''image_exists'']"
    and "LS \<Longrightarrow> r = None \<and> new = [IncBuildDispatched ''exists'']"
    and "LD \<Longrightarrow> r = None \<and> new = [IncBuildDispatched ''deferred'']"
    and "\<And>job result. LC job result \<Longrightarrow> new = [CreateJob job, IncBuildDispatched result] \<and> (r = None \<longleftrightarrow> result \<noteq> ''error'')"
  shows "(new = [IncBuildDispatched ''skipped''] \<longleftrightarrow> U)
   \<and> (new = [IncFilterSkipped ''registry_unreachable''] \<longleftrightarrow> AE)
   \<and> (new = [IncFilterSkipped ''image_exists''] \<longleftrightarrow> AT)
   \<and> (new = [IncBuildDispatched ''exists''] \<longleftrightarrow> LS)
   \<and> (new = [IncBuildDispatched ''deferred''] \<longleftrightarrow> LD)
   \<and> (\<forall>job result. new = [CreateJob job, IncBuildDispatched result] \<longleftrightarrow> LC job result)
   \<and> (new = [] \<or> (\<exists>a\<in>skip_actions. new = [a]) \<or> (\<exists>job result. new = [CreateJob job, IncBuildDispatched result]))
   \<and> (r = None \<longleftrightarrow> new \<noteq> [] \<and> (\<forall>job. new \<noteq> [CreateJob job, IncBuildDispatched ''error'']))"
  using assms(1)
proof (elim disjE exE conjE)
  fix job result assume "LC job result"
  then show ?thesis using assms(2-6) assms(7) by (auto dest: assms(7))
qed (use assms(2-6) in \<open>auto simp: skip_actions_def dest: assms(7)\<close>)

lemma Dispatch_decides:
  assumes "Dispatch env d req trigger s = (r, t)"
  shows "decisions env d req s r (new_acts s t)"
proof -
  let ?N = "new_acts s t" and ?serves = "\<lambda>active. \<exists>a\<in>set active. Service a = Request_ServicePath req"
  let ?U = "build_unwanted env d req s" and ?AE = "\<exists>job e u. registry_asked env d req s job (Inl e) u"
    and ?AT = "\<exists>job u. registry_asked env d req s job (Inr True) u"
    and ?LS = "\<exists>job active u. jobs_listed env d req s job active u \<and> ?serves active"
    and ?LD = "\<exists>job active u. jobs_listed env d req s job active u \<and> \<not> ?serves active \<and> MaxConcurrent d \<le> int (length active)"
    and ?LC = "\<lambda>job result. \<exists>active u. jobs_listed env d req s job active u \<and> \<not> ?serves active
        \<and> int (length active) < MaxConcurrent d \<and> result = creation_result (fst (Jobs d job u))"
  note asked = asked_outcome [OF assms] and listed = listed_outcome [OF assms]
  have U: "?U \<Longrightarrow> r = None \<and> ?N = [IncBuildDispatched ''skipped'']" by (rule unwanted_outcome [OF assms])
  have AE: "?AE \<Longrightarrow> r = None \<and> ?N = [IncFilterSkipped ''registry_unreachable'']" using asked by blast
  have AT: "?AT \<Longrightarrow> r = None \<and> ?N = [IncFilterSkipped ''image_exists'']" using asked by blast
  have LS: "r = None \<and> ?N = [IncBuildDispatched ''exists'']" if ex: ?LS
  proof -
    obtain job active u where a: "jobs_listed env d req s job active u" "?serves active" using ex by (elim exE conjE)
    then show ?thesis using listed [OF a(1)] by simp
  qed
  have LD: "r = None \<and> ?N = [IncBuildDispatched ''deferred'']" if ex: ?LD
  proof -
    obtain job active u where a: "jobs_listed env d req s job active u" "\<not> ?serves active" "MaxConcurrent d \<le> int (length active)"
      using ex by (elim exE conjE)
    then show ?thesis using listed [OF a(1)] by simp
  qed
  have LC: "?N = [CreateJob job, IncBuildDispatched result] \<and> (r = None \<longleftrightarrow> result \<noteq> ''error'')" if ex: "?LC job result" for job result
  proof -
    obtain active u where a: "jobs_listed env d req s job active u" "\<not> ?serves active" "int (length active) < MaxConcurrent d"
      "result = creation_result (fst (Jobs d job u))"
      using ex by (elim exE conjE)
    then show ?thesis using listed [OF a(1)] by simp
  qed
  have "r \<noteq> None \<and> ?N = []" if non: "\<not> ?U" "\<not> ?AE" "\<not> ?AT" "\<not> ?LS" "\<not> ?LD" "\<not> (\<exists>job result. ?LC job result)"
  proof -
    have none: "\<not> jobs_listed env d req s job active u" for job active u
      using non(4-6) by (meson not_le)
    then obtain e v where "Dispatch env d req trigger s = (Some e, v)"
      using Dispatch_failed [of env d req s trigger] non(1-3) by blast
    then have "r \<noteq> None" using assms by simp
    moreover have "\<forall>job. CreateJob job \<notin> set ?N"
      using Dispatch_creates_only_admitted [OF assms] none admitted_listed by blast
    ultimately show ?thesis using Dispatch_outcome [OF assms] new_acts_quiet by auto
  qed
  then have all: "?U \<or> ?AE \<or> ?AT \<or> ?LS \<or> ?LD \<or> (\<exists>job result. ?LC job result) \<or> (r \<noteq> None \<and> ?N = [])" by blast
  have none: "(\<forall>a\<in>set active. Service a \<noteq> Request_ServicePath req) \<longleftrightarrow> \<not> ?serves active" for active by blast
  show ?thesis
    unfolding decisions_def none by (rule one_decision) (fact all U AE AT LS LD LC)+
qed

end

end
