(* ===== verification/Transport.thy ===== *)
theory Transport
  imports Process
begin

text \<open>
  The HTTP boundary of the GitHub client: \<open>rateCapturingTransport\<close> of
  \<open>pkg/githubclient.go\<close> and the non-2xx log line of \<open>pkg/non2xx_log.go\<close>. A response body
  is the bytes it will deliver and the error that follows them (\<open>None\<close> is the end of the
  stream).
\<close>

record http_body =
  content :: string
  trailer :: "goerr option"

record http_request =
  Method :: string
  URL :: "(string \<times> string) option" \<comment> \<open>host and path\<close>

record http_response =
  StatusCode :: int
  Header :: "string \<Rightarrow> string"
  RespBody :: "http_body option"

section \<open>The log line\<close>

definition non2xxBodyLimit :: nat where "non2xxBodyLimit = 200"
definition non2xxAbsent :: string where "non2xxAbsent = ''absent''"
definition non2xxPeekBytes :: nat where "non2xxPeekBytes = 4096"

definition ellipsis :: string where
  "ellipsis = [CHR 0xE2, CHR 0x80, CHR 0xA6]"

definition orAbsent :: "string \<Rightarrow> string" where
  "orAbsent v = (if v = '''' then non2xxAbsent else v)"

text \<open>\<open>strings.Fields\<close> on the runes of the text: the maximal runs without white space.\<close>

fun fields_from :: "(nat \<times> string) list \<Rightarrow> string \<Rightarrow> string list" where
  "fields_from [] acc = (if acc = '''' then [] else [acc])"
| "fields_from ((r, bs) # cs) acc =
     (if IsSpace r then (if acc = '''' then fields_from cs '''' else acc # fields_from cs '''')
      else fields_from cs (acc @ bs))"

definition Fields :: "string \<Rightarrow> string list" where
  "Fields s = fields_from (chunks s) ''''"

definition invalid_chunk :: "nat \<times> string \<Rightarrow> bool" where
  "invalid_chunk p \<longleftrightarrow> fst p = RuneError \<and> length (snd p) = 1"

definition ValidString :: "string \<Rightarrow> bool" where
  "ValidString s \<longleftrightarrow> list_all (\<lambda>p. \<not> invalid_chunk p) (chunks s)"

text \<open>\<open>strings.ToValidUTF8\<close>: one replacement per run of invalid bytes.\<close>

fun to_valid :: "bool \<Rightarrow> (nat \<times> string) list \<Rightarrow> string \<Rightarrow> string" where
  "to_valid prev [] rep = ''''"
| "to_valid prev (p # ps) rep =
     (if invalid_chunk p then (if prev then '''' else rep) @ to_valid True ps rep
      else snd p @ to_valid False ps rep)"

definition ToValidUTF8 :: "string \<Rightarrow> string \<Rightarrow> string" where
  "ToValidUTF8 s rep = to_valid False (chunks s) rep"

definition bodySnippet :: "string \<Rightarrow> string" where
  "bodySnippet body =
     (let s = Join (Fields body) '' ''
      in if s = '''' then non2xxAbsent
         else (let v = (if \<not> ValidString s then ToValidUTF8 s ''?'' else s)
               in if length (chunks v) \<le> non2xxBodyLimit then v
                  else concat (map snd (take non2xxBodyLimit (chunks v))) @ ellipsis))"

definition non2xxLine :: "http_request option \<Rightarrow> http_response \<Rightarrow> string \<Rightarrow> string" where
  "non2xxLine req resp body =
     (let method = (case req of None \<Rightarrow> non2xxAbsent | Some q \<Rightarrow> Method q);
          url = (case req of None \<Rightarrow> None | Some q \<Rightarrow> URL q);
          host = (case url of None \<Rightarrow> non2xxAbsent | Some (h, _) \<Rightarrow> orAbsent h);
          path = (case url of None \<Rightarrow> non2xxAbsent | Some (_, p) \<Rightarrow> orAbsent p)
      in ''github non-2xx method='' @ method @ '' host='' @ host @ '' path='' @ path
         @ '' status='' @ Itoa (StatusCode resp)
         @ '' resource='' @ orAbsent (Header resp ''X-RateLimit-Resource'')
         @ '' remaining='' @ orAbsent (Header resp ''X-RateLimit-Remaining'')
         @ '' retry_after='' @ orAbsent (Header resp ''Retry-After'')
         @ '' body='' @ bodySnippet body)"

text \<open>
  Peeking: \<open>io.ReadAll\<close> of the first 4096 bytes. The reader sees the body's own error only
  when it comes within the limit. The replacement body is the prefix followed by the unread
  rest, or by the error that was read.
\<close>

definition read_prefix :: "http_body \<Rightarrow> string \<times> goerr option" where
  "read_prefix b = (take non2xxPeekBytes (content b),
     if length (content b) < non2xxPeekBytes then trailer b else None)"

definition peekedBody :: "http_body \<Rightarrow> http_body" where
  "peekedBody b = (case read_prefix b of (p, readErr) \<Rightarrow>
     (case readErr of
        Some e \<Rightarrow> \<lparr>content = p, trailer = Some e\<rparr>
      | None \<Rightarrow> \<lparr>content = p @ drop (length p) (content b), trailer = trailer b\<rparr>))"

definition logNon2xxResponse ::
    "http_request \<Rightarrow> http_response \<Rightarrow> 'w sys \<Rightarrow> http_response \<times> 'w sys" where
  "logNon2xxResponse req resp s =
     (if 200 \<le> StatusCode resp \<and> StatusCode resp \<le> 299 then (resp, s)
      else (case RespBody resp of
          None \<Rightarrow> (resp, logline (non2xxLine (Some req) resp '''') s)
        | Some b \<Rightarrow> (resp\<lparr>RespBody := Some (peekedBody b)\<rparr>,
                     logline (non2xxLine (Some req) resp (fst (read_prefix b))) s)))"

section \<open>The transport\<close>

definition captureRemaining :: "http_response \<Rightarrow> 'w sys \<Rightarrow> 'w sys" where
  "captureRemaining resp s =
     (let v = Header resp ''X-RateLimit-Remaining''
      in if v = '''' then s
         else (case Atoi v of Some n \<Rightarrow> s\<lparr>RateRemaining := n\<rparr> | None \<Rightarrow> s))"

text \<open>
  One round trip, after the inner transport answered: either an error (or no response), which
  passes through, or a response that is captured and logged.
\<close>

definition RoundTrip ::
    "http_request \<Rightarrow> http_response option res \<Rightarrow> 'w sys \<Rightarrow> http_response option res \<times> 'w sys" where
  "RoundTrip req inner s = (case inner of
      Inl e \<Rightarrow> (Inl e, s)
    | Inr None \<Rightarrow> (Inr None, s)
    | Inr (Some resp) \<Rightarrow>
        (case logNon2xxResponse req resp (captureRemaining resp s) of
           (resp', t) \<Rightarrow> (Inr (Some resp'), t)))"

text \<open>The exchanges of one API call (pagination aside, redirects make several).\<close>

fun observe :: "(http_request \<times> http_response option res) list \<Rightarrow> 'w sys \<Rightarrow> 'w sys" where
  "observe [] s = s"
| "observe ((q, r) # xs) s = observe xs (snd (RoundTrip q r s))"

section \<open>Facts\<close>

lemma peekedBody_id: "peekedBody b = b"
  by (cases b) (auto simp: peekedBody_def read_prefix_def split: option.splits)

lemma RoundTrip_transparent: "fst (RoundTrip req inner s) = inner"
  by (auto simp: RoundTrip_def logNon2xxResponse_def peekedBody_id
      split: sum.splits option.splits prod.splits if_splits)

lemma quiet_captureRemaining [simp]: "quiet s (captureRemaining resp s)"
  by (simp add: quiet_def captureRemaining_def Let_def split: option.split)

lemma quiet_RoundTrip: "quiet s (snd (RoundTrip req inner s))"
proof -
  have "quiet s (snd (logNon2xxResponse req resp (captureRemaining resp s)))" for resp
    using quiet_trans [OF quiet_captureRemaining quiet_logline]
    by (auto simp: logNon2xxResponse_def split: option.split)
  then show ?thesis
    by (auto simp: RoundTrip_def split: sum.splits option.splits prod.splits)
      (metis snd_conv)
qed

lemma quiet_observe: "quiet s (observe xs s)"
proof (induction xs s rule: observe.induct)
  case (2 q r xs s)
  then show ?case using quiet_trans quiet_RoundTrip by fastforce
qed simp

lemma Ext_observe: "Ext (observe xs s) = Ext s"
proof (induction xs s rule: observe.induct)
  case (2 q r xs s)
  have "Ext (snd (RoundTrip q r s)) = Ext s"
    by (auto simp: RoundTrip_def logNon2xxResponse_def captureRemaining_def Let_def
        split: sum.splits option.splits prod.splits if_splits)
  with 2 show ?case by simp
qed simp

lemma bodySnippet_nonempty: "bodySnippet body \<noteq> ''''"
proof (cases "Join (Fields body) '' '' = ''''")
    case True
    then show ?thesis by (simp add: bodySnippet_def non2xxAbsent_def)
  next
    case False
    then obtain c cs where s: "Join (Fields body) '' '' = c # cs" by (meson list.exhaust)
    have "ToValidUTF8 (c # cs) ''?'' \<noteq> ''''"
      by (auto simp: ToValidUTF8_def split: prod.splits)
    with s show ?thesis by (simp add: bodySnippet_def Let_def ellipsis_def)
qed

section \<open>Properties\<close>

text \<open>C37: the transport is transparent: the caller gets exactly the response or error of the
  inner transport, body included, although up to 4096 bytes of a failed response's body were
  read for the log. A response outside the 2xx range costs one log line, any other outcome
  none, and only a parsable remaining-quota header moves the rate reading.\<close>

theorem RoundTrip_transparent_logged:
  "fst (RoundTrip req inner s) = inner
   \<and> Log (snd (RoundTrip req inner s)) = Log s @ (case inner of
        Inr (Some resp) \<Rightarrow> if 200 \<le> StatusCode resp \<and> StatusCode resp \<le> 299 then []
          else [non2xxLine (Some req) resp (case RespBody resp of None \<Rightarrow> [] | Some b \<Rightarrow> take 4096 (content b))]
      | _ \<Rightarrow> [])
   \<and> RateRemaining (snd (RoundTrip req inner s)) = (case inner of
        Inr (Some resp) \<Rightarrow> (case Atoi (Header resp ''X-RateLimit-Remaining'') of
            Some n \<Rightarrow> n | None \<Rightarrow> RateRemaining s)
      | _ \<Rightarrow> RateRemaining s)"
proof -
  have "Atoi [] = None" by (simp add: Atoi_def)
  then have cap: "Log (captureRemaining resp s) = Log s"
    "RateRemaining (captureRemaining resp s) = (case Atoi (Header resp ''X-RateLimit-Remaining'') of
       Some n \<Rightarrow> n | None \<Rightarrow> RateRemaining s)" for resp
    by (auto simp: captureRemaining_def Let_def split: option.split)
  have "Log (snd (RoundTrip req inner s)) = Log s @ (case inner of
        Inr (Some resp) \<Rightarrow> if 200 \<le> StatusCode resp \<and> StatusCode resp \<le> 299 then []
          else [non2xxLine (Some req) resp (case RespBody resp of None \<Rightarrow> [] | Some b \<Rightarrow> take 4096 (content b))]
      | _ \<Rightarrow> [])"
    by (auto simp: RoundTrip_def logNon2xxResponse_def cap read_prefix_def non2xxPeekBytes_def
        split: sum.split option.split prod.split)
  moreover have "RateRemaining (snd (RoundTrip req inner s)) = (case inner of
        Inr (Some resp) \<Rightarrow> (case Atoi (Header resp ''X-RateLimit-Remaining'') of
            Some n \<Rightarrow> n | None \<Rightarrow> RateRemaining s)
      | _ \<Rightarrow> RateRemaining s)"
    by (auto simp: RoundTrip_def logNon2xxResponse_def cap
        split: sum.split option.split prod.split)
  ultimately show ?thesis using RoundTrip_transparent by blast
qed

end
