(* ===== verification/Github_Client.thy ===== *)
theory Github_Client
  imports Transport
begin

text \<open>
  The GitHub client: the interface \<open>GitHubClient\<close> of \<open>pkg/githubclient.go\<close> as a record of
  operations, its contract as a locale, and the production implementation over the go-github
  package. A go-github call is a parameter: it yields the HTTP exchanges it made, which all
  pass through the rate-capturing transport, and its result. \<open>maintainerconfig.Parse\<close> is a
  parameter as well. \<open>ListRepos\<close> pages until the server says there is no next page, so it
  may not return; that is \<open>None\<close>.
\<close>

record MaintainerConfig =
  McAutoRelease :: bool
  McAllowFork :: bool

definition zeroMaintainerConfig :: MaintainerConfig where
  "zeroMaintainerConfig = \<lparr>McAutoRelease = False, McAllowFork = False\<rparr>"

record 'w GitHubClient =
  ListRepos :: "'w ctx \<Rightarrow> string \<Rightarrow> 'w sys \<Rightarrow> (Repo list res \<times> 'w sys) option"
  GetMasterSHA :: "Repo \<Rightarrow> 'w sys \<Rightarrow> string res \<times> 'w sys"
  GetChangelogContent :: "Repo \<Rightarrow> 'w sys \<Rightarrow> string option res \<times> 'w sys"
  GetLatestReleaseTag :: "Repo \<Rightarrow> 'w sys \<Rightarrow> string res \<times> 'w sys"
  ListTags :: "Repo \<Rightarrow> 'w sys \<Rightarrow> string list res \<times> 'w sys"
  GetCommitEpoch :: "Repo \<Rightarrow> string \<Rightarrow> 'w sys \<Rightarrow> int res \<times> 'w sys"
  GetFileContent :: "Repo \<Rightarrow> string \<Rightarrow> string \<Rightarrow> 'w sys \<Rightarrow> string option res \<times> 'w sys"
  GetMaintainerConfig :: "Repo \<Rightarrow> 'w sys \<Rightarrow> MaintainerConfig res \<times> 'w sys"
  RateLimitRemaining :: "'w sys \<Rightarrow> int"

text \<open>The contract: a query moves nothing but the outside world, the rate reading and the log.\<close>

locale github_client =
  fixes gh :: "'w GitHubClient"
  assumes quiet_ListRepos: "ListRepos gh ctx owner s = Some (lr, t) \<Longrightarrow> quiet s t"
    and quiet_GetMasterSHA: "GetMasterSHA gh repo s = (ms, t) \<Longrightarrow> quiet s t"
    and quiet_GetChangelogContent: "GetChangelogContent gh repo s = (cc, t) \<Longrightarrow> quiet s t"
    and quiet_ListTags: "ListTags gh repo s = (lt, t) \<Longrightarrow> quiet s t"
    and quiet_GetCommitEpoch: "GetCommitEpoch gh repo ref s = (ce, t) \<Longrightarrow> quiet s t"
    and quiet_GetFileContent: "GetFileContent gh repo path ref s = (fc, t) \<Longrightarrow> quiet s t"
    and quiet_GetMaintainerConfig: "GetMaintainerConfig gh repo s = (mc, t) \<Longrightarrow> quiet s t"
begin

lemmas quiet_ops = quiet_ListRepos quiet_GetMasterSHA quiet_GetChangelogContent quiet_ListTags
  quiet_GetCommitEpoch quiet_GetFileContent quiet_GetMaintainerConfig

lemma ListRepos_keeps: "ListRepos gh ctx owner s = Some (r, t) \<Longrightarrow> Acts t = Acts s \<and> Fs t = Fs s"
  using quiet_ListRepos by (auto simp: quiet_def)

end

section \<open>The go-github package\<close>

record GhRepository =
  Archived :: bool
  Private :: bool
  OwnerLogin :: string
  GhName :: string
  GhDefaultBranch :: string
  GhFork :: bool

record GhContent =
  Size :: int
  Decoded :: "string res"

type_synonym exchanges = "(http_request \<times> http_response option res) list"

text \<open>
  A page of the installation's repositories comes with the number of the next page
  (\<open>None\<close> for a nil response, zero for the last page).
\<close>

record 'w gogithub =
  Apps_ListRepos :: "int \<Rightarrow> 'w \<Rightarrow> exchanges \<times> (GhRepository list \<times> int option) res \<times> 'w"
  Repositories_Get :: "string \<Rightarrow> string \<Rightarrow> 'w \<Rightarrow> exchanges \<times> string res \<times> 'w"
  Repositories_GetBranch :: "string \<Rightarrow> string \<Rightarrow> string \<Rightarrow> int \<Rightarrow> 'w \<Rightarrow> exchanges \<times> string res \<times> 'w"
  Repositories_GetLatestRelease :: "string \<Rightarrow> string \<Rightarrow> 'w \<Rightarrow> exchanges \<times> string res \<times> 'w"
  Repositories_ListTags :: "string \<Rightarrow> string \<Rightarrow> 'w \<Rightarrow> exchanges \<times> string list res \<times> 'w"
  Repositories_GetCommit :: "string \<Rightarrow> string \<Rightarrow> string \<Rightarrow> 'w \<Rightarrow> exchanges \<times> int option res \<times> 'w"
  Repositories_GetContents ::
    "string \<Rightarrow> string \<Rightarrow> string \<Rightarrow> string \<Rightarrow> 'w \<Rightarrow> exchanges \<times> GhContent option res \<times> 'w"
  Maintainerconfig_Parse :: "string \<Rightarrow> MaintainerConfig res"

text \<open>One API call: the world advances and the transport sees every exchange.\<close>

definition api_call :: "('w \<Rightarrow> exchanges \<times> 'a \<times> 'w) \<Rightarrow> 'w sys \<Rightarrow> 'a \<times> 'w sys" where
  "api_call f s = (case f (Ext s) of (xs, r, w) \<Rightarrow> (r, observe xs (s\<lparr>Ext := w\<rparr>)))"

section \<open>The operations\<close>

fun isRateLimitError :: "goerr \<Rightarrow> bool" where
  "isRateLimitError GhRateLimitError = True"
| "isRateLimitError GhAbuseRateLimitError = True"
| "isRateLimitError (Wrapf _ e) = isRateLimitError e"
| "isRateLimitError (StatusErr _ e) = isRateLimitError e"
| "isRateLimitError _ = False"

text \<open>\<open>errors.As\<close> an API error response with status 404.\<close>

fun isNotFoundResponse :: "goerr \<Rightarrow> bool" where
  "isNotFoundResponse (GhErrorResponse n) = (n = 404)"
| "isNotFoundResponse (Wrapf _ e) = isNotFoundResponse e"
| "isNotFoundResponse (StatusErr _ e) = isNotFoundResponse e"
| "isNotFoundResponse _ = False"

definition wrapRateLimitErr :: "goerr \<Rightarrow> string \<Rightarrow> goerr" where
  "wrapRateLimitErr e msg = (if isRateLimitError e then Sentinel ErrRateLimited else Wrapf msg e)"

definition mapGitHubRepos :: "GhRepository list \<Rightarrow> string \<Rightarrow> Repo list" where
  "mapGitHubRepos repos owner =
     map (\<lambda>r. \<lparr>Owner = OwnerLogin r, Name = GhName r, DefaultBranch = GhDefaultBranch r,
               Fork = GhFork r\<rparr>)
       (filter (\<lambda>r. \<not> Archived r \<and> OwnerLogin r = owner \<and> GhName r \<noteq> '''') repos)"

partial_function (option) listRepos_from ::
    "'w gogithub \<Rightarrow> 'w ctx \<Rightarrow> string \<Rightarrow> int \<Rightarrow> Repo list \<Rightarrow> 'w sys \<Rightarrow> (Repo list res \<times> 'w sys) option" where
  "listRepos_from api ctx owner page repos s =
     (case ctx s of Some e \<Rightarrow> Some (Inl e, s)
      | None \<Rightarrow>
        (case api_call (Apps_ListRepos api page) s of (res, t) \<Rightarrow>
          (case res of
             Inl e \<Rightarrow> Some (Inl (wrapRateLimitErr e
                        (''list installation repos for '' @ owner @ '' page='' @ Itoa page)), t)
           | Inr pg \<Rightarrow>
               (case pg of (result, next) \<Rightarrow>
                 (let repos' = repos @ mapGitHubRepos result owner
                  in if next = None \<or> next = Some 0 then Some (Inr repos', t)
                     else listRepos_from api ctx owner (the next) repos' t)))))"

definition gc_ListRepos ::
    "'w gogithub \<Rightarrow> 'w ctx \<Rightarrow> string \<Rightarrow> 'w sys \<Rightarrow> (Repo list res \<times> 'w sys) option" where
  "gc_ListRepos api ctx owner s = listRepos_from api ctx owner 0 [] s"

definition gc_GetMasterSHA :: "'w gogithub \<Rightarrow> Repo \<Rightarrow> 'w sys \<Rightarrow> string res \<times> 'w sys" where
  "gc_GetMasterSHA api repo s =
     (case (if DefaultBranch repo = '''' then
              (case api_call (Repositories_Get api (Owner repo) (Name repo)) s of
                 (Inl e, t) \<Rightarrow> (Inl (wrapRateLimitErr e (''get repo '' @ RepoString repo @ '' for default branch'')), t)
               | (Inr b, t) \<Rightarrow> (Inr b, t))
            else (Inr (DefaultBranch repo), s)) of
        (Inl e, t) \<Rightarrow> (Inl e, t)
      | (Inr branch, t) \<Rightarrow>
          (if branch = '''' then
             (Inl (Errorf (''repo '' @ RepoString repo @ '' has empty DefaultBranch'')), t)
           else
             (case api_call (Repositories_GetBranch api (Owner repo) (Name repo) branch 1) t of
                (Inl e, u) \<Rightarrow> (Inl (wrapRateLimitErr e (''get branch '' @ RepoString repo @ ''@'' @ branch)), u)
              | (Inr sha, u) \<Rightarrow> (Inr sha, u))))"

definition gc_GetLatestReleaseTag :: "'w gogithub \<Rightarrow> Repo \<Rightarrow> 'w sys \<Rightarrow> string res \<times> 'w sys" where
  "gc_GetLatestReleaseTag api repo s =
     (case api_call (Repositories_GetLatestRelease api (Owner repo) (Name repo)) s of
        (Inr tag, t) \<Rightarrow> (Inr tag, t)
      | (Inl e, t) \<Rightarrow>
          (if isNotFoundResponse e then (Inr '''', t)
           else if isRateLimitError e then (Inl (Sentinel ErrRateLimited), t)
           else (Inl (Wrapf (''get latest release '' @ RepoString repo) e), t)))"

definition gc_ListTags :: "'w gogithub \<Rightarrow> Repo \<Rightarrow> 'w sys \<Rightarrow> string list res \<times> 'w sys" where
  "gc_ListTags api repo s =
     (case api_call (Repositories_ListTags api (Owner repo) (Name repo)) s of
        (Inr tags, t) \<Rightarrow> (Inr tags, t)
      | (Inl e, t) \<Rightarrow>
          (if isNotFoundResponse e then (Inr [], t)
           else if isRateLimitError e then (Inl (Sentinel ErrRateLimited), t)
           else (Inl (Wrapf (''list tags '' @ RepoString repo) e), t)))"

definition gc_GetCommitEpoch :: "'w gogithub \<Rightarrow> Repo \<Rightarrow> string \<Rightarrow> 'w sys \<Rightarrow> int res \<times> 'w sys" where
  "gc_GetCommitEpoch api repo ref s =
     (case api_call (Repositories_GetCommit api (Owner repo) (Name repo) ref) s of
        (Inl e, t) \<Rightarrow>
          (if isRateLimitError e then (Inl (Sentinel ErrRateLimited), t)
           else (Inl (Wrapf (''get commit '' @ RepoString repo @ ''@'' @ ref) e), t))
      | (Inr None, t) \<Rightarrow>
          (Inl (Errorf (''commit '' @ RepoString repo @ ''@'' @ ref @ '' has no committer date'')), t)
      | (Inr (Some epoch), t) \<Rightarrow> (Inr epoch, t))"

definition max_file_size :: int where "max_file_size = 1024 * 1024"

definition gc_fileContent ::
    "'w gogithub \<Rightarrow> Repo \<Rightarrow> string \<Rightarrow> string \<Rightarrow> 'w sys \<Rightarrow> string option res \<times> 'w sys" where
  "gc_fileContent api repo path ref s =
     (case api_call (Repositories_GetContents api (Owner repo) (Name repo) path ref) s of
        (Inl e, t) \<Rightarrow>
          (if isNotFoundResponse e then (Inr None, t)
           else if isRateLimitError e then (Inl (Sentinel ErrRateLimited), t)
           else (Inl (Wrapf (''get '' @ path @ '' '' @ RepoString repo @ ''@'' @ ref) e), t))
      | (Inr None, t) \<Rightarrow> (Inr None, t)
      | (Inr (Some fc), t) \<Rightarrow>
          (if max_file_size < Size fc then
             (Inl (Errorf (path @ '' '' @ RepoString repo @ '' too large: '' @ Itoa (Size fc))), t)
           else (case Decoded fc of
              Inl e \<Rightarrow> (Inl (Wrapf (''decode '' @ path @ '' '' @ RepoString repo) e), t)
            | Inr decoded \<Rightarrow>
                (if max_file_size < int (length decoded) then
                   (Inl (Errorf (path @ '' '' @ RepoString repo @ '' decoded content too large'')), t)
                 else (Inr (Some decoded), t)))))"

definition gc_GetFileContent ::
    "'w gogithub \<Rightarrow> Repo \<Rightarrow> string \<Rightarrow> string \<Rightarrow> 'w sys \<Rightarrow> string option res \<times> 'w sys" where
  "gc_GetFileContent api repo path ref s =
     gc_fileContent api repo path (if ref = '''' then DefaultBranch repo else ref) s"

definition gc_GetChangelogContent :: "'w gogithub \<Rightarrow> Repo \<Rightarrow> 'w sys \<Rightarrow> string option res \<times> 'w sys" where
  "gc_GetChangelogContent api repo s = gc_fileContent api repo ''CHANGELOG.md'' (DefaultBranch repo) s"

definition gc_GetMaintainerConfig ::
    "'w gogithub \<Rightarrow> Repo \<Rightarrow> 'w sys \<Rightarrow> MaintainerConfig res \<times> 'w sys" where
  "gc_GetMaintainerConfig api repo s =
     (case gc_fileContent api repo ''.maintainer.yaml'' (DefaultBranch repo) s of
        (Inl e, t) \<Rightarrow> (Inl e, t)
      | (Inr None, t) \<Rightarrow> (Inr zeroMaintainerConfig, t)
      | (Inr (Some decoded), t) \<Rightarrow>
          (case Maintainerconfig_Parse api decoded of
             Inl e \<Rightarrow> (Inl (Wrapf (''parse .maintainer.yaml '' @ RepoString repo) e), t)
           | Inr cfg \<Rightarrow> (Inr cfg, t)))"

definition gc_RateLimitRemaining :: "'w sys \<Rightarrow> int" where
  "gc_RateLimitRemaining s = RateRemaining s"

definition NewGitHubClient :: "'w gogithub \<Rightarrow> 'w GitHubClient" where
  "NewGitHubClient api = \<lparr>
     ListRepos = gc_ListRepos api,
     GetMasterSHA = gc_GetMasterSHA api,
     GetChangelogContent = gc_GetChangelogContent api,
     GetLatestReleaseTag = gc_GetLatestReleaseTag api,
     ListTags = gc_ListTags api,
     GetCommitEpoch = gc_GetCommitEpoch api,
     GetFileContent = gc_GetFileContent api,
     GetMaintainerConfig = gc_GetMaintainerConfig api,
     RateLimitRemaining = gc_RateLimitRemaining\<rparr>"

section \<open>Facts\<close>

lemma quiet_api_call: "api_call f s = (r, t) \<Longrightarrow> quiet s t"
proof -
  have "quiet s (s\<lparr>Ext := w\<rparr>)" for w by (simp add: quiet_def)
  then show "api_call f s = (r, t) \<Longrightarrow> quiet s t"
    using quiet_trans quiet_observe by (fastforce simp: api_call_def split: prod.splits)
qed

lemma quiet_gc_fileContent: "gc_fileContent api repo path ref s = (r, t) \<Longrightarrow> quiet s t"
  by (auto simp: gc_fileContent_def split: prod.splits sum.splits option.splits if_splits
      dest: quiet_api_call)

lemma quiet_listRepos_from:
  assumes ret: "listRepos_from api ctx owner page repos s = Some (r, t)"
  shows "quiet s t"
proof -
  have "quiet s (snd (r, t))"
  proof (rule listRepos_from.raw_induct
      [where P = "\<lambda>api ctx owner page repos s x. quiet s (snd x)", OF _ ret])
    fix f :: "'a gogithub \<Rightarrow> 'a ctx \<Rightarrow> string \<Rightarrow> int \<Rightarrow> Repo list \<Rightarrow> 'a sys \<Rightarrow> (Repo list res \<times> 'a sys) option"
    fix api ctx owner page repos s x
    assume IH: "\<And>api ctx owner page repos s x. f api ctx owner page repos s = Some x \<Longrightarrow> quiet s (snd x)"
      and eq: "(case ctx s of Some e \<Rightarrow> Some (Inl e, s)
      | None \<Rightarrow>
        (case api_call (Apps_ListRepos api page) s of (res, t) \<Rightarrow>
          (case res of
             Inl e \<Rightarrow> Some (Inl (wrapRateLimitErr e
                        (''list installation repos for '' @ owner @ '' page='' @ Itoa page)), t)
           | Inr pg \<Rightarrow>
               (case pg of (result, next) \<Rightarrow>
                 (let repos' = repos @ mapGitHubRepos result owner
                  in if next = None \<or> next = Some 0 then Some (Inr repos', t)
                     else f api ctx owner (the next) repos' t))))) = Some x"
    obtain res u where c: "api_call (Apps_ListRepos api page) s = (res, u)" by fastforce
    have q: "quiet s u" by (rule quiet_api_call [OF c])
    show "quiet s (snd x)"
    proof (cases "ctx s")
      case None
      with eq c have "(case res of
             Inl e \<Rightarrow> Some (Inl (wrapRateLimitErr e
                        (''list installation repos for '' @ owner @ '' page='' @ Itoa page)), u)
           | Inr pg \<Rightarrow>
               (case pg of (result, next) \<Rightarrow>
                 (let repos' = repos @ mapGitHubRepos result owner
                  in if next = None \<or> next = Some 0 then Some (Inr repos', u)
                     else f api ctx owner (the next) repos' u))) = Some x" by simp
      then have "snd x = u \<or> (\<exists>p rs. f api ctx owner p rs u = Some x)"
        by (cases res) (auto simp: Let_def split: if_splits prod.splits)
      with q show ?thesis using IH quiet_trans by blast
    qed (use eq in auto)
  qed
  then show ?thesis by simp
qed

interpretation client: github_client "NewGitHubClient api" for api
proof unfold_locales
  fix ctx owner s lr t
  assume "ListRepos (NewGitHubClient api) ctx owner s = Some (lr, t)"
  then show "quiet s t"
    using quiet_listRepos_from by (fastforce simp: NewGitHubClient_def gc_ListRepos_def)
next
  fix repo s ms t
  assume "GetMasterSHA (NewGitHubClient api) repo s = (ms, t)"
  then show "quiet s t"
    by (auto simp: NewGitHubClient_def gc_GetMasterSHA_def
        split: prod.splits sum.splits if_splits dest!: quiet_api_call intro: quiet_trans)
next
  fix repo s lt t
  assume "ListTags (NewGitHubClient api) repo s = (lt, t)"
  then show "quiet s t"
    by (auto simp: NewGitHubClient_def gc_ListTags_def
        split: prod.splits sum.splits if_splits dest: quiet_api_call)
next
  fix repo ref s ce t
  assume "GetCommitEpoch (NewGitHubClient api) repo ref s = (ce, t)"
  then show "quiet s t"
    by (auto simp: NewGitHubClient_def gc_GetCommitEpoch_def
        split: prod.splits sum.splits option.splits if_splits dest: quiet_api_call)
next
  fix repo s mc t
  assume "GetMaintainerConfig (NewGitHubClient api) repo s = (mc, t)"
  then show "quiet s t"
    by (auto simp: NewGitHubClient_def gc_GetMaintainerConfig_def
        split: prod.splits sum.splits option.splits dest: quiet_gc_fileContent)
qed (auto simp: NewGitHubClient_def gc_GetChangelogContent_def gc_GetFileContent_def
    dest: quiet_gc_fileContent)

text \<open>A small server: two pages of repositories, a changelog, an opt-in file, two tags.\<close>

definition demo_changelog :: string where
  "demo_changelog = ''## Unreleased'' @ [CHR 0x0A] @ ''- a'' @ [CHR 0x0A] @ ''## v1.0.0'' @ [CHR 0x0A]"

definition demo_gh_repo :: "string \<Rightarrow> bool \<Rightarrow> GhRepository" where
  "demo_gh_repo nm archived = \<lparr>Archived = archived, Private = False, OwnerLogin = ''bborbe'',
     GhName = nm, GhDefaultBranch = ''master'', GhFork = False\<rparr>"

definition demo_api :: "'w gogithub" where
  "demo_api = \<lparr>
     Apps_ListRepos = (\<lambda>page w. ([], Inr (if page = 0 then ([demo_gh_repo ''kv'' False], Some 2)
        else ([demo_gh_repo ''old'' True], Some 0)), w)),
     Repositories_Get = (\<lambda>own nm w. ([], Inr ''master'', w)),
     Repositories_GetBranch = (\<lambda>own nm b n w. ([], Inr ''abc1234def'', w)),
     Repositories_GetLatestRelease = (\<lambda>own nm w. ([], Inr ''v1.0.0'', w)),
     Repositories_ListTags = (\<lambda>own nm w. ([], Inr [''v1.0.0'', ''v1.1.0''], w)),
     Repositories_GetCommit = (\<lambda>own nm ref w. ([], Inr (Some (if ref = ''v1.1.0'' then 200 else 100)), w)),
     Repositories_GetContents = (\<lambda>own nm path ref w. ([], Inr (if path = ''CHANGELOG.md''
        then Some \<lparr>Size = 30, Decoded = Inr demo_changelog\<rparr>
        else if path = ''.maintainer.yaml'' then Some \<lparr>Size = 4, Decoded = Inr ''x''\<rparr> else None), w)),
     Maintainerconfig_Parse = (\<lambda>_. Inr \<lparr>McAutoRelease = True, McAllowFork = False\<rparr>)\<rparr>"

lemma demo_api_call [simp]:
  "api_call (Apps_ListRepos demo_api page) s =
     (Inr (if page = 0 then ([demo_gh_repo ''kv'' False], Some 2) else ([demo_gh_repo ''old'' True], Some 0)), s)"
  "api_call (Repositories_Get demo_api own nm) s = (Inr ''master'', s)"
  "api_call (Repositories_GetBranch demo_api own nm b n) s = (Inr ''abc1234def'', s)"
  "api_call (Repositories_ListTags demo_api own nm) s = (Inr [''v1.0.0'', ''v1.1.0''], s)"
  "api_call (Repositories_GetCommit demo_api own nm ref) s = (Inr (Some (if ref = ''v1.1.0'' then 200 else 100)), s)"
  "api_call (Repositories_GetContents demo_api own nm path ref) s = (Inr (if path = ''CHANGELOG.md''
        then Some \<lparr>Size = 30, Decoded = Inr demo_changelog\<rparr>
        else if path = ''.maintainer.yaml'' then Some \<lparr>Size = 4, Decoded = Inr ''x''\<rparr> else None), s)"
  "Maintainerconfig_Parse demo_api raw = Inr \<lparr>McAutoRelease = True, McAllowFork = False\<rparr>"
  by (simp_all add: api_call_def demo_api_def)

lemma demo_listing:
  "gc_ListRepos demo_api (\<lambda>_. None) ''bborbe'' s =
     Some (Inr [\<lparr>Owner = ''bborbe'', Name = ''kv'', DefaultBranch = ''master'', Fork = False\<rparr>], s)"
  by (simp add: gc_ListRepos_def listRepos_from.simps mapGitHubRepos_def demo_gh_repo_def Let_def)

section \<open>Properties\<close>

text \<open>What the paging loop collects: repositories of the owner, with a name, from entries of
  served pages that are not archived.\<close>

definition listed :: "'w gogithub \<Rightarrow> string \<Rightarrow> Repo \<Rightarrow> bool" where
  "listed api owner r \<longleftrightarrow> (\<exists>page w xs gs nx w' g. Apps_ListRepos api page w = (xs, Inr (gs, nx), w')
     \<and> g \<in> set gs \<and> \<not> Archived g \<and> OwnerLogin g = owner \<and> GhName g \<noteq> []
     \<and> r = \<lparr>Owner = owner, Name = GhName g, DefaultBranch = GhDefaultBranch g, Fork = GhFork g\<rparr>)"

lemma mapGitHubRepos_listed:
  assumes "Apps_ListRepos api page w = (xs, Inr (gs, nx), w')" "r \<in> set (mapGitHubRepos gs owner)"
  shows "listed api owner r"
  using assms unfolding listed_def mapGitHubRepos_def by fastforce

lemma api_call_page:
  "api_call (Apps_ListRepos api page) s = (Inr (gs, nx), t) \<Longrightarrow>
     \<exists>xs w'. Apps_ListRepos api page (Ext s) = (xs, Inr (gs, nx), w')"
  by (auto simp: api_call_def split: prod.splits)

text \<open>One turn of the paging loop.\<close>

lemma listRepos_from_step:
  assumes "api_call (Apps_ListRepos api page) s = (x, t)"
  shows "listRepos_from api ctx owner page repos s =
    (case ctx s of Some e \<Rightarrow> Some (Inl e, s)
     | None \<Rightarrow> (case x of
         Inl e \<Rightarrow> Some (Inl (wrapRateLimitErr e
                    (''list installation repos for '' @ owner @ '' page='' @ Itoa page)), t)
       | Inr (gs, nx) \<Rightarrow>
           if nx = None \<or> nx = Some 0 then Some (Inr (repos @ mapGitHubRepos gs owner), t)
           else listRepos_from api ctx owner (the nx) (repos @ mapGitHubRepos gs owner) t))"
  by (subst listRepos_from.simps) (simp only: assms Let_def prod.case)

text \<open>One page of the listing, for a continuation \<open>f\<close> that keeps the property.\<close>

lemma listRepos_page_listed:
  assumes IH: "\<And>api ctx owner page repos s x. f api ctx owner page repos s = Some x \<Longrightarrow>
        (\<forall>r\<in>set repos. listed api owner r) \<longrightarrow>
        (\<forall>out. fst x = Inr out \<longrightarrow> (\<forall>r\<in>set out. listed api owner r))"
    and eq: "(case ctx s of Some e \<Rightarrow> Some (Inl e, s)
      | None \<Rightarrow>
        (case api_call (Apps_ListRepos api page) s of (res, t) \<Rightarrow>
          (case res of
             Inl e \<Rightarrow> Some (Inl (wrapRateLimitErr e
                        (''list installation repos for '' @ owner @ '' page='' @ Itoa page)), t)
           | Inr pg \<Rightarrow>
               (case pg of (result, next) \<Rightarrow>
                 (let repos' = repos @ mapGitHubRepos result owner
                  in if next = None \<or> next = Some 0 then Some (Inr repos', t)
                     else f api ctx owner (the next) repos' t))))) = Some x"
  shows "(\<forall>r\<in>set repos. listed api owner r) \<longrightarrow>
        (\<forall>out. fst x = Inr out \<longrightarrow> (\<forall>r\<in>set out. listed api owner r))"
proof -
  obtain res u where c: "api_call (Apps_ListRepos api page) s = (res, u)" by fastforce
  show ?thesis
  proof (cases "ctx s")
    case ok: None
    show ?thesis
    proof (cases res)
      case (Inl e)
      then have "fst x = Inl (wrapRateLimitErr e
          (''list installation repos for '' @ owner @ '' page='' @ Itoa page))"
        using eq ok c by auto
      then show ?thesis by simp
    next
      case (Inr pg)
      obtain gs nx where pg: "pg = (gs, nx)" by fastforce
      let ?repos = "repos @ mapGitHubRepos gs owner"
      obtain xs w' where "Apps_ListRepos api page (Ext s) = (xs, Inr (gs, nx), w')"
        using api_call_page c Inr pg by blast
      then have new: "\<forall>r\<in>set (mapGitHubRepos gs owner). listed api owner r"
        by (intro ballI) (rule mapGitHubRepos_listed)
      have "fst x = Inr ?repos \<or> f api ctx owner (the nx) ?repos u = Some x"
        using eq ok c Inr pg by (auto simp: Let_def split: if_splits)
      then show ?thesis
      proof
        assume "fst x = Inr ?repos"
        then show ?thesis using new by auto
      next
        assume "f api ctx owner (the nx) ?repos u = Some x"
        from IH [OF this] new show ?thesis by auto
      qed
    qed
  qed (use eq in auto)
qed

lemma listRepos_from_listed:
  assumes ret: "listRepos_from api ctx owner page repos s = Some res"
    and start: "\<forall>r\<in>set repos. listed api owner r"
  shows "\<forall>out. fst res = Inr out \<longrightarrow> (\<forall>r\<in>set out. listed api owner r)"
proof -
  have "(\<forall>r\<in>set repos. listed api owner r) \<longrightarrow>
      (\<forall>out. fst res = Inr out \<longrightarrow> (\<forall>r\<in>set out. listed api owner r))"
  proof (rule listRepos_from.raw_induct [where P = "\<lambda>api ctx owner page repos s x.
      (\<forall>r\<in>set repos. listed api owner r) \<longrightarrow>
      (\<forall>out. fst x = Inr out \<longrightarrow> (\<forall>r\<in>set out. listed api owner r))", OF _ ret])
  qed (rule listRepos_page_listed)
  with start show ?thesis by blast
qed

text \<open>Listing an owner yields only that owner's repositories, named and not archived, as
  some page of the server had them; forks are kept and marked.\<close>

theorem ListRepos_owned:
  assumes "gc_ListRepos api ctx owner s = Some (Inr repos, t)" and "r \<in> set repos"
  shows "Owner r = owner \<and> Name r \<noteq> [] \<and> (\<exists>page w xs gs nx w' g.
     Apps_ListRepos api page w = (xs, Inr (gs, nx), w') \<and> g \<in> set gs \<and> \<not> Archived g
     \<and> Fork r = GhFork g)"
proof -
  have "listed api owner r"
    using listRepos_from_listed [of api ctx owner 0 "[]" s] assms unfolding gc_ListRepos_def by fastforce
  then obtain page w xs gs nx w' g where page: "Apps_ListRepos api page w = (xs, Inr (gs, nx), w')"
    "g \<in> set gs" "\<not> Archived g" "GhName g \<noteq> []"
    and r: "r = \<lparr>Owner = owner, Name = GhName g, DefaultBranch = GhDefaultBranch g, Fork = GhFork g\<rparr>"
    unfolding listed_def by blast
  then have "Owner r = owner" "Name r \<noteq> []" "Fork r = GhFork g" by simp_all
  with page show ?thesis by blast
qed

theorem ListRepos_owned_witness:
  "Name \<lparr>Owner = ''bborbe'', Name = ''kv'', DefaultBranch = ''master'', Fork = False\<rparr> \<noteq> ''''"
  using ListRepos_owned [OF demo_listing [of "initial_sys () empty_fs"]] by fastforce

lemma listRepos_from_returns:
  assumes pages: "\<And>page w xs gs nx w'. Apps_ListRepos api page w = (xs, Inr (gs, Some nx), w') \<Longrightarrow>
      nx = 0 \<or> (page < nx \<and> nx \<le> bound)"
  shows "\<exists>res. listRepos_from api ctx owner page repos s = Some res"
proof (induction "nat (bound - page)" arbitrary: page repos s rule: less_induct)
  case less
  obtain x t where c: "api_call (Apps_ListRepos api page) s = (x, t)" by fastforce
  show ?case
  proof (cases "ctx s")
    case (Some e)
    then show ?thesis by (simp add: listRepos_from_step [OF c])
  next
    case ok: None
    show ?thesis
    proof (cases x)
      case (Inl e)
      then show ?thesis using ok by (simp add: listRepos_from_step [OF c])
    next
      case (Inr pg)
      obtain gs nx where pg: "pg = (gs, nx)" by fastforce
      show ?thesis
      proof (cases "nx = None \<or> nx = Some 0")
        case True
        then show ?thesis using ok Inr pg by (simp add: listRepos_from_step [OF c])
      next
        case False
        then obtain n where n: "nx = Some n" "n \<noteq> 0" by auto
        obtain xs w' where "Apps_ListRepos api page (Ext s) = (xs, Inr (gs, Some n), w')"
          using api_call_page c Inr pg n by blast
        then have "page < n \<and> n \<le> bound" using pages n(2) by blast
        then have "nat (bound - n) < nat (bound - page)" by simp
        from less [OF this] show ?thesis
          using ok Inr pg n by (simp add: listRepos_from_step [OF c])
      qed
    qed
  qed
qed

text \<open>Listing returns (a result or an error) when the page numbers the server announces
  grow and stay below some bound.\<close>

theorem ListRepos_terminates:
  assumes "\<And>page w xs gs nx w'. Apps_ListRepos api page w = (xs, Inr (gs, Some nx), w') \<Longrightarrow>
      nx = 0 \<or> (page < nx \<and> nx \<le> bound)"
  shows "\<exists>res t. gc_ListRepos api ctx owner s = Some (res, t)"
  using listRepos_from_returns [OF assms] unfolding gc_ListRepos_def by fastforce

theorem ListRepos_terminates_witness:
  "\<exists>res t. gc_ListRepos demo_api (\<lambda>_. None) ''bborbe'' (initial_sys () empty_fs) = Some (res, t)"
  by (rule ListRepos_terminates [where bound = 2]) (auto simp: demo_api_def split: if_splits)

text \<open>A file that is read never exceeds one MiB, neither by the size the server claims
  nor after decoding, and an absent file is no error: it has no content.\<close>

theorem GetFileContent_bound:
  assumes "gc_GetFileContent api repo path ref s = (Inr got, t)"
  shows "case got of
      Some d \<Rightarrow> int (length d) \<le> 1024 * 1024
    | None \<Rightarrow> (\<exists>xs e w. Repositories_GetContents api (Owner repo) (Name repo) path
          (if ref = [] then DefaultBranch repo else ref) (Ext s) = (xs, Inl e, w) \<and> isNotFoundResponse e)
       \<or> (\<exists>xs w. Repositories_GetContents api (Owner repo) (Name repo) path
          (if ref = [] then DefaultBranch repo else ref) (Ext s) = (xs, Inr None, w))"
  using assms
  by (auto simp: gc_GetFileContent_def gc_fileContent_def api_call_def max_file_size_def
      split: prod.splits sum.splits option.splits if_splits)

theorem GetFileContent_bound_witness:
  "int (length demo_changelog) \<le> 1024 * 1024"
proof -
  let ?repo = "\<lparr>Owner = ''bborbe'', Name = ''kv'', DefaultBranch = ''master'', Fork = False\<rparr>"
  let ?s = "initial_sys () empty_fs"
  have "gc_GetFileContent demo_api ?repo ''CHANGELOG.md'' '''' ?s = (Inr (Some demo_changelog), ?s)"
    by (simp add: gc_GetFileContent_def gc_fileContent_def max_file_size_def demo_changelog_def)
  from GetFileContent_bound [OF this] show ?thesis by simp
qed

end
