(* ===== verification/Build_Adapters.thy ===== *)
theory Build_Adapters
  imports Dispatch Github_Client
begin

text \<open>
  The adapters of \<open>pkg/buildadapters.go\<close> that connect the dispatcher to the GitHub client and
  to the cluster, and the composition \<open>CreateBuildDispatcher\<close> of \<open>pkg/factory\<close>. The cluster
  API (listing Jobs by labels, reading a Secret) and the Job deployer are parameters.
\<close>

section \<open>Repository keys\<close>

definition repoFromKey :: "string \<Rightarrow> Repo option" where
  "repoFromKey key = (case Cut key CHR ''/'' of (own, nm, ok) \<Rightarrow>
     if \<not> ok \<or> own = '''' \<or> nm = '''' then None
     else Some \<lparr>Owner = own, Name = nm, DefaultBranch = '''', Fork = False\<rparr>)"

section \<open>The cluster\<close>

record K8sJob =
  KName :: string
  KAnnotations :: "string \<rightharpoonup> string"
  Succeeded :: int
  Failed :: int
  Deleting :: bool

record 'w cluster =
  ListJobs :: "string \<Rightarrow> (string \<times> string) list \<Rightarrow> 'w \<Rightarrow> K8sJob list res \<times> 'w"
  GetSecret :: "string \<Rightarrow> string \<Rightarrow> 'w \<Rightarrow> (string \<rightharpoonup> string) res \<times> 'w"
  Deploy :: "Job \<Rightarrow> 'w \<Rightarrow> goerr option \<times> 'w"

section \<open>The adapters\<close>

definition LoadBuildJobManifest :: "'w GitHubClient \<Rightarrow> 'w ManifestLoader" where
  "LoadBuildJobManifest gh repo tag s = (case repoFromKey repo of
      None \<Rightarrow> (Inl (Errorf (''malformed repo key '' @ repo)), s)
    | Some r \<Rightarrow> GetFileContent gh r BuildJobManifestPath tag s)"

definition BuildGetFileContent :: "'w GitHubClient \<Rightarrow> 'w FileFetcher" where
  "BuildGetFileContent gh repo path ref s = (case repoFromKey repo of
      None \<Rightarrow> (Inl (Errorf (''malformed repo key '' @ repo)), s)
    | Some r \<Rightarrow> GetFileContent gh r path ref s)"

definition CommitEpoch :: "'w GitHubClient \<Rightarrow> 'w CommitEpochProvider" where
  "CommitEpoch gh repo ref s = (case repoFromKey repo of
      None \<Rightarrow> (Inl (Errorf (''malformed repo key '' @ repo)), s)
    | Some r \<Rightarrow> GetCommitEpoch gh r ref s)"

text \<open>Handing a Job to the deployer is the observable action \<open>CreateJob\<close>.\<close>

definition CreateBuildJob :: "'w cluster \<Rightarrow> 'w JobCreator" where
  "CreateBuildJob cl job s = (case world_call (Deploy cl job) (act (CreateJob job) s) of
      (None, t) \<Rightarrow> (None, t)
    | (Some e, t) \<Rightarrow>
        (if err_is JobAlreadyExistsError e then (Some (Sentinel ErrJobAlreadyExists), t)
         else (Some (Wrapf (''deploy build job '' @ JobNamespace job @ ''/'' @ JobName job) e), t)))"

definition BuildJobServiceAnnotation :: string where
  "BuildJobServiceAnnotation = ''build.benjamin-borbe.de/service''"

definition job_selector :: "string \<Rightarrow> (string \<times> string) list" where
  "job_selector tag = [(''app.kubernetes.io/component'', ''build''), (''app.kubernetes.io/version'', tag)]"

definition active_of :: "K8sJob list \<Rightarrow> ActiveJob list" where
  "active_of items =
     map (\<lambda>j. \<lparr>ActiveName = KName j,
               Service = (case KAnnotations j BuildJobServiceAnnotation of None \<Rightarrow> '''' | Some v \<Rightarrow> v)\<rparr>)
       (filter (\<lambda>j. \<not> (0 < Succeeded j \<or> 0 < Failed j) \<and> \<not> Deleting j) items)"

definition ActiveByTag :: "'w cluster \<Rightarrow> 'w JobLister" where
  "ActiveByTag cl tag s =
     (case world_call (ListJobs cl DefaultBuildNamespace (job_selector tag)) s of
        (Inl e, t) \<Rightarrow> (Inl (Wrapf (''list build jobs tag='' @ tag) e), t)
      | (Inr items, t) \<Rightarrow> (Inr (active_of items), t))"

section \<open>Registry credentials\<close>

text \<open>
  Standard base64 with padding: line breaks are skipped, every group has four symbols, and
  only the last may be padded.
\<close>

definition b64_value :: "char \<Rightarrow> nat option" where
  "b64_value c =
     (if 65 \<le> byte c \<and> byte c \<le> 90 then Some (byte c - 65)
      else if 97 \<le> byte c \<and> byte c \<le> 122 then Some (byte c - 71)
      else if is_digit c then Some (byte c + 4)
      else if c = CHR ''+'' then Some 62 else if c = CHR ''/'' then Some 63 else None)"

definition b64_group :: "nat \<Rightarrow> nat \<Rightarrow> nat \<Rightarrow> nat \<Rightarrow> string" where
  "b64_group a b c d = [char_of (a * 4 + b div 16), char_of ((b mod 16) * 16 + c div 4),
     char_of ((c mod 4) * 64 + d)]"

fun b64_decode :: "string \<Rightarrow> string option" where
  "b64_decode [] = Some ''''"
| "b64_decode (a # b # c # d # rest) =
     (case (b64_value a, b64_value b) of
        (Some x, Some y) \<Rightarrow>
          (if c = CHR ''='' then (if d = CHR ''='' \<and> rest = [] then Some (take 1 (b64_group x y 0 0)) else None)
           else (case b64_value c of None \<Rightarrow> None
             | Some z \<Rightarrow>
                 (if d = CHR ''='' then (if rest = [] then Some (take 2 (b64_group x y z 0)) else None)
                  else (case b64_value d of None \<Rightarrow> None
                    | Some w \<Rightarrow> map_option (\<lambda>r. b64_group x y z w @ r) (b64_decode rest)))))
      | _ \<Rightarrow> None)"
| "b64_decode _ = None"

definition DecodeBase64 :: "string \<Rightarrow> string option" where
  "DecodeBase64 s = b64_decode (filter (\<lambda>c. c \<noteq> CHR 0x0A \<and> c \<noteq> CHR 0x0D) s)"

definition decodeDockerAuth :: "string \<Rightarrow> (string \<times> string) option" where
  "decodeDockerAuth v = (case DecodeBase64 v of
      None \<Rightarrow> None
    | Some decoded \<Rightarrow> (case Cut decoded CHR '':'' of (u, p, ok) \<Rightarrow> if \<not> ok then None else Some (u, p)))"

definition registryAuthKeys :: "string \<Rightarrow> string list" where
  "registryAuthKeys host =
     (if host = ''registry-1.docker.io'' then
        [''https://index.docker.io/v1/'', ''index.docker.io'', ''docker.io'', ''registry-1.docker.io'']
      else [host, ''https://'' @ host])"

record auth_entry =
  Auth :: string
  AuthUsername :: string
  AuthPassword :: string

fun decode_auth_fields :: "(string \<times> json) list \<Rightarrow> auth_entry \<Rightarrow> auth_entry res" where
  "decode_auth_fields [] a = Inr a"
| "decode_auth_fields ((k, v) # ms) a =
     (case field_of [''auth'', ''username'', ''password''] k of
        None \<Rightarrow> decode_auth_fields ms a
      | Some f \<Rightarrow>
          (case decode_string (if f = ''auth'' then Auth a else if f = ''username'' then AuthUsername a
                               else AuthPassword a) v of
             Inl e \<Rightarrow> Inl e
           | Inr x \<Rightarrow> decode_auth_fields ms
               (if f = ''auth'' then a\<lparr>Auth := x\<rparr> else if f = ''username'' then a\<lparr>AuthUsername := x\<rparr>
                else a\<lparr>AuthPassword := x\<rparr>)))"

definition decode_auth :: "json \<Rightarrow> auth_entry res" where
  "decode_auth v = (let zero = \<lparr>Auth = '''', AuthUsername = '''', AuthPassword = ''''\<rparr> in case v of
      JNull \<Rightarrow> Inr zero
    | JObj ms \<Rightarrow> decode_auth_fields ms zero
    | _ \<Rightarrow> Inl (Errorf ''json: cannot unmarshal value into auth entry''))"

fun decode_auths :: "(string \<times> json) list \<Rightarrow> (string \<rightharpoonup> auth_entry) \<Rightarrow> (string \<rightharpoonup> auth_entry) res" where
  "decode_auths [] m = Inr m"
| "decode_auths ((k, v) # ms) m =
     (case decode_auth v of Inl e \<Rightarrow> Inl e | Inr a \<Rightarrow> decode_auths ms (m(k \<mapsto> a)))"

fun decode_docker_fields :: "(string \<times> json) list \<Rightarrow> (string \<rightharpoonup> auth_entry) \<Rightarrow> (string \<rightharpoonup> auth_entry) res" where
  "decode_docker_fields [] m = Inr m"
| "decode_docker_fields ((k, v) # ms) m =
     (case field_of [''auths''] k of
        None \<Rightarrow> decode_docker_fields ms m
      | Some _ \<Rightarrow>
          (case v of JNull \<Rightarrow> decode_docker_fields ms Map.empty
           | JObj es \<Rightarrow> (case decode_auths es m of Inl e \<Rightarrow> Inl e | Inr m' \<Rightarrow> decode_docker_fields ms m')
           | _ \<Rightarrow> Inl (Errorf ''json: cannot unmarshal value into auths'')))"

definition decode_docker_config :: "string \<Rightarrow> (string \<rightharpoonup> auth_entry) res" where
  "decode_docker_config raw = (case json_parse raw of
      None \<Rightarrow> Inl (Errorf ''json: syntax error'')
    | Some v \<Rightarrow> (case v of
         JNull \<Rightarrow> Inr Map.empty
       | JObj ms \<Rightarrow> decode_docker_fields ms Map.empty
       | _ \<Rightarrow> Inl (Errorf ''json: cannot unmarshal value into docker config'')))"

text \<open>The loop over the candidate keys.\<close>

definition entry_credentials :: "auth_entry \<Rightarrow> Credentials" where
  "entry_credentials a =
     (let plain = \<lparr>Username = AuthUsername a, Password = AuthPassword a\<rparr>
      in if Auth a \<noteq> '''' then
           (case decodeDockerAuth (Auth a) of Some (u, p) \<Rightarrow> \<lparr>Username = u, Password = p\<rparr> | None \<Rightarrow> plain)
         else plain)"

fun pick_credentials :: "(string \<rightharpoonup> auth_entry) \<Rightarrow> string list \<Rightarrow> Credentials" where
  "pick_credentials auths [] = noCredentials"
| "pick_credentials auths (k # ks) =
     (case auths k of
        None \<Rightarrow> pick_credentials auths ks
      | Some a \<Rightarrow> (let c = entry_credentials a
                   in if Username c = '''' \<and> Password c = '''' then pick_credentials auths ks else c))"

definition dockerConfigJSONKey :: string where
  "dockerConfigJSONKey = ''.dockerconfigjson''"

fun isK8sNotFound :: "goerr \<Rightarrow> bool" where
  "isK8sNotFound K8sNotFound = True"
| "isK8sNotFound (Wrapf _ e) = isK8sNotFound e"
| "isK8sNotFound (StatusErr _ e) = isK8sNotFound e"
| "isK8sNotFound _ = False"

definition ReadCredentials :: "'w cluster \<Rightarrow> 'w CredentialReader" where
  "ReadCredentials cl namespace secretName imageRef s =
     (case ParseImageRef imageRef of
        Inl e \<Rightarrow> (Inl (Wrapf ''parse image reference'' e), s)
      | Inr ref \<Rightarrow>
          (case world_call (GetSecret cl namespace secretName) s of
             (Inl e, t) \<Rightarrow>
               (if isK8sNotFound e then (Inr noCredentials, t)
                else (Inl (Wrapf (''get push secret '' @ namespace @ ''/'' @ secretName) e), t))
           | (Inr secret, t) \<Rightarrow>
               (case secret dockerConfigJSONKey of
                  None \<Rightarrow> (Inr noCredentials, t)
                | Some raw \<Rightarrow>
                    (case decode_docker_config raw of
                       Inl e \<Rightarrow> (Inl (Wrapf (''decode push secret '' @ namespace @ ''/'' @ secretName) e), t)
                     | Inr auths \<Rightarrow>
                         (Inr (pick_credentials auths (registryAuthKeys (Registry ref))), t)))))"

section \<open>Composition\<close>

definition build_deps_of ::
    "(string \<Rightarrow> DockerBuildConfig res) \<Rightarrow> 'w http_client \<Rightarrow> 'w GitHubClient \<Rightarrow> 'w cluster \<Rightarrow> 'w Deps" where
  "build_deps_of yaml http gh cl =
     \<lparr>Manifests = LoadBuildJobManifest gh,
      Jobs = CreateBuildJob cl,
      Images = Exists (NewRegistryImageChecker http None),
      CredentialsDep = Some (ReadCredentials cl),
      Configs = configProvider yaml (BuildGetFileContent gh),
      Epochs = CommitEpoch gh,
      ActiveJobs = ActiveByTag cl,
      MaxConcurrent = 0\<rparr>"

definition CreateBuildDispatcher ::
    "'w build_env \<Rightarrow> (string \<Rightarrow> DockerBuildConfig res) \<Rightarrow> 'w http_client \<Rightarrow> 'w GitHubClient
       \<Rightarrow> 'w cluster \<Rightarrow> 'w Dispatcher" where
  "CreateBuildDispatcher env yaml http gh cl = NewDispatcher env (build_deps_of yaml http gh cl)"

section \<open>Facts\<close>

lemma repoFromKey_RepoString:
  assumes "plain_repo r"
  shows "\<exists>q. repoFromKey (RepoString r) = Some q \<and> Owner q = Owner r \<and> Name q = Name r"
  using assms by (auto simp: repoFromKey_def RepoString_def Cut_sep plain_repo_def plain_name_def)

text \<open>The host-qualified key parses too, but into another repository.\<close>

lemma repoFromKey_Key:
  assumes "plain_repo r"
  shows "\<exists>q. repoFromKey (Key r) = Some q \<and> Owner q = ''github.com'' \<and> Name q = RepoString r"
proof -
  have "Cut (''github.com'' @ CHR ''/'' # RepoString r) CHR ''/'' = (''github.com'', RepoString r, True)"
    by (rule Cut_sep) simp
  moreover have "RepoString r \<noteq> ''''" by (simp add: RepoString_def)
  ultimately show ?thesis by (simp add: repoFromKey_def Key_RepoString)
qed

text \<open>Terminal and dying Jobs are not active; every other one is.\<close>

lemma active_of_iff:
  "a \<in> set (active_of items) \<longleftrightarrow> (\<exists>j\<in>set items. Succeeded j \<le> 0 \<and> Failed j \<le> 0 \<and> \<not> Deleting j
     \<and> ActiveName a = KName j
     \<and> Service a = (case KAnnotations j BuildJobServiceAnnotation of None \<Rightarrow> '''' | Some v \<Rightarrow> v))"
proof -
  have "set (active_of items) = (\<lambda>j. \<lparr>ActiveName = KName j, Service =
      (case KAnnotations j BuildJobServiceAnnotation of None \<Rightarrow> [] | Some v \<Rightarrow> v)\<rparr>) `
      {j \<in> set items. Succeeded j \<le> 0 \<and> Failed j \<le> 0 \<and> \<not> Deleting j}"
    by (simp add: active_of_def not_less)
  moreover have "a = \<lparr>ActiveName = n, Service = v\<rparr> \<longleftrightarrow> ActiveName a = n \<and> Service a = v" for n v
    by (cases a) auto
  ultimately show ?thesis by (auto simp: image_iff)
qed

lemma CreateBuildJob_acts:
  assumes "CreateBuildJob cl job s = (r, t)"
  shows "extends s t \<and> new_acts s t = [CreateJob job]"
proof -
  obtain e where "world_call (Deploy cl job) (act (CreateJob job) s) = (e, t)"
    using assms by (auto simp: CreateBuildJob_def split: prod.splits option.splits if_splits)
  then have q: "quiet (act (CreateJob job) s) t" by (rule quiet_world_call)
  show ?thesis
    using extends_trans [OF extends_act quiet_extends [OF q]]
      new_acts_trans [OF extends_act quiet_extends [OF q]] new_acts_quiet [OF q] by simp
qed

lemma quiet_ReadCredentials: "ReadCredentials cl ns name ref s = (r, t) \<Longrightarrow> quiet s t"
  by (auto simp: ReadCredentials_def dest!: quiet_world_call
      split: sum.splits prod.splits option.splits if_splits)

text \<open>Over any client that keeps its contract, the production dependencies keep theirs.\<close>

context github_client
begin

lemma build_deps_production: "build_deps (build_deps_of yaml http gh cl)"
proof (rule build_deps.intro)
  fix repo tag s mr t
  assume "Manifests (build_deps_of yaml http gh cl) repo tag s = (mr, t)"
  then show "quiet s t"
    by (auto simp: build_deps_of_def LoadBuildJobManifest_def dest: quiet_GetFileContent
        split: option.splits)
next
  fix ref creds s ir t
  assume "Images (build_deps_of yaml http gh cl) ref creds s = (ir, t)"
  then show "quiet s t" by (auto simp: build_deps_of_def dest: quiet_Exists)
next
  fix reader ns secret ref s cr t
  assume "CredentialsDep (build_deps_of yaml http gh cl) = Some reader"
    and "reader ns secret ref s = (cr, t)"
  then show "quiet s t" using quiet_ReadCredentials by (auto simp: build_deps_of_def)
next
  fix repo s fr t
  assume "Configs (build_deps_of yaml http gh cl) repo s = (fr, t)"
  then show "quiet s t"
    by (auto simp: build_deps_of_def configProvider_def BuildGetFileContent_def dest: quiet_GetFileContent
        split: option.splits prod.splits sum.splits if_splits)
next
  fix repo ref s er t
  assume "Epochs (build_deps_of yaml http gh cl) repo ref s = (er, t)"
  then show "quiet s t"
    by (auto simp: build_deps_of_def CommitEpoch_def dest: quiet_GetCommitEpoch split: option.splits)
next
  fix tag s ar t
  assume "ActiveJobs (build_deps_of yaml http gh cl) tag s = (ar, t)"
  then show "quiet s t"
    by (auto simp: build_deps_of_def ActiveByTag_def dest: quiet_world_call split: prod.splits sum.splits)
next
  fix job s jr t
  assume "Jobs (build_deps_of yaml http gh cl) job s = (jr, t)"
  then show "extends s t \<and> new_acts s t = [CreateJob job]"
    by (intro CreateBuildJob_acts) (simp add: build_deps_of_def)
qed

end

text \<open>The dependencies with the cap that \<open>NewDispatcher\<close> fills in.\<close>

definition production_deps ::
    "(string \<Rightarrow> DockerBuildConfig res) \<Rightarrow> 'w http_client \<Rightarrow> 'w GitHubClient \<Rightarrow> 'w cluster \<Rightarrow> 'w Deps" where
  "production_deps yaml http gh cl =
     (build_deps_of yaml http gh cl)\<lparr>MaxConcurrent := DefaultMaxConcurrentBuilds\<rparr>"

lemma CreateBuildDispatcher_eq:
  "CreateBuildDispatcher env yaml http gh cl = Dispatch env (production_deps yaml http gh cl)"
  by (simp add: CreateBuildDispatcher_def NewDispatcher_def production_deps_def build_deps_of_def)

interpretation build: build_deps "production_deps yaml http (NewGitHubClient api) cl" for yaml http api cl
  unfolding production_deps_def
  by (rule build_deps.build_deps_cap [OF client.build_deps_production])

section \<open>Base64 in the other direction\<close>

text \<open>The encoder of the secrets, as the reference for the decoder.\<close>

definition b64_symbol :: "nat \<Rightarrow> char" where
  "b64_symbol n = (if n < 26 then char_of (n + 65) else if n < 52 then char_of (n + 71)
     else if n < 62 then char_of (n - 4) else if n = 62 then CHR ''+'' else CHR ''/'')"

fun b64_encode :: "string \<Rightarrow> string" where
  "b64_encode [] = []"
| "b64_encode [a] = [b64_symbol (byte a div 4), b64_symbol ((byte a mod 4) * 16), CHR ''='', CHR ''='']"
| "b64_encode [a, b] = [b64_symbol (byte a div 4), b64_symbol ((byte a mod 4) * 16 + byte b div 16),
     b64_symbol ((byte b mod 16) * 4), CHR ''='']"
| "b64_encode (a # b # c # r) =
     b64_symbol (byte a div 4) # b64_symbol ((byte a mod 4) * 16 + byte b div 16)
     # b64_symbol ((byte b mod 16) * 4 + byte c div 64) # b64_symbol (byte c mod 64) # b64_encode r"

lemma b64_symbol_value: "n < 64 \<Longrightarrow> b64_value (b64_symbol n) = Some n"
  by (auto simp: b64_symbol_def b64_value_def is_digit_def)

lemma b64_symbol_not: "n < 64 \<Longrightarrow> b64_symbol n \<noteq> CHR ''='' \<and> b64_symbol n \<noteq> CHR 0x0A \<and> b64_symbol n \<noteq> CHR 0x0D"
  using b64_symbol_value [of n] by (auto simp: b64_value_def is_digit_def)

lemma byte_parts: "byte a div 4 < 64" "(byte a mod 4) * 16 < 64" "(byte a mod 4) * 16 + byte b div 16 < 64"
  "(byte b mod 16) * 4 < 64" "(byte b mod 16) * 4 + byte c div 64 < 64" "byte c mod 64 < 64"
proof -
  have "byte x < 256" for x by simp
  then have "byte a div 4 < 64" "byte b div 16 < 16" "byte c div 64 < 4"
    by (simp_all add: less_mult_imp_div_less)
  moreover have "byte a mod 4 < 4" "byte b mod 16 < 16" by simp_all
  ultimately show "byte a div 4 < 64" "(byte a mod 4) * 16 < 64" "(byte a mod 4) * 16 + byte b div 16 < 64"
    "(byte b mod 16) * 4 < 64" "(byte b mod 16) * 4 + byte c div 64 < 64" "byte c mod 64 < 64"
    by linarith+
qed

lemma b64_group_bytes:
  "b64_group (byte a div 4) ((byte a mod 4) * 16 + byte b div 16) ((byte b mod 16) * 4 + byte c div 64)
     (byte c mod 64) = [a, b, c]"
  "take 2 (b64_group (byte a div 4) ((byte a mod 4) * 16 + byte b div 16) ((byte b mod 16) * 4) 0) = [a, b]"
  "take 1 (b64_group (byte a div 4) ((byte a mod 4) * 16) 0 0) = [a]"
proof -
  have low: "(p * m + q) div m = p" "(p * m + q) mod m = q" if "q < m" for p q m :: nat
    using that by simp_all
  have "byte b div 16 < 16" "byte c div 64 < 4" by (simp_all add: less_mult_imp_div_less)
  note b = low [OF this(1)] and c = low [OF this(2)]
  have "byte a div 4 * 4 + ((byte a mod 4) * 16 + byte b div 16) div 16 = byte a"
    unfolding b(1) by (rule div_mult_mod_eq)
  moreover have "((byte a mod 4) * 16 + byte b div 16) mod 16 * 16
      + ((byte b mod 16) * 4 + byte c div 64) div 4 = byte b"
    unfolding b(2) c(1) by (rule div_mult_mod_eq)
  moreover have "((byte b mod 16) * 4 + byte c div 64) mod 4 * 64 + byte c mod 64 = byte c"
    unfolding c(2) by (rule div_mult_mod_eq)
  moreover have "((byte a mod 4) * 16 + byte b div 16) mod 16 * 16 + ((byte b mod 16) * 4) div 4 = byte b"
    unfolding b(2) by simp
  moreover have "byte a div 4 * 4 + ((byte a mod 4) * 16) div 16 = byte a" by simp
  ultimately show "b64_group (byte a div 4) ((byte a mod 4) * 16 + byte b div 16) ((byte b mod 16) * 4 + byte c div 64)
     (byte c mod 64) = [a, b, c]"
    "take 2 (b64_group (byte a div 4) ((byte a mod 4) * 16 + byte b div 16) ((byte b mod 16) * 4) 0) = [a, b]"
    "take 1 (b64_group (byte a div 4) ((byte a mod 4) * 16) 0 0) = [a]"
    unfolding b64_group_def by (simp_all only: char_of_char take_Suc_Cons numeral_2_eq_2 One_nat_def take0)
qed

lemma b64_decode_encode: "b64_decode (b64_encode s) = Some s"
proof (induction s rule: b64_encode.induct)
  case (2 a)
  then show ?case using b64_group_bytes(3) [of a]
    by (simp add: b64_symbol_value byte_parts del: One_nat_def take_Suc_Cons)
next
  case (3 a b)
  then show ?case using b64_group_bytes(2) [of a b]
    by (simp add: b64_symbol_value b64_symbol_not byte_parts)
next
  case (4 a b c r)
  then show ?case
    by (simp add: b64_symbol_value b64_symbol_not byte_parts b64_group_bytes)
qed simp

lemma b64_encode_no_breaks: "filter (\<lambda>c. c \<noteq> CHR 0x0A \<and> c \<noteq> CHR 0x0D) (b64_encode s) = b64_encode s"
proof (induction s rule: b64_encode.induct)
  case (4 a b c r)
  then show ?case by (simp add: b64_symbol_not byte_parts)
qed (simp_all add: b64_symbol_not byte_parts)

section \<open>Properties\<close>

text \<open>The credentials a docker client writes into a secret are read back: the base64 form of
  user, colon and password decodes to exactly this pair for every user without a colon, the
  password being any bytes.\<close>

theorem decodeDockerAuth_encode:
  assumes "CHR '':'' \<notin> set user"
  shows "decodeDockerAuth (b64_encode (user @ '':'' @ password)) = Some (user, password)"
  using Cut_sep [OF assms, of password]
  by (simp add: decodeDockerAuth_def DecodeBase64_def b64_encode_no_breaks b64_decode_encode)

theorem decodeDockerAuth_encode_witness:
  "decodeDockerAuth ''Ym90OnM6Mw=='' = Some (''bot'', ''s:3'')"
proof -
  have "b64_encode (''bot'' @ '':'' @ ''s:3'') = ''Ym90OnM6Mw==''" by code_simp
  then show ?thesis using decodeDockerAuth_encode [of "''bot''" "''s:3''"] by simp
qed

text \<open>The credentials of a registry are those of the first of its docker-config keys, in the
  order of the key list, whose entry carries any (the encoded pair before the plain one); with
  no such entry the access is anonymous.\<close>

theorem pick_credentials_first:
  "pick_credentials auths ks =
     (case filter (\<lambda>k. case auths k of None \<Rightarrow> False | Some entry \<Rightarrow> \<not> IsZero (entry_credentials entry)) ks of
        [] \<Rightarrow> noCredentials | k # _ \<Rightarrow> entry_credentials (the (auths k)))"
  by (induction ks) (auto simp: Let_def IsZero_def split: option.split)

text \<open>The adapters address the repository the request names. The bare name of a repository
  with GitHub names parses back to its owner and name, for the manifest, the configuration file
  and the commit epoch alike; the host-qualified key of the cursor parses as well, but into
  another repository, owned by the host.\<close>

theorem repoFromKey_roundtrip:
  assumes "plain_repo r"
  shows "(\<exists>q. repoFromKey (RepoString r) = Some q \<and> Owner q = Owner r \<and> Name q = Name r
      \<and> LoadBuildJobManifest gh (RepoString r) tag s = GetFileContent gh q BuildJobManifestPath tag s
      \<and> BuildGetFileContent gh (RepoString r) path ref s = GetFileContent gh q path ref s
      \<and> CommitEpoch gh (RepoString r) ref s = GetCommitEpoch gh q ref s)
    \<and> (\<exists>q. repoFromKey (Key r) = Some q \<and> Owner q = ''github.com'' \<and> Name q = RepoString r)"
proof -
  obtain q where q: "repoFromKey (RepoString r) = Some q" "Owner q = Owner r" "Name q = Name r"
    using repoFromKey_RepoString [OF assms] by blast
  then have "LoadBuildJobManifest gh (RepoString r) tag s = GetFileContent gh q BuildJobManifestPath tag s"
    "BuildGetFileContent gh (RepoString r) path ref s = GetFileContent gh q path ref s"
    "CommitEpoch gh (RepoString r) ref s = GetCommitEpoch gh q ref s"
    by (simp_all add: LoadBuildJobManifest_def BuildGetFileContent_def CommitEpoch_def)
  with q show ?thesis using repoFromKey_Key [OF assms] by blast
qed

theorem repoFromKey_roundtrip_witness:
  "\<exists>q. repoFromKey ''bborbe/kv'' = Some q \<and> Owner q = ''bborbe'' \<and> Name q = ''kv''"
proof -
  let ?r = "\<lparr>Owner = ''bborbe'', Name = ''kv'', DefaultBranch = '''', Fork = False\<rparr>"
  have "plain_repo ?r" by (simp add: plain_repo_def plain_name_def)
  from repoFromKey_roundtrip [OF this, of "NewGitHubClient demo_api" "''v1''" "initial_sys () empty_fs" "''f''" "''v1''"]
  show ?thesis by (simp add: RepoString_def) blast
qed

text \<open>C27: every gate has its own outcome, and every outcome its gate. A dispatch records that the
  build was skipped exactly when the repository did not opt in, its destinations are invalid, or
  the tag has no manifest or one that cannot be rendered completely; that the registry was
  unreachable exactly when it was asked and did not answer, and that the image exists exactly
  when it said so; that the build exists exactly when an active Job of the tag serves the
  repository, and that it is deferred exactly when none does and the cap is reached. It hands a
  Job to the cluster exactly when none does and there is room, and records what the cluster made
  of it. If nothing of this was reached it does nothing. There is no other outcome, and an error
  is returned exactly when nothing was done or the cluster refused the Job.\<close>

theorem Dispatch_outcomes:
  assumes "CreateBuildDispatcher env yaml http (NewGitHubClient api) cl req trigger s = (r, t)"
    and "d = production_deps yaml http (NewGitHubClient api) cl" and "new = new_acts s t"
  shows "Fs t = Fs s \<and> DebounceLast t = DebounceLast s
   \<and> (new = [IncBuildDispatched ''skipped''] \<longleftrightarrow> build_unwanted env d req s)
   \<and> (new = [IncFilterSkipped ''registry_unreachable''] \<longleftrightarrow> (\<exists>job e u. registry_asked env d req s job (Inl e) u))
   \<and> (new = [IncFilterSkipped ''image_exists''] \<longleftrightarrow> (\<exists>job u. registry_asked env d req s job (Inr True) u))
   \<and> (new = [IncBuildDispatched ''exists''] \<longleftrightarrow> (\<exists>job active u. jobs_listed env d req s job active u
        \<and> (\<exists>a\<in>set active. Service a = ReqRepo req)))
   \<and> (new = [IncBuildDispatched ''deferred''] \<longleftrightarrow> (\<exists>job active u. jobs_listed env d req s job active u
        \<and> (\<forall>a\<in>set active. Service a \<noteq> ReqRepo req) \<and> 3 \<le> length active))
   \<and> (\<forall>job result. new = [CreateJob job, IncBuildDispatched result] \<longleftrightarrow> (\<exists>active u. jobs_listed env d req s job active u
        \<and> (\<forall>a\<in>set active. Service a \<noteq> ReqRepo req) \<and> length active < 3
        \<and> result = creation_result (fst (CreateBuildJob cl job u))))
   \<and> (new = [] \<or> (\<exists>a\<in>skip_actions. new = [a]) \<or> (\<exists>job result. new = [CreateJob job, IncBuildDispatched result]))
   \<and> (r = None \<longleftrightarrow> new \<noteq> [] \<and> (\<forall>job. new \<noteq> [CreateJob job, IncBuildDispatched ''error'']))"
proof -
  have disp: "Dispatch env d req trigger s = (r, t)" using assms(1) unfolding CreateBuildDispatcher_eq assms(2) .
  have "extends s t" using build.Dispatch_outcome [OF disp [unfolded assms(2)]] by blast
  then have ext: "Fs t = Fs s" "DebounceLast t = DebounceLast s" by (simp_all add: extends_def)
  have serv: "Request_ServicePath req = ReqRepo req" by (simp add: Request_ServicePath_def)
  have dep: "MaxConcurrent d = 3" "Jobs d = CreateBuildJob cl"
    by (simp_all add: assms(2) production_deps_def build_deps_of_def DefaultMaxConcurrentBuilds_def)
  have cap: "3 \<le> int (length active) \<longleftrightarrow> 3 \<le> length active" "int (length active) < 3 \<longleftrightarrow> length active < 3"
    for active :: "ActiveJob list" by simp_all
  have "decisions env d req s r new"
    using build.Dispatch_decides [OF disp [unfolded assms(2)]] unfolding assms(2,3) .
  then show ?thesis unfolding decisions_def serv dep cap using ext by (intro conjI) (elim conjE, assumption)+
qed

text \<open>A platform on which a build is created: an opted-in repository with a manifest, a registry
  without the image, an idle cluster.\<close>

definition demo_build_api :: "unit gogithub" where
  "demo_build_api = demo_api\<lparr>Repositories_GetContents := (\<lambda>own nm path ref w.
     ([], Inr (Some \<lparr>Size = 4, Decoded = Inr ''kind''\<rparr>), w)),
     Repositories_ListTags := (\<lambda>own nm w. ([], Inr [''v1''], w))\<rparr>"

definition demo_build_env :: "unit build_env" where
  "demo_build_env = \<lparr>IsValidLabelValue = (\<lambda>_. []),
     YamlJob = (\<lambda>_. Inr \<lparr>JobName = ''b'', JobNamespace = '''', ContainerImages = [], JobRest = ''''\<rparr>),
     NowUTC = (\<lambda>_. demo_time 1), RandRead = (\<lambda>w. (None, w))\<rparr>"

definition demo_build_yaml :: "string \<Rightarrow> DockerBuildConfig res" where
  "demo_build_yaml raw = Inr \<lparr>DbAutoBuild = True, DbDestinations = [''ghcr''], DbPushSecret = '''',
     DbDeadlineSeconds = 0, DbDockerfile = '''', DbServicePath = '''', DbContextPath = '''',
     DbDockerfilePath = ''''\<rparr>"

definition demo_registry :: "int \<Rightarrow> unit http_client" where
  "demo_registry status = \<lparr>NewRequest = (\<lambda>_. None), Do = (\<lambda>rq w. (Inr (status, ''''), w))\<rparr>"

definition demo_idle_cluster :: "unit cluster" where
  "demo_idle_cluster = \<lparr>ListJobs = (\<lambda>ns sel w. (Inr [], w)), GetSecret = (\<lambda>ns nm w. (Inl K8sNotFound, w)),
     Deploy = (\<lambda>job w. (None, w))\<rparr>"

definition demo_job :: Job where
  "demo_job = \<lparr>JobName = ''b'', JobNamespace = ''build'', ContainerImages = [], JobRest = ''''\<rparr>"

definition demo_request :: Request where
  "demo_request = \<lparr>ReqRepo = ''bborbe/kv'', ReqTag = ''v1''\<rparr>"

lemma demo_render: "RenderJob (YamlJob demo_build_env) ''kind''
    (render_params demo_request cfg repo (NewJobName (demo_time 1) None ''bborbe/kv'' ''v1'') 100) =
    (if repo = [] then Inl (Errorf ''render build job manifest: missing image'') else Inr demo_job)"
proof -
  let ?p = "render_params demo_request cfg repo (NewJobName (demo_time 1) None ''bborbe/kv'' ''v1'') 100"
  have "drop_selector_lines ''kind'' = ''kind''"
    by (simp add: drop_selector_lines_def TokenNodeSelector_def sublist_Cons_right)
  moreover have "Replace (replacements ?p) ''kind'' = ''kind''"
    by (simp add: replacements_def token_defs Let_def)
  moreover have "FindAllTokens ''kind'' = []" by (simp add: match_token_def underscores_def)
  ultimately show ?thesis
    using NewJobName_nonempty
    by (simp add: RenderJob_def RenderParams_validate_def render_params_def demo_request_def RepoURL_def
        Request_Ref_def TagRefPrefix_def Let_def demo_build_env_def demo_job_def DefaultBuildNamespace_def)
qed

definition demo_cfg :: Config where
  "demo_cfg = \<lparr>AutoBuild = True, Destinations = [''ghcr''], PushSecret = DefaultPushSecret,
     DeadlineSeconds = DefaultDeadlineSeconds, Dockerfile = '''', ServicePath = ''bborbe/kv'',
     ContextPath = '''', DockerfilePath = ''''\<rparr>"

definition demo_deps :: "int \<Rightarrow> unit Deps" where
  "demo_deps status = production_deps demo_build_yaml (demo_registry status) (NewGitHubClient demo_build_api) demo_idle_cluster"

lemma demo_build_calls [simp]:
  "api_call (Repositories_GetContents demo_build_api own nm path ref) s = (Inr (Some \<lparr>Size = 4, Decoded = Inr ''kind''\<rparr>), s)"
  "api_call (Repositories_GetCommit demo_build_api own nm ref) s = (Inr (Some (if ref = ''v1.1.0'' then 200 else 100)), s)"
  by (simp_all add: api_call_def demo_build_api_def demo_api_def)

lemma demo_ref: "ImageReference ''ghcr.io/bborbe/kv'' ''v1'' = ''ghcr.io/bborbe/kv:v1''"
  "ParseImageRef ''ghcr.io/bborbe/kv:v1'' =
     Inr \<lparr>Registry = ''ghcr.io'', Repository = ''bborbe/kv'', RefTag = ''v1''\<rparr>"
proof -
  have n: "ref_name ''bborbe''" "ref_name ''kv''" "ref_name ''v1''"
    by (simp_all add: ref_name_def ref_char_def query_unreserved_def is_digit_def)
  show "ImageReference ''ghcr.io/bborbe/kv'' ''v1'' = ''ghcr.io/bborbe/kv:v1''"
    using ImageReference_resolved [OF n(2), of "''ghcr.io/bborbe''" "''v1''"] by simp
  have "registryHosts ''ghcr'' = Some ''ghcr.io''"
    by (simp add: registryHosts_def DestinationGHCR_def DestinationInternal_def)
  from ParseImageRef_resolved [OF this n] show "ParseImageRef ''ghcr.io/bborbe/kv:v1'' =
     Inr \<lparr>Registry = ''ghcr.io'', Repository = ''bborbe/kv'', RefTag = ''v1''\<rparr>" by simp
qed

lemma demo_gates:
  "Configs (demo_deps status) ''bborbe/kv'' s = (Inr demo_cfg, s)"
  "Manifests (demo_deps status) ''bborbe/kv'' ''v1'' s = (Inr (Some ''kind''), s)"
  "Epochs (demo_deps status) ''bborbe/kv'' ''refs/tags/v1'' s = (Inr 100, s)"
  "credentials (demo_deps status) DefaultPushSecret ''ghcr.io/bborbe/kv:v1'' s = (Inr noCredentials, s)"
  "Images (demo_deps 404) ''ghcr.io/bborbe/kv:v1'' creds s = (Inr False, s)"
  "\<exists>e. Images (demo_deps 500) ''ghcr.io/bborbe/kv:v1'' creds s = (Inl e, s)"
  "ActiveJobs (demo_deps status) ''v1'' s = (Inr [], s)"
  "Jobs (demo_deps status) job s = (None, act (CreateJob job) s)"
  "MaxConcurrent (demo_deps status) = 3"
proof -
  have key: "repoFromKey ''bborbe/kv'' = Some \<lparr>Owner = ''bborbe'', Name = ''kv'', DefaultBranch = '''', Fork = False\<rparr>"
    by (simp add: repoFromKey_def)
  show "Configs (demo_deps status) ''bborbe/kv'' s = (Inr demo_cfg, s)"
    by (simp add: demo_deps_def production_deps_def build_deps_of_def configProvider_def BuildGetFileContent_def
        key NewGitHubClient_def gc_GetFileContent_def gc_fileContent_def max_file_size_def ParseBuildConfig_def
        demo_build_yaml_def demo_cfg_def orDefault_def orDefaultInt_def)
  show "Manifests (demo_deps status) ''bborbe/kv'' ''v1'' s = (Inr (Some ''kind''), s)"
    by (simp add: demo_deps_def production_deps_def build_deps_of_def LoadBuildJobManifest_def
        key NewGitHubClient_def gc_GetFileContent_def gc_fileContent_def max_file_size_def)
  show "Epochs (demo_deps status) ''bborbe/kv'' ''refs/tags/v1'' s = (Inr 100, s)"
    by (simp add: demo_deps_def production_deps_def build_deps_of_def CommitEpoch_def
        key NewGitHubClient_def gc_GetCommitEpoch_def)
  show "credentials (demo_deps status) DefaultPushSecret ''ghcr.io/bborbe/kv:v1'' s = (Inr noCredentials, s)"
    by (simp add: demo_deps_def production_deps_def build_deps_of_def credentials_def ReadCredentials_def
        DefaultPushSecret_def demo_ref demo_idle_cluster_def world_call_def)
  show "Images (demo_deps 404) ''ghcr.io/bborbe/kv:v1'' creds s = (Inr False, s)"
    "\<exists>e. Images (demo_deps 500) ''ghcr.io/bborbe/kv:v1'' creds s = (Inl e, s)"
    by (simp_all add: demo_deps_def production_deps_def build_deps_of_def Exists_def demo_ref demo_registry_def
        registry_authorization_def dockerHubHost_def send_def)
  show "ActiveJobs (demo_deps status) ''v1'' s = (Inr [], s)"
    by (simp add: demo_deps_def production_deps_def build_deps_of_def ActiveByTag_def demo_idle_cluster_def
        world_call_def active_of_def)
  show "Jobs (demo_deps status) job s = (None, act (CreateJob job) s)"
    by (simp add: demo_deps_def production_deps_def build_deps_of_def CreateBuildJob_def demo_idle_cluster_def
        world_call_def)
  show "MaxConcurrent (demo_deps status) = 3"
    by (simp add: demo_deps_def production_deps_def DefaultMaxConcurrentBuilds_def)
qed

lemma demo_req: "ReqRepo demo_request = ''bborbe/kv''" "ReqTag demo_request = ''v1''"
    "Request_Ref demo_request = ''refs/tags/v1''" "Request_ServicePath demo_request = ''bborbe/kv''"
  by (simp_all add: demo_request_def Request_Ref_def TagRefPrefix_def Request_ServicePath_def)

lemma demo_push_secret: "PushSecret demo_cfg = DefaultPushSecret"
  by (simp add: demo_cfg_def)

lemma demo_request_valid: "Request_Validate (IsValidLabelValue demo_build_env) demo_request = None"
  by (simp add: Request_Validate_def demo_req demo_build_env_def)

lemma demo_prepare:
  "prepare demo_build_env (demo_deps status) demo_request s
   = preflight (demo_deps status) demo_request demo_cfg ''ghcr.io/bborbe/kv'' demo_job s"
proof -
  have cfg: "AutoBuild demo_cfg" "Config_Validate demo_cfg = None"
    "ImageRepositoryFor demo_cfg ''bborbe/kv'' = Inr ''ghcr.io/bborbe/kv''"
    by (simp_all add: demo_cfg_def Config_Validate_None ValidateDestination_def registryHosts_def
        DestinationGHCR_def DestinationInternal_def DestinationDockerHub_def ImageRepositoryFor_def
        ImageRepository_def)
  have env: "NowUTC demo_build_env w = demo_time 1" "RandRead demo_build_env w = (None, w)" for w
    by (simp_all add: demo_build_env_def)
  have "render demo_build_env (demo_deps status) ''kind'' demo_request demo_cfg ''ghcr.io/bborbe/kv'' s = (Inr demo_job, s)"
    using demo_render [of demo_cfg "''ghcr.io/bborbe/kv''"] by (simp add: render_def demo_req demo_gates env)
  then show ?thesis by (simp add: prepare_def demo_req demo_gates cfg)
qed

lemma demo_build_dispatch:
  "CreateBuildDispatcher demo_build_env demo_build_yaml (demo_registry 404) (NewGitHubClient demo_build_api)
     demo_idle_cluster demo_request TriggerPoll s
   = (None, act (IncBuildDispatched ''created'') (act (CreateJob demo_job) s))"
  unfolding CreateBuildDispatcher_eq demo_deps_def [symmetric]
  by (simp add: Dispatch_def demo_prepare demo_request_valid preflight_def admit_def create_def demo_req demo_gates demo_ref
      demo_push_secret)

text \<open>The same platform with a registry that answers 500.\<close>

lemma demo_unreachable_dispatch:
  "CreateBuildDispatcher demo_build_env demo_build_yaml (demo_registry 500) (NewGitHubClient demo_build_api)
     demo_idle_cluster demo_request TriggerPoll s
   = (None, act (IncFilterSkipped ''registry_unreachable'') s)"
proof -
  obtain e where "Images (demo_deps 500) ''ghcr.io/bborbe/kv:v1'' noCredentials s = (Inl e, s)"
    using demo_gates(6) by blast
  then show ?thesis
    unfolding CreateBuildDispatcher_eq demo_deps_def [symmetric]
    by (simp add: Dispatch_def demo_prepare demo_request_valid preflight_def demo_req demo_gates demo_ref demo_push_secret)
qed

theorem Dispatch_outcomes_witness:
  "(\<exists>active u. jobs_listed demo_build_env (demo_deps 404) demo_request (initial_sys () empty_fs) demo_job active u
      \<and> length active < 3)
   \<and> \<not> build_unwanted demo_build_env (demo_deps 404) demo_request (initial_sys () empty_fs)
   \<and> (\<exists>job e u. registry_asked demo_build_env (demo_deps 500) demo_request (initial_sys () empty_fs) job (Inl e) u)"
proof -
  let ?s = "initial_sys () empty_fs"
  have new: "new_acts ?s (act (IncBuildDispatched ''created'') (act (CreateJob demo_job) ?s))
      = [CreateJob demo_job, IncBuildDispatched ''created'']" by (simp add: new_acts_def)
  note here = Dispatch_outcomes [OF demo_build_dispatch [of ?s] demo_deps_def refl, unfolded new]
    and down = Dispatch_outcomes [OF demo_unreachable_dispatch [of ?s] demo_deps_def refl, unfolded new_acts_act]
  have "\<exists>active u. jobs_listed demo_build_env (demo_deps 404) demo_request ?s demo_job active u \<and> length active < 3"
    using here [THEN conjunct2, THEN conjunct2, THEN conjunct2, THEN conjunct2, THEN conjunct2, THEN conjunct2, THEN conjunct2, THEN conjunct1, THEN spec, THEN spec, THEN iffD1, OF refl] by (elim exE conjE) blast
  moreover have "\<not> build_unwanted demo_build_env (demo_deps 404) demo_request ?s" using here [THEN conjunct2, THEN conjunct2, THEN conjunct1] by simp
  moreover have "\<exists>job e u. registry_asked demo_build_env (demo_deps 500) demo_request ?s job (Inl e) u" using down [THEN conjunct2, THEN conjunct2, THEN conjunct2, THEN conjunct1] by simp
  ultimately show ?thesis by blast
qed

text \<open>
  What was true when a Job went to the cluster: the request names a repository and a valid tag;
  the repository's file on its default branch opts in and lists known destinations only; it has
  a manifest at the tag, which renders to exactly this Job; the registry said that the image of
  the tag is missing; no active Job of the tag serves the repository, and fewer than three Jobs
  of the tag are active. The state is the one in which the dispatcher was called.
\<close>

definition job_admitted ::
    "'w build_env \<Rightarrow> (string \<Rightarrow> DockerBuildConfig res) \<Rightarrow> 'w http_client \<Rightarrow> 'w gogithub \<Rightarrow> 'w cluster
       \<Rightarrow> Request \<Rightarrow> 'w sys \<Rightarrow> Job \<Rightarrow> bool" where
  "job_admitted env yaml http api cl req s job \<longleftrightarrow> ReqRepo req \<noteq> [] \<and> ReqTag req \<noteq> [] \<and> IsValidLabelValue env (ReqTag req) = []
    \<and> (\<exists>cfg s1 host raw s2 now rnd epoch creds s4 s5 items w.
        configProvider yaml (BuildGetFileContent (NewGitHubClient api)) (ReqRepo req) s = (Inr cfg, s1)
      \<and> AutoBuild cfg \<and> (\<forall>d\<in>set (Destinations cfg). registryHosts d \<noteq> None)
      \<and> registryHosts (hd (Destinations cfg)) = Some host
      \<and> LoadBuildJobManifest (NewGitHubClient api) (ReqRepo req) (ReqTag req) s1 = (Inr (Some raw), s2) \<and> raw \<noteq> []
      \<and> RenderJob (YamlJob env) raw (render_params req cfg (host @ ''/'' @ ReqRepo req)
            (NewJobName now rnd (ReqRepo req) (ReqTag req)) epoch) = Inr job
      \<and> Exists http (ImageReference (host @ ''/'' @ ReqRepo req) (ReqTag req)) creds s4 = (Inr False, s5)
      \<and> ListJobs cl ''build'' (job_selector (ReqTag req)) (Ext s5) = (Inr items, w)
      \<and> (\<forall>j\<in>set (active_of items). Service j \<noteq> ReqRepo req) \<and> length (active_of items) < 3)"

lemma Dispatch_admitted:
  assumes "CreateBuildDispatcher env yaml http (NewGitHubClient api) cl req trigger s = (r, t)"
    and "CreateJob job \<in> set (new_acts s t)"
  shows "job_admitted env yaml http api cl req s job"
proof -
  let ?d = "production_deps yaml http (NewGitHubClient api) cl"
  have dep: "Configs ?d = configProvider yaml (BuildGetFileContent (NewGitHubClient api))"
    "Manifests ?d = LoadBuildJobManifest (NewGitHubClient api)" "Images ?d = Exists http"
    "ActiveJobs ?d = ActiveByTag cl" "MaxConcurrent ?d = 3"
    by (simp_all add: production_deps_def build_deps_of_def DefaultMaxConcurrentBuilds_def)
  have adm: "Request_Validate (IsValidLabelValue env) req = None \<and> (\<exists>u. build_admitted env ?d req s job u)"
    using assms unfolding CreateBuildDispatcher_eq by (rule build.Dispatch_creates_only_admitted)
  then obtain cfg s1 imageRepo raw s2 s3 creds s4 s5 active u where
    g: "Configs ?d (ReqRepo req) s = (Inr cfg, s1)" "AutoBuild cfg" "Config_Validate cfg = None"
      "ImageRepositoryFor cfg (ReqRepo req) = Inr imageRepo"
      "Manifests ?d (ReqRepo req) (ReqTag req) s1 = (Inr (Some raw), s2)" "raw \<noteq> []"
      "render env ?d raw req cfg imageRepo s2 = (Inr job, s3)"
      "Images ?d (ImageReference imageRepo (ReqTag req)) creds s4 = (Inr False, s5)"
      "ActiveJobs ?d (ReqTag req) s5 = (Inr active, u)"
      "\<forall>a\<in>set active. Service a \<noteq> Request_ServicePath req" "int (length active) < MaxConcurrent ?d"
    unfolding build_admitted_def by blast
  obtain host where host: "registryHosts (hd (Destinations cfg)) = Some host" "imageRepo = host @ ''/'' @ ReqRepo req"
    using ImageRepositoryFor_validated [OF g(3), of "ReqRepo req"] g(4) by auto
  have known: "\<forall>d\<in>set (Destinations cfg). registryHosts d \<noteq> None"
    using g(3) by (auto simp: Config_Validate_None list_all_iff ValidateDestination_def)
  obtain epoch now rnd where r: "RenderJob (YamlJob env) raw (render_params req cfg imageRepo
      (NewJobName now rnd (ReqRepo req) (ReqTag req)) epoch) = Inr job"
    using g(7) by (auto simp: render_def Let_def split: prod.splits sum.splits)
  obtain items w where l: "ListJobs cl ''build'' (job_selector (ReqTag req)) (Ext s5) = (Inr items, w)"
    and a: "active = active_of items"
    using g(9) unfolding dep
    by (auto simp: ActiveByTag_def world_call_def DefaultBuildNamespace_def split: prod.splits sum.splits)
  have "length active < 3" using g(11) unfolding dep by simp
  moreover have "\<forall>a\<in>set active. Service a \<noteq> ReqRepo req" using g(10) by (simp add: Request_ServicePath_def)
  ultimately show ?thesis unfolding job_admitted_def
    using adm g(1,2,5,6,8) r l host(1) known unfolding dep a host(2) Request_Validate_None by blast
qed

text \<open>C14: a Job only goes to the cluster when every gate let it through: whenever a call of the
  dispatcher creates a Job, the request, the configuration, the manifest, the registry and the
  Jobs of the cluster admitted it, in the state in which the dispatcher was called.\<close>

theorem Dispatch_builds_only_admitted:
  assumes "CreateBuildDispatcher env yaml http (NewGitHubClient api) cl req trigger s = (r, t)"
    and "CreateJob job \<in> set (new_acts s t)"
  shows "job_admitted env yaml http api cl req s job"
  by (rule Dispatch_admitted) (fact assms)+

theorem Dispatch_builds_only_admitted_witness:
  "job_admitted demo_build_env demo_build_yaml (demo_registry 404) demo_build_api demo_idle_cluster demo_request
     (initial_sys () empty_fs) demo_job"
  using Dispatch_builds_only_admitted [OF demo_build_dispatch, of demo_job "initial_sys () empty_fs"]
  by (simp add: new_acts_def)

end
