(* ===== verification/Backstop.thy ===== *)
theory Backstop
  imports Build_Adapters
begin

text \<open>
  The tag backstop of \<open>pkg/backstop.go\<close>: it picks the newest tag of a repository that the
  cursor does not name and dispatches a build for it.
\<close>

type_synonym 'w TagBackstop = "'w ctx \<Rightarrow> Repo \<Rightarrow> string \<Rightarrow> 'w sys \<Rightarrow> string res \<times> 'w sys"

text \<open>The scan loop, with the best tag so far and its epoch.\<close>

fun scan_tags ::
    "'w GitHubClient \<Rightarrow> 'w ctx \<Rightarrow> Repo \<Rightarrow> string \<Rightarrow> int \<Rightarrow> string list \<Rightarrow> string \<Rightarrow> int \<Rightarrow> 'w sys
       \<Rightarrow> string res \<times> 'w sys" where
  "scan_tags gh ctx repo lastBuiltTag lastEpoch [] best bestEpoch s = (Inr best, s)"
| "scan_tags gh ctx repo lastBuiltTag lastEpoch (tag # tags) best bestEpoch s =
     (case ctx s of
        Some e \<Rightarrow> (Inl (Wrapf ''scan tags cancelled'' e), s)
      | None \<Rightarrow>
          (if tag = lastBuiltTag then scan_tags gh ctx repo lastBuiltTag lastEpoch tags best bestEpoch s
           else (case GetCommitEpoch gh repo tag s of
               (Inl e, t) \<Rightarrow> (Inl (Wrapf (''epoch candidate tag='' @ tag) e), t)
             | (Inr epoch, t) \<Rightarrow>
                 (if lastEpoch \<le> epoch \<and> (best = '''' \<or> bestEpoch < epoch)
                  then scan_tags gh ctx repo lastBuiltTag lastEpoch tags tag epoch t
                  else scan_tags gh ctx repo lastBuiltTag lastEpoch tags best bestEpoch t))))"

definition newestUnbuiltTag :: "'w GitHubClient \<Rightarrow> 'w TagBackstop" where
  "newestUnbuiltTag gh ctx repo lastBuiltTag s =
     (case ListTags gh repo s of
        (Inl e, t) \<Rightarrow> (Inl e, t)
      | (Inr tags, t) \<Rightarrow>
          (if length tags = 0 then (Inr '''', t)
           else if hd tags = lastBuiltTag then (Inr '''', t)
           else (case (if lastBuiltTag \<noteq> '''' \<and> lastBuiltTag \<in> set tags
                       then GetCommitEpoch gh repo lastBuiltTag t else (Inr (- 1), t)) of
               (Inl e, u) \<Rightarrow> (Inl (Wrapf (''epoch last built tag='' @ lastBuiltTag) e), u)
             | (Inr lastEpoch, u) \<Rightarrow> scan_tags gh ctx repo lastBuiltTag lastEpoch tags '''' 0 u)))"

definition tagBackstop_Poll :: "'w GitHubClient \<Rightarrow> 'w Dispatcher \<Rightarrow> 'w TagBackstop" where
  "tagBackstop_Poll gh dispatch ctx repo lastBuiltTag s =
     (case newestUnbuiltTag gh ctx repo lastBuiltTag s of
        (Inl e, t) \<Rightarrow> (Inl (Wrapf (''resolve newest tag repo='' @ Key repo) e), t)
      | (Inr tag, t) \<Rightarrow>
          (if tag = '''' then (Inr '''', t)
           else (case dispatch \<lparr>ReqRepo = RepoString repo, ReqTag = tag\<rparr> TriggerPoll t of
               (Some e, u) \<Rightarrow> (Inl (Wrapf (''backstop dispatch repo='' @ Key repo @ '' tag='' @ tag) e), u)
             | (None, u) \<Rightarrow> (Inr tag, u))))"

definition NoopTagBackstop :: "'w TagBackstop" where
  "NoopTagBackstop ctx repo lastBuiltTag s = (Inr '''', s)"

definition NewTagBackstop :: "'w GitHubClient \<Rightarrow> 'w Dispatcher option \<Rightarrow> 'w TagBackstop" where
  "NewTagBackstop gh dispatcher = (case dispatcher of
      None \<Rightarrow> NoopTagBackstop | Some dispatch \<Rightarrow> tagBackstop_Poll gh dispatch)"

section \<open>The choice\<close>

text \<open>
  The choice as a pure function of the page with the epochs that were read: the entries at
  least as new as the baseline, and of these the first with the largest epoch.
\<close>

definition newest :: "int \<Rightarrow> (string \<times> int) list \<Rightarrow> string \<times> int \<Rightarrow> string \<times> int" where
  "newest lastEpoch seen start =
     foldl (\<lambda>(best, bestEpoch) (tag, epoch).
        if lastEpoch \<le> epoch \<and> (best = '''' \<or> bestEpoch < epoch) then (tag, epoch) else (best, bestEpoch))
       start seen"

lemma newest_max:
  assumes "fst start \<noteq> '''' \<longrightarrow> lastEpoch \<le> snd start" "'''' \<notin> fst ` set seen"
    and "newest lastEpoch seen start = (best, bestEpoch)" "best \<noteq> ''''"
  shows "(best, bestEpoch) \<in> insert start (set seen) \<and> lastEpoch \<le> bestEpoch
    \<and> (fst start \<noteq> '''' \<longrightarrow> snd start \<le> bestEpoch) \<and> (\<forall>p\<in>set seen. snd p \<le> bestEpoch)"
  using assms
proof (induction seen arbitrary: start)
  case Nil
  then show ?case by (auto simp: newest_def)
next
  case (Cons p seen)
  obtain tag epoch where p: "p = (tag, epoch)" by fastforce
  obtain b e where st: "start = (b, e)" by fastforce
  define start' where "start' = (if lastEpoch \<le> epoch \<and> (b = '''' \<or> e < epoch) then (tag, epoch) else (b, e))"
  have "newest lastEpoch seen start' = (best, bestEpoch)"
    using Cons.prems(3) by (simp add: newest_def p st start'_def)
  moreover have "fst start' \<noteq> '''' \<longrightarrow> lastEpoch \<le> snd start'"
    using Cons.prems(1) by (simp add: start'_def st)
  ultimately have IH: "(best, bestEpoch) \<in> insert start' (set seen) \<and> lastEpoch \<le> bestEpoch
    \<and> (fst start' \<noteq> '''' \<longrightarrow> snd start' \<le> bestEpoch) \<and> (\<forall>p\<in>set seen. snd p \<le> bestEpoch)"
    using Cons.IH [of start'] Cons.prems(2,4) by auto
  have tag: "tag \<noteq> ''''" using Cons.prems(2) p by force
  show ?case
  proof (cases "lastEpoch \<le> epoch \<and> (b = '''' \<or> e < epoch)")
    case True
    then have s': "start' = (tag, epoch)" by (simp add: start'_def)
    show ?thesis using IH tag True unfolding s' p st by auto
  next
    case False
    then have s': "start' = (b, e)" by (auto simp: start'_def)
    have "epoch \<le> bestEpoch"
    proof (cases "b = ''''")
      case True
      then show ?thesis using False IH by auto
    next
      case False': False
      then show ?thesis using False IH s' by auto
    qed
    then show ?thesis using IH unfolding s' p st by auto
  qed
qed

text \<open>A scan that succeeds computes this function of what the client answered.\<close>

lemma scan_tags_newest:
  assumes "scan_tags gh ctx repo l lastEpoch tags best bestEpoch s = (Inr r, t)"
  shows "\<exists>seen. map fst seen = filter (\<lambda>tag. tag \<noteq> l) tags
    \<and> (\<forall>(tag, e)\<in>set seen. \<exists>u v. GetCommitEpoch gh repo tag u = (Inr e, v))
    \<and> r = fst (newest lastEpoch seen (best, bestEpoch))"
  using assms
proof (induction gh ctx repo l lastEpoch tags best bestEpoch s rule: scan_tags.induct)
  case (1 gh ctx repo l lastEpoch best bestEpoch s)
  then show ?case by (simp add: newest_def)
next
  case (2 gh ctx repo l lastEpoch tag tags best bestEpoch s)
  have c: "ctx s = None" using 2(4) by (auto split: option.splits)
  show ?case
  proof (cases "tag = l")
    case True
    then show ?thesis using 2(1) [OF c] 2(4) c by auto
  next
    case False
    obtain e u where ge: "GetCommitEpoch gh repo tag s = (Inr e, u)"
      using 2(4) c False by (auto split: prod.splits sum.splits)
    let ?best = "if lastEpoch \<le> e \<and> (best = '''' \<or> bestEpoch < e) then tag else best"
    let ?ep = "if lastEpoch \<le> e \<and> (best = '''' \<or> bestEpoch < e) then e else bestEpoch"
    have "scan_tags gh ctx repo l lastEpoch tags ?best ?ep u = (Inr r, t)"
      using 2(4) c False ge by (auto split: if_splits)
    then obtain seen where "map fst seen = filter (\<lambda>tag. tag \<noteq> l) tags"
      and "\<forall>(tag, e)\<in>set seen. \<exists>u v. GetCommitEpoch gh repo tag u = (Inr e, v)"
      and "r = fst (newest lastEpoch seen (?best, ?ep))"
      using 2(2,3) [OF c False ge [symmetric] refl] by (auto split: if_splits)
    then show ?thesis using ge False
      by (intro exI [of _ "(tag, e) # seen"]) (auto simp: newest_def)
  qed
qed

text \<open>
  The result of the choice. An epoch read for a tag is an answer the client gave in some
  state of the scan.
\<close>

definition epoch_read :: "'w GitHubClient \<Rightarrow> Repo \<Rightarrow> string \<Rightarrow> int \<Rightarrow> bool" where
  "epoch_read gh repo tag e \<longleftrightarrow> (\<exists>u v. GetCommitEpoch gh repo tag u = (Inr e, v))"

lemma newestUnbuiltTag_newest:
  assumes new: "newestUnbuiltTag gh ctx repo l s = (Inr best, t)" and nb: "best \<noteq> ''''"
    and tags: "ListTags gh repo s = (Inr tags, t0)" and ne: "'''' \<notin> set tags"
  shows "best \<in> set tags \<and> best \<noteq> l \<and> hd tags \<noteq> l \<and> (\<exists>e. epoch_read gh repo best e
     \<and> (\<forall>tag\<in>set tags. \<exists>e'. epoch_read gh repo tag e' \<and> e' \<le> e))"
proof -
  have hd: "tags \<noteq> []" "hd tags \<noteq> l"
    using new nb by (auto simp: newestUnbuiltTag_def tags split: if_splits)
  obtain le u where scan: "scan_tags gh ctx repo l le tags '''' 0 u = (Inr best, t)"
    and le: "l \<in> set tags \<longrightarrow> epoch_read gh repo l le"
  proof (cases "l \<noteq> '''' \<and> l \<in> set tags")
    case True
    obtain er u where ge: "GetCommitEpoch gh repo l t0 = (er, u)" by fastforce
    then obtain e where "er = Inr e" "scan_tags gh ctx repo l e tags '''' 0 u = (Inr best, t)"
      using new hd True by (cases er) (simp_all add: newestUnbuiltTag_def tags)
    with that [of e u] ge show ?thesis unfolding epoch_read_def by blast
  next
    case False
    then have "scan_tags gh ctx repo l (- 1) tags '''' 0 t0 = (Inr best, t)"
      using new hd by (auto simp: newestUnbuiltTag_def tags split: if_splits)
    with that [of "- 1" t0] False ne show ?thesis by blast
  qed
  obtain seen where seen: "map fst seen = filter (\<lambda>tag. tag \<noteq> l) tags"
    and read: "\<forall>(tag, e)\<in>set seen. epoch_read gh repo tag e"
    and best: "best = fst (newest le seen ('''', 0))"
    using scan_tags_newest [OF scan] unfolding epoch_read_def by blast
  have img: "fst ` set seen = {tag \<in> set tags. tag \<noteq> l}"
    using arg_cong [OF seen, of set] by simp
  obtain be where be: "newest le seen ('''', 0) = (best, be)"
    using best by (metis prod.collapse)
  have "'''' \<notin> fst ` set seen" using ne unfolding img by simp
  then have max: "(best, be) \<in> set seen" "le \<le> be" "\<forall>p\<in>set seen. snd p \<le> be"
    using newest_max [OF _ _ be nb] nb by auto
  have in_tags: "best \<in> {tag \<in> set tags. tag \<noteq> l}"
    unfolding img [symmetric] using max(1) by (rule image_eqI [rotated]) simp
  have "\<exists>e'. epoch_read gh repo tag e' \<and> e' \<le> be" if t: "tag \<in> set tags" for tag
  proof (cases "tag = l")
    case True
    then show ?thesis using le max(2) t by blast
  next
    case False
    then have "tag \<in> fst ` set seen" using t unfolding img by simp
    then obtain e' where "(tag, e') \<in> set seen" by auto
    then show ?thesis using read max(3) by fastforce
  qed
  moreover have "epoch_read gh repo best be" using read max(1) by blast
  ultimately show ?thesis using in_tags hd(2) by blast
qed

section \<open>Contracts\<close>

text \<open>The actions of the build path.\<close>

fun build_action :: "action \<Rightarrow> bool" where
  "build_action (CreateJob job) = True"
| "build_action (IncBuildDispatched result) =
     (result \<in> {''created'', ''exists'', ''skipped'', ''deferred'', ''error''})"
| "build_action (IncFilterSkipped reason) = (reason = ''image_exists'' \<or> reason = ''registry_unreachable'')"
| "build_action _ = False"

locale build_dispatcher =
  fixes dispatch :: "'w Dispatcher"
  assumes dispatch_acts:
    "dispatch req trigger s = (r, t) \<Longrightarrow> extends s t \<and> list_all build_action (new_acts s t)"

text \<open>
  A backstop only performs build actions, and a tag it reports was dispatched: some call of
  the dispatcher for the bare \<open>owner/name\<close> of the repository returned nil for it.
\<close>

definition dispatched :: "'w Dispatcher option \<Rightarrow> Repo \<Rightarrow> string \<Rightarrow> bool" where
  "dispatched dispatcher repo tag \<longleftrightarrow> (\<exists>dispatch u v. dispatcher = Some dispatch
     \<and> dispatch \<lparr>ReqRepo = RepoString repo, ReqTag = tag\<rparr> TriggerPoll u = (None, v))"

text \<open>A build action of the dispatcher; a Job it created came out of one of its calls.\<close>

definition job_dispatched :: "'w Dispatcher \<Rightarrow> Job \<Rightarrow> bool" where
  "job_dispatched dispatch job \<longleftrightarrow>
     (\<exists>req trigger u r v. dispatch req trigger u = (r, v) \<and> CreateJob job \<in> set (new_acts u v))"

definition dispatch_action :: "'w Dispatcher option \<Rightarrow> action \<Rightarrow> bool" where
  "dispatch_action dispatcher a \<longleftrightarrow> build_action a
     \<and> (\<exists>dispatch. dispatcher = Some dispatch \<and> (\<forall>job. a = CreateJob job \<longrightarrow> job_dispatched dispatch job))"

lemma dispatch_actions:
  assumes "build_dispatcher dispatch" "dispatch req trigger s = (r, t)"
  shows "extends s t \<and> list_all (dispatch_action (Some dispatch)) (new_acts s t)"
  using build_dispatcher.dispatch_acts [OF assms] assms(2)
  unfolding dispatch_action_def job_dispatched_def list_all_iff by blast

locale tag_backstop =
  fixes backstop :: "'w TagBackstop" and handled :: "Repo \<Rightarrow> string \<Rightarrow> bool" and bact :: "action \<Rightarrow> bool"
  assumes backstop_acts:
      "backstop ctx repo l s = (r, t) \<Longrightarrow> extends s t \<and> list_all bact (new_acts s t)"
    and back_build: "bact a \<Longrightarrow> build_action a"
    and backstop_tag: "backstop ctx repo l s = (Inr tag, t) \<Longrightarrow> tag \<noteq> '''' \<Longrightarrow> handled repo tag"

context github_client
begin

lemma quiet_scan_tags:
  "scan_tags gh ctx repo l le tags best be s = (r, t) \<Longrightarrow> quiet s t"
proof (induction tags arbitrary: best be s)
  case (Cons tag tags)
  then show ?case
    by (auto dest!: quiet_GetCommitEpoch intro: quiet_trans
        split: option.splits prod.splits sum.splits if_splits)
qed auto

lemma quiet_newestUnbuiltTag:
  "newestUnbuiltTag gh ctx repo l s = (r, t) \<Longrightarrow> quiet s t"
  by (auto simp: newestUnbuiltTag_def dest!: quiet_ListTags quiet_GetCommitEpoch quiet_scan_tags
      intro: quiet_trans split: prod.splits sum.splits if_splits)

lemma backstop_production:
  assumes "\<And>dispatch. dispatcher = Some dispatch \<Longrightarrow> build_dispatcher dispatch"
  shows "tag_backstop (NewTagBackstop gh dispatcher) (dispatched dispatcher) (dispatch_action dispatcher)"
proof (cases dispatcher)
  case None
  then show ?thesis by unfold_locales (auto simp: NewTagBackstop_def NoopTagBackstop_def dispatch_action_def)
next
  case (Some dispatch)
  note acts = dispatch_actions [OF assms [OF Some]]
  have "extends s t \<and> list_all (dispatch_action (Some dispatch)) (new_acts s t)"
    if p: "tagBackstop_Poll gh dispatch ctx repo l s = (r, t)" for ctx repo l s r t
  proof -
    obtain nr u where n: "newestUnbuiltTag gh ctx repo l s = (nr, u)" by fastforce
    note q = quiet_newestUnbuiltTag [OF n]
    have "t = u \<or> (\<exists>req tr e. dispatch req tr u = (e, t))"
      using p n by (auto simp: tagBackstop_Poll_def split: sum.splits if_splits prod.splits option.splits)
    then show ?thesis
    proof
      assume "t = u"
      then show ?thesis using q by (simp add: quiet_extends new_acts_quiet)
    next
      assume "\<exists>req tr e. dispatch req tr u = (e, t)"
      then have a: "extends u t" "list_all (dispatch_action (Some dispatch)) (new_acts u t)" using acts by blast+
      show ?thesis
        using a extends_trans [OF quiet_extends [OF q] a(1)]
          new_acts_trans [OF quiet_extends [OF q] a(1)] new_acts_quiet [OF q] by simp
    qed
  qed
  moreover have "dispatched dispatcher repo tag"
    if "tagBackstop_Poll gh dispatch ctx repo l s = (Inr tag, t)" "tag \<noteq> []" for ctx repo l s tag t
    using that Some
    by (auto simp: tagBackstop_Poll_def dispatched_def split: sum.splits if_splits prod.splits option.splits)
  ultimately show ?thesis
    by unfold_locales (auto simp: NewTagBackstop_def Some dispatch_action_def list_all_iff)
qed

end

text \<open>The production dispatcher and the two backstops keep their contracts.\<close>

lemma build_dispatcher_production:
  "build_dispatcher (CreateBuildDispatcher env yaml http (NewGitHubClient api) cl)"
proof
  fix req trigger s r t
  assume "CreateBuildDispatcher env yaml http (NewGitHubClient api) cl req trigger s = (r, t)"
  then have o: "extends s t \<and>
    (quiet s t \<and> r \<noteq> None
     \<or> (\<exists>a\<in>skip_actions. new_acts s t = [a] \<and> r = None)
     \<or> (\<exists>job result. new_acts s t = [CreateJob job, IncBuildDispatched result]
          \<and> result \<in> {''created'', ''exists'', ''error''} \<and> (r = None \<longleftrightarrow> result \<noteq> ''error'')))"
    unfolding CreateBuildDispatcher_eq by (rule build.Dispatch_outcome)
  have "list_all build_action [a]" if "a \<in> skip_actions" for a
    using that by (auto simp: skip_actions_def)
  with o show "extends s t \<and> list_all build_action (new_acts s t)"
    by (auto simp: new_acts_quiet)
qed

interpretation dispatcher: build_dispatcher "CreateBuildDispatcher env yaml http (NewGitHubClient api) cl"
    for env yaml http api cl
  by (rule build_dispatcher_production)

interpretation backstop: tag_backstop
    "NewTagBackstop (NewGitHubClient api) (Some (CreateBuildDispatcher env yaml http (NewGitHubClient api) cl))"
    "dispatched (Some (CreateBuildDispatcher env yaml http (NewGitHubClient api) cl))"
    "dispatch_action (Some (CreateBuildDispatcher env yaml http (NewGitHubClient api) cl))"
    for env yaml http api cl
  by (rule client.backstop_production) (use build_dispatcher_production in blast)

section \<open>Properties\<close>

text \<open>C28: the backstop reports a tag only after a build for it was accepted, and it is the newest:
  it is listed, differs from the last built one, every listed tag has a commit time and none is
  later, and the dispatcher returned without error for exactly this repository and tag.\<close>

theorem tagBackstop_newest:
  assumes "tagBackstop_Poll gh dispatch ctx repo lastBuilt s = (Inr tag, t)" and "tag \<noteq> []"
    and "ListTags gh repo s = (Inr tags, t0)" and "[] \<notin> set tags"
  shows "tag \<in> set tags \<and> tag \<noteq> lastBuilt \<and> hd tags \<noteq> lastBuilt
    \<and> (\<exists>e. epoch_read gh repo tag e \<and> (\<forall>other\<in>set tags. \<exists>e'. epoch_read gh repo other e' \<and> e' \<le> e))
    \<and> (\<exists>u. dispatch \<lparr>ReqRepo = RepoString repo, ReqTag = tag\<rparr> TriggerPoll u = (None, t))"
proof -
  obtain n u where n: "newestUnbuiltTag gh ctx repo lastBuilt s = (n, u)" by fastforce
  obtain x where x: "n = Inr x" using assms(1) n by (cases n) (simp_all add: tagBackstop_Poll_def)
  obtain dr v where d: "dispatch \<lparr>ReqRepo = RepoString repo, ReqTag = x\<rparr> TriggerPoll u = (dr, v)" by fastforce
  have xt: "x = tag" "x \<noteq> []" "dr = None" "v = t"
    using assms(1,2) n x d by (cases dr; auto simp: tagBackstop_Poll_def split: if_splits)+
  show ?thesis
    using newestUnbuiltTag_newest [OF n [unfolded x] xt(2) assms(3,4)] d unfolding xt by blast
qed

theorem tagBackstop_newest_witness:
  "hd [''v1.0.0'', ''v1.1.0''] \<noteq> ''v0.9.0''"
proof -
  let ?s = "initial_sys () empty_fs"
  let ?r = "\<lparr>Owner = ''bborbe'', Name = ''kv'', DefaultBranch = ''master'', Fork = False\<rparr>"
  have l: "ListTags (NewGitHubClient demo_api) ?r ?s = (Inr [''v1.0.0'', ''v1.1.0''], ?s)"
    by (simp add: NewGitHubClient_def gc_ListTags_def)
  have "tagBackstop_Poll (NewGitHubClient demo_api) (\<lambda>rq tr u. (None, u)) (\<lambda>_. None) ?r ''v0.9.0'' ?s
      = (Inr ''v1.1.0'', ?s)"
    by (simp add: tagBackstop_Poll_def newestUnbuiltTag_def NewGitHubClient_def gc_ListTags_def gc_GetCommitEpoch_def)
  from tagBackstop_newest [OF this _ l] show ?thesis by simp
qed

end
