(* ===== verification/Publisher.thy ===== *)
theory Publisher
  imports Process
begin

text \<open>
  The task publisher of \<open>pkg/taskpublisher.go\<close>. The Kafka-backed command sender is a
  parameter; handing it a command is the observable action \<open>SendCreate\<close>, with the success
  of the send.
\<close>

type_synonym 'w CreateCommandSender = "CreateCommand \<Rightarrow> 'w \<Rightarrow> goerr option \<times> 'w"
type_synonym 'w TaskPublisher = "Release \<Rightarrow> 'w sys \<Rightarrow> bool \<times> 'w sys"

definition SendCreateCommand ::
    "'w CreateCommandSender \<Rightarrow> CreateCommand \<Rightarrow> 'w sys \<Rightarrow> goerr option \<times> 'w sys" where
  "SendCreateCommand sender cmd s =
     (case world_call (sender cmd) s of (e, t) \<Rightarrow> (e, act (SendCreate cmd (e = None)) t))"

definition PublishCreate ::
    "(string \<Rightarrow> string \<Rightarrow> string) \<Rightarrow> 'w CreateCommandSender \<Rightarrow> TaskConfig \<Rightarrow> 'w TaskPublisher" where
  "PublishCreate newSHA1 sender cfg release s =
     (let cmd = BuildCreateCommand newSHA1 release cfg
      in case SendCreateCommand sender cmd s of
           (Some e, t) \<Rightarrow> (False, act (IncPublished ''error'') t)
         | (None, t) \<Rightarrow> (True, act (IncPublished ''create'') t))"

text \<open>The contract: one command is handed over, and the result says whether that succeeded.\<close>

locale task_publisher =
  fixes publish :: "'w TaskPublisher" and command_of :: "Release \<Rightarrow> CreateCommand"
  assumes publish_acts: "publish release s = (ok, t) \<Longrightarrow> extends s t \<and>
    new_acts s t = [SendCreate (command_of release) ok, IncPublished (if ok then ''create'' else ''error'')]"

lemma PublishCreate_acts:
  assumes "PublishCreate newSHA1 sender cfg release s = (ok, t)"
  shows "extends s t \<and> new_acts s t =
    [SendCreate (BuildCreateCommand newSHA1 release cfg) ok, IncPublished (if ok then ''create'' else ''error'')]"
proof -
  let ?cmd = "BuildCreateCommand newSHA1 release cfg"
  obtain e u where u: "world_call (sender ?cmd) s = (e, u)" by fastforce
  have "quiet s u" by (rule quiet_world_call [OF u])
  then have "extends s (act (SendCreate ?cmd b) u)" "new_acts s (act (SendCreate ?cmd b) u) = [SendCreate ?cmd b]" for b
    using quiet_act by auto
  then have "extends s (act a (act (SendCreate ?cmd b) u))"
    "new_acts s (act a (act (SendCreate ?cmd b) u)) = [SendCreate ?cmd b, a]" for a b
    using extends_trans [OF _ extends_act] new_acts_trans [OF _ extends_act] by fastforce+
  then show ?thesis
    using assms u by (auto simp: PublishCreate_def SendCreateCommand_def Let_def split: option.splits)
qed

interpretation publisher: task_publisher "PublishCreate newSHA1 sender cfg"
    "\<lambda>release. BuildCreateCommand newSHA1 release cfg" for newSHA1 sender cfg
  by unfold_locales (rule PublishCreate_acts)

end
