(* ===== verification/Cursor.thy ===== *)
theory Cursor
  imports Process Json "HOL-Library.List_Lexorder" "HOL-Library.Char_ord"
begin

text \<open>
  The cursor of \<open>pkg/cursor.go\<close>: its JSON form, \<open>LoadCursor\<close> and \<open>SaveCursor\<close> on the file
  system of the process, the read view of \<open>pkg/watcher.go\<close> and the two operator handlers of
  \<open>pkg/cursor_handler.go\<close>. A Go map that may be nil is an optional finite map, and a nil
  \<open>*RepoState\<close> in it is \<open>None\<close>.
\<close>

record RepoState =
  LastSeenMasterSHA :: string
  LastBuiltTag :: string

definition emptyRepoState :: RepoState where
  "emptyRepoState = \<lparr>LastSeenMasterSHA = '''', LastBuiltTag = ''''\<rparr>"

type_synonym repo_map = "(string, RepoState option) fmap"

record Cursor =
  Repos :: "repo_map option"

text \<open>Indexing the map: a missing key and a nil pointer both read as nil.\<close>

definition repo_entry :: "Cursor \<Rightarrow> string \<Rightarrow> RepoState option" where
  "repo_entry c key = (case Repos c of None \<Rightarrow> None
     | Some m \<Rightarrow> (case fmlookup m key of None \<Rightarrow> None | Some p \<Rightarrow> p))"

definition LastSeenSHA :: "Cursor \<Rightarrow> string \<Rightarrow> string" where
  "LastSeenSHA c key = (case repo_entry c key of None \<Rightarrow> '''' | Some st \<Rightarrow> LastSeenMasterSHA st)"

section \<open>The JSON form\<close>

definition encode_repo_state :: "RepoState option \<Rightarrow> json" where
  "encode_repo_state p = (case p of None \<Rightarrow> JNull
     | Some st \<Rightarrow> JObj ((''last_seen_master_sha'', JStr (LastSeenMasterSHA st)) #
                     (if LastBuiltTag st = '''' then []
                      else [(''last_built_tag'', JStr (LastBuiltTag st))])))"

definition encode_cursor :: "Cursor \<Rightarrow> json" where
  "encode_cursor c = JObj [(''repos'',
     (case Repos c of None \<Rightarrow> JNull
      | Some m \<Rightarrow> JObj (map (\<lambda>k. (k, encode_repo_state (the (fmlookup m k))))
                          (sorted_list_of_set (fmdom' m)))))]"

fun decode_state_fields :: "(string \<times> json) list \<Rightarrow> RepoState \<Rightarrow> RepoState res" where
  "decode_state_fields [] st = Inr st"
| "decode_state_fields ((k, v) # ms) st =
     (case field_of [''last_seen_master_sha'', ''last_built_tag''] k of
        None \<Rightarrow> decode_state_fields ms st
      | Some f \<Rightarrow>
          (if f = ''last_seen_master_sha'' then
             (case decode_string (LastSeenMasterSHA st) v of Inl e \<Rightarrow> Inl e
              | Inr x \<Rightarrow> decode_state_fields ms (st\<lparr>LastSeenMasterSHA := x\<rparr>))
           else
             (case decode_string (LastBuiltTag st) v of Inl e \<Rightarrow> Inl e
              | Inr x \<Rightarrow> decode_state_fields ms (st\<lparr>LastBuiltTag := x\<rparr>))))"

definition decode_repo_state :: "json \<Rightarrow> RepoState option res" where
  "decode_repo_state v = (case v of
      JNull \<Rightarrow> Inr None
    | JObj ms \<Rightarrow> map_sum id Some (decode_state_fields ms emptyRepoState)
    | _ \<Rightarrow> Inl (Errorf ''json: cannot unmarshal value into Go struct RepoState''))"

fun decode_entries :: "(string \<times> json) list \<Rightarrow> repo_map \<Rightarrow> repo_map res" where
  "decode_entries [] m = Inr m"
| "decode_entries ((k, v) # ms) m =
     (case decode_repo_state v of Inl e \<Rightarrow> Inl e | Inr p \<Rightarrow> decode_entries ms (fmupd k p m))"

definition decode_repos :: "repo_map option \<Rightarrow> json \<Rightarrow> repo_map option res" where
  "decode_repos old v = (case v of
      JNull \<Rightarrow> Inr None
    | JObj ms \<Rightarrow> map_sum id Some (decode_entries ms (case old of None \<Rightarrow> fmempty | Some m \<Rightarrow> m))
    | _ \<Rightarrow> Inl (Errorf ''json: cannot unmarshal value into Go struct field Cursor.repos''))"

fun decode_cursor_fields :: "(string \<times> json) list \<Rightarrow> Cursor \<Rightarrow> Cursor res" where
  "decode_cursor_fields [] c = Inr c"
| "decode_cursor_fields ((k, v) # ms) c =
     (case field_of [''repos''] k of
        None \<Rightarrow> decode_cursor_fields ms c
      | Some _ \<Rightarrow>
          (case decode_repos (Repos c) v of Inl e \<Rightarrow> Inl e
           | Inr m \<Rightarrow> decode_cursor_fields ms (c\<lparr>Repos := m\<rparr>)))"

definition decode_cursor :: "json \<Rightarrow> Cursor res" where
  "decode_cursor v = (case v of
      JNull \<Rightarrow> Inr \<lparr>Repos = None\<rparr>
    | JObj ms \<Rightarrow> decode_cursor_fields ms \<lparr>Repos = None\<rparr>
    | _ \<Rightarrow> Inl (Errorf ''json: cannot unmarshal value into Go value of type pkg.Cursor''))"

definition unmarshal_cursor :: "string \<Rightarrow> Cursor res" where
  "unmarshal_cursor d = (case json_parse d of
      None \<Rightarrow> Inl (Errorf ''json: syntax error'') | Some v \<Rightarrow> decode_cursor v)"

section \<open>Load and save\<close>

definition LoadCursor :: "string \<Rightarrow> 'w sys \<Rightarrow> Cursor res" where
  "LoadCursor path s = (case ReadFile path (Fs s) of
      Inl e \<Rightarrow> if e = NotExist then Inr \<lparr>Repos = Some fmempty\<rparr>
               else Inl (Wrapf (''read cursor file path='' @ path) e)
    | Inr d \<Rightarrow> (case unmarshal_cursor d of
         Inl e \<Rightarrow> Inl (Wrapf (''unmarshal cursor file path='' @ path) e)
       | Inr c \<Rightarrow> Inr (if Repos c = None then c\<lparr>Repos := Some fmempty\<rparr> else c)))"

definition tmp_path :: "string \<Rightarrow> string" where
  "tmp_path path = path @ ''.tmp''"

definition SaveCursor :: "string \<Rightarrow> Cursor \<Rightarrow> 'w sys \<Rightarrow> goerr option \<times> 'w sys" where
  "SaveCursor path c s =
     (let d = json_print (encode_cursor c)
      in case WriteFile (tmp_path path) d (Fs s) of
           (Some e, f) \<Rightarrow> (Some (Wrapf (''write cursor tmp path='' @ path) e), s\<lparr>Fs := f\<rparr>)
         | (None, f) \<Rightarrow>
             (case Rename (tmp_path path) path f of
                (Some e, g) \<Rightarrow> (Some (Wrapf (''rename cursor tmp path='' @ path) e), s\<lparr>Fs := g\<rparr>)
              | (None, g) \<Rightarrow> (None, s\<lparr>Fs := g\<rparr>)))"

section \<open>Operator handlers\<close>

text \<open>
  The result of a handler is the error it returns (with its HTTP status when it has one) or
  the body it writes. The route variable and the query value arrive as strings.
\<close>

definition StatusBadRequest :: int where "StatusBadRequest = 400"
definition StatusUnauthorized :: int where "StatusUnauthorized = 401"
definition StatusNotFound :: int where "StatusNotFound = 404"
definition StatusBadGateway :: int where "StatusBadGateway = 502"

definition ResetCursorHandler :: "string \<Rightarrow> string \<Rightarrow> 'w sys \<Rightarrow> string res \<times> 'w sys" where
  "ResetCursorHandler cursorPath repoKey s =
     (if repoKey = '''' then
        (Inl (StatusErr StatusBadRequest (Errorf ''missing {repo} path variable'')), s)
      else (case LoadCursor cursorPath s of
         Inl e \<Rightarrow> (Inl (Wrapf ''load cursor for reset'' e), s)
       | Inr cursor \<Rightarrow>
           (case Repos cursor of
              None \<Rightarrow> (Inl (StatusErr StatusNotFound (Errorf (''repo not found in cursor: '' @ repoKey))), s)
            | Some m \<Rightarrow>
                (if fmlookup m repoKey = None then
                   (Inl (StatusErr StatusNotFound (Errorf (''repo not found in cursor: '' @ repoKey))), s)
                 else
                   (case SaveCursor cursorPath (cursor\<lparr>Repos := Some (fmdrop repoKey m)\<rparr>) s of
                      (Some e, t) \<Rightarrow> (Inl (Wrapf ''save cursor after reset'' e), t)
                    | (None, t) \<Rightarrow> (Inr (''cursor reset for '' @ repoKey), t))))))"

definition SetCursorHandler :: "string \<Rightarrow> string \<Rightarrow> string \<Rightarrow> 'w sys \<Rightarrow> string res \<times> 'w sys" where
  "SetCursorHandler cursorPath repoKey sha s =
     (if repoKey = '''' then
        (Inl (StatusErr StatusBadRequest (Errorf ''missing {repo} path variable'')), s)
      else if sha = '''' then
        (Inl (StatusErr StatusBadRequest (Errorf ''missing sha query parameter'')), s)
      else (case LoadCursor cursorPath s of
         Inl e \<Rightarrow> (Inl (Wrapf ''load cursor for set'' e), s)
       | Inr cursor \<Rightarrow>
           (let previous = (case repo_entry cursor repoKey of
                  None \<Rightarrow> '''' | Some existing \<Rightarrow> LastSeenMasterSHA existing);
                m = (case Repos cursor of None \<Rightarrow> fmempty | Some m \<Rightarrow> m);
                entry = emptyRepoState\<lparr>LastSeenMasterSHA := sha\<rparr>
            in case SaveCursor cursorPath (cursor\<lparr>Repos := Some (fmupd repoKey (Some entry) m)\<rparr>) s of
                 (Some e, t) \<Rightarrow> (Inl (Wrapf ''save cursor after set'' e), t)
               | (None, t) \<Rightarrow>
                   (Inr (''cursor set for '' @ repoKey @ '' sha='' @ sha @ '' previous='' @ previous), t))))"

section \<open>Facts\<close>

lemma tmp_path_neq [simp]: "tmp_path p \<noteq> p" "p \<noteq> tmp_path p"
  by (simp_all add: tmp_path_def)

text \<open>
  Decoding what the encoder wrote gives the cursor back with its strings cleaned: the keys are
  written in sorted order, and when two of them are the same once cleaned the later one counts.
\<close>

definition clean_state :: "RepoState \<Rightarrow> RepoState" where
  "clean_state st = \<lparr>LastSeenMasterSHA = clean (LastSeenMasterSHA st), LastBuiltTag = clean (LastBuiltTag st)\<rparr>"

definition clean_entries :: "repo_map \<Rightarrow> string list \<Rightarrow> repo_map \<Rightarrow> repo_map" where
  "clean_entries m ks m0 = foldl (\<lambda>m' k. fmupd (clean k) (map_option clean_state (the (fmlookup m k))) m') m0 ks"

definition clean_cursor :: "Cursor \<Rightarrow> Cursor" where
  "clean_cursor c = (case Repos c of None \<Rightarrow> c
     | Some m \<Rightarrow> c\<lparr>Repos := Some (clean_entries m (sorted_list_of_set (fmdom' m)) fmempty)\<rparr>)"

lemma field_of_exact [simp]: "k \<in> set names \<Longrightarrow> field_of names k = Some k"
  by (simp add: field_of_def)

lemma clean_ascii: "\<forall>c\<in>set s. byte c < 128 \<Longrightarrow> clean s = s"
  by (simp add: clean_valid valid_utf8_ascii)

lemma clean_names [simp]: "clean ''repos'' = ''repos''" "clean [] = []"
    "clean ''last_seen_master_sha'' = ''last_seen_master_sha''" "clean ''last_built_tag'' = ''last_built_tag''"
  by (simp_all add: clean_ascii)

lemma decode_encode_state: "decode_repo_state (json_clean (encode_repo_state p)) = Inr (map_option clean_state p)"
  by (cases p) (auto simp: encode_repo_state_def decode_repo_state_def decode_string_def emptyRepoState_def
      clean_state_def)

lemma decode_entries_encode:
  "decode_entries (map (\<lambda>(k, v). (clean k, json_clean v)) (map (\<lambda>k. (k, encode_repo_state (the (fmlookup m k)))) ks)) m0 =
     Inr (clean_entries m ks m0)"
  by (induction ks arbitrary: m0) (simp_all add: clean_entries_def decode_encode_state)

lemma decode_encode_cursor: "decode_cursor (json_clean (encode_cursor c)) = Inr (clean_cursor c)"
  using decode_entries_encode
  by (cases "Repos c") (auto simp: decode_cursor_def encode_cursor_def decode_repos_def clean_cursor_def comp_def)

lemma encode_cursor_ok: "json_ok max_depth (encode_cursor c)"
proof -
  have st: "json_ok 9998 (encode_repo_state p)" for p by (cases p) (simp_all add: encode_repo_state_def)
  then show ?thesis by (cases "Repos c") (simp_all add: encode_cursor_def max_depth_def list_all_iff)
qed

lemma unmarshal_marshal_cursor: "unmarshal_cursor (json_print (encode_cursor c)) = Inr (clean_cursor c)"
  by (simp add: unmarshal_cursor_def json_roundtrip encode_cursor_ok decode_encode_cursor)

text \<open>The strings of a cursor are valid UTF-8: then the encoder loses nothing.\<close>

definition cursor_valid :: "Cursor \<Rightarrow> bool" where
  "cursor_valid c \<longleftrightarrow> (\<forall>m. Repos c = Some m \<longrightarrow> (\<forall>k p. fmlookup m k = Some p \<longrightarrow>
     valid_utf8 k \<and> (\<forall>st. p = Some st \<longrightarrow> valid_utf8 (LastSeenMasterSHA st) \<and> valid_utf8 (LastBuiltTag st))))"

lemma clean_entries_valid:
  assumes "\<And>k p. fmlookup m k = Some p \<Longrightarrow> clean k = k \<and> map_option clean_state p = p" "set ks \<subseteq> fmdom' m"
  shows "clean_entries m ks m0 = fmadd m0 (fmrestrict_set (set ks) m)"
  using assms(2)
proof (induction ks arbitrary: m0)
  case Nil
  then show ?case by (simp add: clean_entries_def fmap_ext)
next
  case (Cons k ks)
  obtain p where p: "fmlookup m k = Some p" using Cons.prems by (auto simp: fmlookup_dom'_iff)
  have "fmadd (fmupd k p m0) (fmrestrict_set (set ks) m) = fmadd m0 (fmrestrict_set (set (k # ks)) m)"
    by (rule fmap_ext) (use p in \<open>auto simp: fmlookup_dom_iff\<close>)
  then show ?case using Cons assms(1) [OF p] p by (simp add: clean_entries_def)
qed

lemma clean_cursor_valid: "cursor_valid c \<Longrightarrow> clean_cursor c = c"
proof (cases "Repos c")
  case (Some m)
  assume v: "cursor_valid c"
  have "clean k = k \<and> map_option clean_state p = p" if "fmlookup m k = Some p" for k p
    using v that Some by (cases p) (auto simp: cursor_valid_def clean_state_def clean_valid)
  then have "clean_entries m (sorted_list_of_set (fmdom' m)) fmempty = fmadd fmempty (fmrestrict_set (fmdom' m) m)"
    using clean_entries_valid [of m "sorted_list_of_set (fmdom' m)"] by simp
  also have "\<dots> = m" by (rule fmap_ext) (auto simp: fmlookup_dom'_iff)
  finally show ?thesis using Some by (simp add: clean_cursor_def)
qed (simp add: clean_cursor_def)

text \<open>The entries of a cleaned cursor: each comes from an entry whose key cleans to its key.\<close>

lemma clean_entries_origin:
  "fmlookup (clean_entries m ks m0) k = Some p \<Longrightarrow> fmlookup m0 k = Some p
     \<or> (\<exists>k'\<in>set ks. clean k' = k \<and> p = map_option clean_state (the (fmlookup m k')))"
proof (induction ks arbitrary: m0)
  case (Cons k1 ks)
  let ?m1 = "fmupd (clean k1) (map_option clean_state (the (fmlookup m k1))) m0"
  have "fmlookup (clean_entries m ks ?m1) k = Some p" using Cons.prems by (simp add: clean_entries_def)
  from Cons.IH [OF this] show ?case
  proof
    assume l: "fmlookup ?m1 k = Some p"
    show ?thesis
    proof (cases "clean k1 = k")
      case True
      then have "p = map_option clean_state (the (fmlookup m k1))" using l by simp
      then show ?thesis using True by (intro disjI2 bexI [of _ k1]) simp_all
    next
      case False
      then show ?thesis using l by simp
    qed
  next
    assume "\<exists>k'\<in>set ks. clean k' = k \<and> p = map_option clean_state (the (fmlookup m k'))"
    then show ?thesis by (meson list.set_intros(2))
  qed
qed (simp add: clean_entries_def)

lemma clean_entries_unique:
  "\<forall>k'\<in>set ks. clean k' = k \<longrightarrow> k' = k \<Longrightarrow> clean k = k \<Longrightarrow> fmlookup (clean_entries m ks m0) k =
     (if k \<in> set ks then Some (map_option clean_state (the (fmlookup m k))) else fmlookup m0 k)"
proof (induction ks arbitrary: m0)
  case (Cons k1 ks)
  let ?m1 = "fmupd (clean k1) (map_option clean_state (the (fmlookup m k1))) m0"
  have "fmlookup (clean_entries m (k1 # ks) m0) k = fmlookup (clean_entries m ks ?m1) k"
    by (simp add: clean_entries_def)
  also have "\<dots> = (if k \<in> set ks then Some (map_option clean_state (the (fmlookup m k))) else fmlookup ?m1 k)"
    by (rule Cons.IH) (use Cons.prems in \<open>meson list.set_intros(2)\<close>)+
  also have "fmlookup ?m1 k = (if k1 = k then Some (map_option clean_state (the (fmlookup m k))) else fmlookup m0 k)"
  proof (cases "k1 = k")
    case True
    then show ?thesis by (simp add: Cons.prems(2))
  next
    case False
    then have "clean k1 \<noteq> k" using Cons.prems(1) by (metis list.set_intros(1))
    then show ?thesis using False by simp
  qed
  finally show ?case by (cases "k1 = k") auto
qed (simp add: clean_entries_def)

definition cursor_keys :: "Cursor \<Rightarrow> string set" where
  "cursor_keys c = (case Repos c of None \<Rightarrow> {} | Some m \<Rightarrow> fmdom' m)"

lemma LastSeenSHA_clean_origin:
  assumes "LastSeenSHA (clean_cursor c) key \<noteq> []"
  obtains k where "clean k = key" "LastSeenSHA (clean_cursor c) key = clean (LastSeenSHA c k)"
proof (cases "Repos c")
  case None
  then show thesis using assms by (simp add: clean_cursor_def LastSeenSHA_def repo_entry_def)
next
  case (Some m)
  let ?e = "clean_entries m (sorted_list_of_set (fmdom' m)) fmempty"
  obtain st where st: "fmlookup ?e key = Some (Some st)"
    using assms Some by (auto simp: clean_cursor_def LastSeenSHA_def repo_entry_def split: option.splits)
  then obtain k where k: "k \<in> fmdom' m" "clean k = key" "Some st = map_option clean_state (the (fmlookup m k))"
    using clean_entries_origin [OF st] by auto
  obtain q where q: "fmlookup m k = Some q" using k(1) by (auto simp: fmlookup_dom'_iff)
  obtain st0 where st0: "fmlookup m k = Some (Some st0)" "st = clean_state st0"
    using k(3) q by (cases q) auto
  show thesis
    by (rule that [OF k(2)])
      (use Some st st0 in \<open>simp add: clean_cursor_def LastSeenSHA_def repo_entry_def clean_state_def\<close>)
qed

lemma LastSeenSHA_clean_unique:
  assumes "\<forall>k\<in>cursor_keys c. valid_utf8 k" "valid_utf8 key"
  shows "LastSeenSHA (clean_cursor c) key = clean (LastSeenSHA c key)"
proof (cases "Repos c")
  case None
  then show ?thesis by (simp add: clean_cursor_def LastSeenSHA_def repo_entry_def)
next
  case (Some m)
  have "fmlookup (clean_entries m (sorted_list_of_set (fmdom' m)) fmempty) key =
     (if key \<in> fmdom' m then Some (map_option clean_state (the (fmlookup m key))) else None)"
    using assms Some clean_valid
    by (subst clean_entries_unique) (auto simp: cursor_keys_def)
  then show ?thesis using Some
    by (auto simp: clean_cursor_def LastSeenSHA_def repo_entry_def clean_state_def fmlookup_dom'_iff
        split: option.split)
qed

text \<open>What was loaded is valid, whatever the file holds.\<close>

lemma decode_state_valid:
  "decode_state_fields ms st = Inr st' \<Longrightarrow> list_all (\<lambda>(k, v). valid_utf8 k \<and> json_valid v) ms \<Longrightarrow>
   valid_utf8 (LastSeenMasterSHA st) \<and> valid_utf8 (LastBuiltTag st) \<Longrightarrow>
   valid_utf8 (LastSeenMasterSHA st') \<and> valid_utf8 (LastBuiltTag st')"
proof (induction ms st rule: decode_state_fields.induct)
  case (2 k v ms st)
  then show ?case
    by (auto simp: decode_string_def split: option.splits if_splits sum.splits json.splits)
qed simp

abbreviation entries_valid :: "repo_map \<Rightarrow> bool" where
  "entries_valid m \<equiv> cursor_valid \<lparr>Repos = Some m\<rparr>"

lemma decode_entries_valid:
  "decode_entries ms m = Inr m' \<Longrightarrow> list_all (\<lambda>(k, v). valid_utf8 k \<and> json_valid v) ms \<Longrightarrow>
   entries_valid m \<Longrightarrow> entries_valid m'"
proof (induction ms m rule: decode_entries.induct)
  case (2 k v ms m)
  obtain p where p: "decode_repo_state v = Inr p" using 2 by (auto split: sum.splits)
  have "valid_utf8 (LastSeenMasterSHA st) \<and> valid_utf8 (LastBuiltTag st)" if "p = Some st" for st
    using p that 2 decode_state_valid [of _ emptyRepoState st]
    by (auto simp: decode_repo_state_def emptyRepoState_def valid_utf8_ascii map_sum_Inr_iff split: json.splits)
  then have "entries_valid (fmupd k p m)" using 2 by (auto simp: cursor_valid_def)
  then show ?case using 2 p by simp
qed simp

lemma decode_cursor_fields_valid:
  "decode_cursor_fields ms c = Inr c' \<Longrightarrow> list_all (\<lambda>(k, v). valid_utf8 k \<and> json_valid v) ms \<Longrightarrow>
   cursor_valid c \<Longrightarrow> cursor_valid c'"
proof (induction ms c rule: decode_cursor_fields.induct)
  case (2 k v ms c)
  have "cursor_valid (c\<lparr>Repos := m\<rparr>)" if m: "decode_repos (Repos c) v = Inr m" for m
  proof (cases v)
    case (JObj vs)
    let ?m0 = "case Repos c of None \<Rightarrow> fmempty | Some m \<Rightarrow> m"
    obtain m' where m': "m = Some m'" "decode_entries vs ?m0 = Inr m'"
      using m JObj by (auto simp: decode_repos_def map_sum_Inr_iff)
    have "entries_valid ?m0" using "2.prems"(3) by (cases "Repos c") (simp_all add: cursor_valid_def)
    then have "entries_valid m'" using decode_entries_valid [OF m'(2)] "2.prems"(2) JObj by simp
    then show ?thesis by (simp add: m'(1) cursor_valid_def)
  qed (use m in \<open>simp_all add: decode_repos_def cursor_valid_def\<close>)
  then show ?case using 2 by (auto split: option.splits sum.splits)
qed simp

lemma unmarshal_cursor_valid: "unmarshal_cursor d = Inr c \<Longrightarrow> cursor_valid c"
  using decode_cursor_fields_valid [of _ "\<lparr>Repos = None\<rparr>"] json_parse_valid [of d]
  by (auto simp: unmarshal_cursor_def decode_cursor_def cursor_valid_def split: option.splits json.splits)

text \<open>What a load returns always has a map.\<close>

lemma LoadCursor_map: "LoadCursor path s = Inr c \<Longrightarrow> Repos c \<noteq> None"
  by (auto simp: LoadCursor_def split: sum.splits if_splits)

text \<open>A save leaves everything but the two paths alone, and never half-writes the cursor.\<close>

lemma SaveCursor_frame:
  assumes "SaveCursor path c s = (r, t)"
  shows "Acts t = Acts s" "Ext t = Ext s" "Log t = Log s" "RateRemaining t = RateRemaining s"
    "DebounceLast t = DebounceLast s"
    "\<And>p. p \<noteq> path \<Longrightarrow> p \<noteq> tmp_path path \<Longrightarrow> files (Fs t) p = files (Fs s) p"
    "readFault (Fs t) = readFault (Fs s)" "writeFault (Fs t) = writeFault (Fs s)"
    "renameFault (Fs t) = renameFault (Fs s)"
  using assms
  by (auto simp: SaveCursor_def WriteFile_def Rename_def Let_def
      split: option.splits write_fault.splits prod.splits)

lemma SaveCursor_content:
  assumes "SaveCursor path c s = (r, t)"
  shows "files (Fs t) path =
    (if r = None then Some (json_print (encode_cursor c)) else files (Fs s) path)"
  using assms
  by (auto simp: SaveCursor_def WriteFile_def Rename_def Let_def
      split: option.splits write_fault.splits prod.splits)

lemma LoadCursor_after_save:
  assumes "SaveCursor path c s = (None, t)" "Repos c \<noteq> None" "readFault (Fs s) path = None"
  shows "LoadCursor path t = Inr (clean_cursor c)"
  using SaveCursor_content [OF assms(1)] SaveCursor_frame(7) [OF assms(1)] assms(2,3)
  by (auto simp: LoadCursor_def ReadFile_def unmarshal_marshal_cursor clean_cursor_def)

text \<open>A save on a healthy disk succeeds, and what is loaded from its text names the same commits.\<close>

lemma SaveCursor_healthy:
  assumes "writeFault (Fs s) (tmp_path path) = None" "renameFault (Fs s) (tmp_path path) = None"
  shows "files (Fs (snd (SaveCursor path c s))) path = Some (json_print (encode_cursor c))"
  using assms by (simp add: SaveCursor_def WriteFile_def Rename_def Let_def)

lemma LoadCursor_saved:
  assumes "files (Fs s) path = Some (json_print (encode_cursor c))" "readFault (Fs s) path = None"
  obtains c1 where "LoadCursor path s = Inr c1" "\<And>k. LastSeenSHA c1 k = LastSeenSHA (clean_cursor c) k"
  using assms
  by (auto simp: LoadCursor_def ReadFile_def unmarshal_marshal_cursor LastSeenSHA_def repo_entry_def)

lemma LoadCursor_after_valid_save:
  assumes "SaveCursor path c s = (None, t)" "cursor_valid c" "Repos c \<noteq> None" "readFault (Fs s) path = None"
  shows "LoadCursor path t = Inr c"
  using LoadCursor_after_save [OF assms(1,3,4)] clean_cursor_valid [OF assms(2)] by simp

lemma LoadCursor_valid: "LoadCursor path s = Inr c \<Longrightarrow> cursor_valid c"
  by (auto simp: LoadCursor_def cursor_valid_def dest: unmarshal_cursor_valid split: sum.splits if_splits)

section \<open>Properties\<close>

lemma repo_entry_map: "Repos c = Some m \<Longrightarrow> repo_entry c k = (case fmlookup m k of None \<Rightarrow> None | Some p \<Rightarrow> p)"
  by (simp add: repo_entry_def)

lemma cursor_valid_drop:
  "cursor_valid c \<Longrightarrow> Repos c = Some m \<Longrightarrow> cursor_valid (c\<lparr>Repos := Some (fmdrop key m)\<rparr>)"
  by (auto simp: cursor_valid_def split: if_splits)

lemma cursor_valid_upd:
  "cursor_valid c \<Longrightarrow> Repos c = Some m \<Longrightarrow> valid_utf8 key \<Longrightarrow> valid_utf8 sha \<Longrightarrow>
   cursor_valid (c\<lparr>Repos := Some (fmupd key (Some (emptyRepoState\<lparr>LastSeenMasterSHA := sha\<rparr>)) m)\<rparr>)"
  by (auto simp: cursor_valid_def emptyRepoState_def valid_utf8_ascii split: if_splits)

text \<open>C15: a cursor that was saved is loaded back, map entries, nil pointers and empty tags
  included; a byte that is part of no UTF-8 sequence comes back as U+FFFD. What was loaded once
  has no such byte, whoever wrote the file, so saving and loading it again changes nothing.\<close>

theorem cursor_save_load:
  assumes "SaveCursor path c s = (None, t)" "Repos c \<noteq> None" "readFault (Fs s) path = None"
  shows "LoadCursor path t = Inr (clean_cursor c) \<and> (cursor_valid c \<longrightarrow> clean_cursor c = c)
    \<and> (LoadCursor path' s' = Inr c \<longrightarrow> cursor_valid c)"
  using LoadCursor_after_save [OF assms] clean_cursor_valid LoadCursor_valid by blast

theorem cursor_save_load_witness:
  "LoadCursor ''c'' (snd (SaveCursor ''c'' \<lparr>Repos = Some (fmupd ''k'' (Some \<lparr>LastSeenMasterSHA = ''a1'',
       LastBuiltTag = ''v1''\<rparr>) fmempty)\<rparr> (initial_sys () empty_fs))) =
     Inr \<lparr>Repos = Some (fmupd ''k'' (Some \<lparr>LastSeenMasterSHA = ''a1'', LastBuiltTag = ''v1''\<rparr>) fmempty)\<rparr>"
  (is "LoadCursor _ (snd (SaveCursor _ ?c ?s)) = _")
proof -
  have save: "SaveCursor ''c'' ?c ?s = (None, snd (SaveCursor ''c'' ?c ?s))"
    by (simp add: SaveCursor_def WriteFile_def Rename_def empty_fs_def)
  have "cursor_valid ?c" by (auto simp: cursor_valid_def valid_utf8_ascii split: if_splits)
  then show ?thesis using cursor_save_load [OF save] by (simp add: empty_fs_def)
qed

text \<open>C16: saving is atomic on the cursor's path: whatever the outcome of the open, the write
  or the rename, the file holds either the complete new text or exactly what it held before,
  and only the temporary file besides it is touched.\<close>

theorem SaveCursor_atomic:
  assumes "SaveCursor path c s = (r, t)"
  shows "files (Fs t) path = (if r = None then Some (json_print (encode_cursor c)) else files (Fs s) path)
    \<and> (\<forall>p. p \<noteq> path \<and> p \<noteq> tmp_path path \<longrightarrow> files (Fs t) p = files (Fs s) p)
    \<and> Acts t = Acts s \<and> Ext t = Ext s"
  using SaveCursor_content [OF assms] SaveCursor_frame [OF assms] by blast

theorem SaveCursor_atomic_witness:
  "\<exists>t e. SaveCursor ''c'' \<lparr>Repos = Some fmempty\<rparr> (initial_sys () (empty_fs\<lparr>files := [''c'' \<mapsto> ''old''],
       writeFault := [tmp_path ''c'' \<mapsto> WriteFails 2 (Foreign ''no space'')]\<rparr>)) = (Some e, t)
     \<and> files (Fs t) ''c'' = Some ''old'' \<and> files (Fs t) (tmp_path ''c'') \<noteq> None"
proof -
  let ?s = "initial_sys () (empty_fs\<lparr>files := [''c'' \<mapsto> ''old''],
       writeFault := [tmp_path ''c'' \<mapsto> WriteFails 2 (Foreign ''no space'')]\<rparr>)"
  let ?r = "SaveCursor ''c'' \<lparr>Repos = Some fmempty\<rparr> ?s"
  have "fst ?r = Some (Wrapf ''write cursor tmp path=c'' (Foreign ''no space''))"
    and tmp: "files (Fs (snd ?r)) (tmp_path ''c'') \<noteq> None"
    by (simp_all add: SaveCursor_def WriteFile_def empty_fs_def tmp_path_def Let_def)
  then have h: "?r = (Some (Wrapf ''write cursor tmp path=c'' (Foreign ''no space'')), snd ?r)"
    by (metis prod.collapse)
  show ?thesis using SaveCursor_atomic [OF h] h tmp by (auto simp: empty_fs_def)
qed

text \<open>A file system without faults that holds a saved cursor with one entry.\<close>

definition demo_cursor :: Cursor where
  "demo_cursor = \<lparr>Repos = Some (fmupd ''k'' (Some \<lparr>LastSeenMasterSHA = ''a1'', LastBuiltTag = ''v1''\<rparr>) fmempty)\<rparr>"

definition demo_sys :: "unit sys" where
  "demo_sys = snd (SaveCursor ''c'' demo_cursor (initial_sys () empty_fs))"

lemma demo_save: "SaveCursor ''c'' c (initial_sys () empty_fs) =
    (None, snd (SaveCursor ''c'' c (initial_sys () empty_fs)))"
  by (simp add: SaveCursor_def WriteFile_def Rename_def empty_fs_def Let_def)

lemmas demo_frame = SaveCursor_frame(7) [OF demo_save, unfolded empty_fs_def]

lemma demo_valid: "cursor_valid demo_cursor"
  by (auto simp: demo_cursor_def cursor_valid_def valid_utf8_ascii split: if_splits)

lemma demo_load: "LoadCursor ''c'' demo_sys = Inr demo_cursor" "readFault (Fs demo_sys) ''c'' = None"
  unfolding demo_sys_def
  by (rule LoadCursor_after_valid_save [OF demo_save demo_valid])
    (simp_all add: demo_cursor_def empty_fs_def demo_frame)

lemma demo_save_again: "SaveCursor ''c'' c demo_sys \<noteq> (Some e, t)"
  by (auto simp: demo_sys_def SaveCursor_def WriteFile_def Rename_def empty_fs_def Let_def)

text \<open>C39: resetting a key forgets exactly its entry. Without a key the reply is 400, for a key
  that the cursor does not have it is 404, and nothing happens; otherwise the key's entry is
  gone from the saved cursor and every other one is as it was, or the save failed, the reply is
  an error and the cursor file is unchanged.\<close>

theorem ResetCursorHandler_effect:
  assumes reset: "ResetCursorHandler path key s = (r, t)"
    and load: "LoadCursor path s = Inr c" "readFault (Fs s) path = None"
  shows "if key = [] then t = s \<and> (\<exists>e. r = Inl e \<and> err_status e = Some 400)
    else if \<forall>m. Repos c = Some m \<longrightarrow> fmlookup m key = None then t = s \<and> (\<exists>e. r = Inl e \<and> err_status e = Some 404)
    else (\<exists>e. r = Inl e \<and> files (Fs t) path = files (Fs s) path)
    \<or> (\<exists>c'. (\<exists>reply. r = Inr reply) \<and> LoadCursor path t = Inr c'
         \<and> (\<forall>k. repo_entry c' k = (if k = key then None else repo_entry c k)))"
proof -
  obtain m where m: "Repos c = Some m" using LoadCursor_map [OF load(1)] by auto
  show ?thesis
  proof (cases "key = [] \<or> fmlookup m key = None")
    case True
    then show ?thesis
      using reset load(1) m by (auto simp: ResetCursorHandler_def StatusNotFound_def StatusBadRequest_def split: if_splits)
  next
    case False
    let ?c = "c\<lparr>Repos := Some (fmdrop key m)\<rparr>"
    obtain sr u where save: "SaveCursor path ?c s = (sr, u)" by fastforce
    show ?thesis
    proof (cases sr)
      case (Some e)
      then have "r = Inl (Wrapf ''save cursor after reset'' e)" "t = u"
        using reset load(1) m False save by (auto simp: ResetCursorHandler_def)
      then show ?thesis using SaveCursor_content [OF save] Some m False by auto
    next
      case None
      then have "\<exists>reply. r = Inr reply" "t = u"
        using reset load(1) m False save by (auto simp: ResetCursorHandler_def)
      moreover have "LoadCursor path u = Inr ?c"
        using LoadCursor_after_valid_save [OF save [unfolded None] cursor_valid_drop [OF LoadCursor_valid [OF load(1)] m]]
          load(2) by simp
      moreover have "repo_entry ?c k = (if k = key then None else repo_entry c k)" for k
        by (simp add: repo_entry_def m)
      ultimately have "\<exists>c'. (\<exists>reply. r = Inr reply) \<and> LoadCursor path t = Inr c'
          \<and> (\<forall>k. repo_entry c' k = (if k = key then None else repo_entry c k))" by blast
      then show ?thesis using False m by auto
    qed
  qed
qed

theorem ResetCursorHandler_effect_witness:
  "\<exists>c'. LoadCursor ''c'' (snd (ResetCursorHandler ''c'' ''k'' demo_sys)) = Inr c' \<and> repo_entry c' ''k'' = None"
proof -
  let ?r = "ResetCursorHandler ''c'' ''k'' demo_sys"
  have ok: "\<exists>reply. fst ?r = Inr reply"
    using demo_load(1)
    by (auto simp: ResetCursorHandler_def demo_cursor_def demo_save_again split: prod.split option.split)
  have "?r = (fst ?r, snd ?r)" by simp
  from ResetCursorHandler_effect [OF this demo_load(1) demo_load(2)] ok
  show ?thesis by (auto split: if_splits)
qed

text \<open>C38: setting the cursor of a key replaces its whole entry by the given commit with no
  built tag, and leaves every other entry as it was; a reply that is an error means that the
  file is unchanged.\<close>

theorem SetCursorHandler_effect:
  assumes set: "SetCursorHandler path key sha s = (r, t)"
    and load: "LoadCursor path s = Inr c" "readFault (Fs s) path = None"
    and utf8: "valid_utf8 key" "valid_utf8 sha"
  shows "(\<exists>e. r = Inl e \<and> files (Fs t) path = files (Fs s) path)
    \<or> (\<exists>c'. (\<exists>reply. r = Inr reply) \<and> key \<noteq> [] \<and> sha \<noteq> [] \<and> LoadCursor path t = Inr c'
         \<and> (\<forall>k. repo_entry c' k = (if k = key then Some \<lparr>LastSeenMasterSHA = sha, LastBuiltTag = []\<rparr>
                                  else repo_entry c k)))"
proof -
  obtain m where m: "Repos c = Some m" using LoadCursor_map [OF load(1)] by auto
  show ?thesis
  proof (cases "key = [] \<or> sha = []")
    case True
    then show ?thesis using set by (auto simp: SetCursorHandler_def split: if_splits)
  next
    case False
    let ?c = "c\<lparr>Repos := Some (fmupd key (Some (emptyRepoState\<lparr>LastSeenMasterSHA := sha\<rparr>)) m)\<rparr>"
    obtain sr u where save: "SaveCursor path ?c s = (sr, u)" by fastforce
    show ?thesis
    proof (cases sr)
      case (Some e)
      then have "r = Inl (Wrapf ''save cursor after set'' e)" "t = u"
        using set load(1) m False save by (auto simp: SetCursorHandler_def Let_def)
      then show ?thesis using SaveCursor_content [OF save] Some by auto
    next
      case None
      then have "\<exists>reply. r = Inr reply" "t = u"
        using set load(1) m False save by (auto simp: SetCursorHandler_def Let_def)
      moreover have "LoadCursor path u = Inr ?c"
        using LoadCursor_after_valid_save [OF save [unfolded None] cursor_valid_upd [OF LoadCursor_valid [OF load(1)] m utf8]]
          load(2) by simp
      moreover have "repo_entry ?c k = (if k = key then Some \<lparr>LastSeenMasterSHA = sha, LastBuiltTag = []\<rparr>
          else repo_entry c k)" for k
        by (simp add: repo_entry_def m emptyRepoState_def)
      ultimately show ?thesis using False by blast
    qed
  qed
qed

theorem SetCursorHandler_effect_witness:
  "\<exists>c'. LoadCursor ''c'' (snd (SetCursorHandler ''c'' ''k'' ''b2'' demo_sys)) = Inr c'
     \<and> repo_entry c' ''k'' = Some \<lparr>LastSeenMasterSHA = ''b2'', LastBuiltTag = ''''\<rparr>"
proof -
  let ?r = "SetCursorHandler ''c'' ''k'' ''b2'' demo_sys"
  have ok: "\<exists>reply. fst ?r = Inr reply"
    using demo_load(1)
    by (auto simp: SetCursorHandler_def Let_def demo_save_again split: prod.split option.split)
  have "?r = (fst ?r, snd ?r)" by simp
  from SetCursorHandler_effect [OF this demo_load(1) demo_load(2)] ok
  show ?thesis by (auto simp: valid_utf8_ascii)
qed

end
