(* ===== verification/Filters.thy ===== *)
theory Filters
  imports Domain
begin

text \<open>
  The filter chain of \<open>pkg/filter\<close> and its composition in \<open>pkg/factory\<close>. A filter maps the
  evaluation input to a skip reason, the empty string meaning pass. The matching of a
  repository key against the allowlist (package repoallowlist) is a parameter.
\<close>

record FRelease =
  RepoKey :: string
  FHeadSHA :: string
  FUnreleasedBullets :: nat
  FAutoRelease :: bool
  FFork :: bool
  FAllowFork :: bool

type_synonym filter = "FRelease \<Rightarrow> string"

text \<open>\<open>TaskCreationFilters.Skip\<close>: the first non-empty reason.\<close>

fun FiltersSkip :: "filter list \<Rightarrow> filter" where
  "FiltersSkip [] release = ''''"
| "FiltersSkip (f # fs) release =
     (let reason = f release in if reason \<noteq> '''' then reason else FiltersSkip fs release)"

definition ParseRepoAllowlist :: "string \<Rightarrow> string list" where
  "ParseRepoAllowlist raw =
     (if raw = '''' then []
      else List.filter (\<lambda>entry. entry \<noteq> '''') (map TrimSpace (Split raw CHR '','')))"

definition RepoAllowlistFilter :: "(string list \<Rightarrow> string \<Rightarrow> bool) \<Rightarrow> string list \<Rightarrow> filter" where
  "RepoAllowlistFilter isAllowed allowlist release =
     (if \<not> isAllowed allowlist (RepoKey release) then ''scope'' else '''')"

definition EmptyUnreleasedFilter :: filter where
  "EmptyUnreleasedFilter release =
     (if FUnreleasedBullets release = 0 then ''empty_unreleased'' else '''')"

definition AutoReleaseFilter :: filter where
  "AutoReleaseFilter release = (if FAutoRelease release then '''' else ''auto_release'')"

definition ForkFilter :: filter where
  "ForkFilter release =
     (if \<not> FFork release then '''' else if FAllowFork release then '''' else ''fork'')"

text \<open>The cursor is read through \<open>CursorReader.LastSeenSHA\<close>, here a function.\<close>

definition SHAUnchangedFilter :: "(string \<Rightarrow> string) \<Rightarrow> filter" where
  "SHAUnchangedFilter lastSeenSHA release =
     (if lastSeenSHA (RepoKey release) = FHeadSHA release then ''sha_unchanged'' else '''')"

definition CreateStaticFilters :: "(string list \<Rightarrow> string \<Rightarrow> bool) \<Rightarrow> string list \<Rightarrow> filter" where
  "CreateStaticFilters isAllowed allowlist =
     FiltersSkip [RepoAllowlistFilter isAllowed allowlist, EmptyUnreleasedFilter,
                  AutoReleaseFilter, ForkFilter]"

section \<open>Facts\<close>

lemmas filter_defs = RepoAllowlistFilter_def EmptyUnreleasedFilter_def AutoReleaseFilter_def
  ForkFilter_def SHAUnchangedFilter_def

text \<open>The chain passes exactly what every member passes, and otherwise reports the first vote.\<close>

lemma FiltersSkip_pass_iff: "FiltersSkip fs r = '''' \<longleftrightarrow> (\<forall>f\<in>set fs. f r = '''')"
  by (induction fs) (auto simp: Let_def)

lemma FiltersSkip_first:
  "FiltersSkip fs r = (case dropWhile (\<lambda>f. f r = '''') fs of [] \<Rightarrow> '''' | f # _ \<Rightarrow> f r)"
  by (induction fs) (auto simp: Let_def)

lemma FiltersSkip_append:
  "FiltersSkip (fs @ gs) r = (if FiltersSkip fs r \<noteq> '''' then FiltersSkip fs r else FiltersSkip gs r)"
  by (induction fs) (auto simp: Let_def)

lemma static_filters_pass_iff:
  "CreateStaticFilters isAllowed allowlist r = '''' \<longleftrightarrow>
     isAllowed allowlist (RepoKey r) \<and> FUnreleasedBullets r \<noteq> 0 \<and> FAutoRelease r
       \<and> (FFork r \<longrightarrow> FAllowFork r)"
  by (auto simp: CreateStaticFilters_def FiltersSkip_pass_iff filter_defs)

lemma static_filters_reasons:
  "CreateStaticFilters isAllowed allowlist r \<in>
     {'''', ''scope'', ''empty_unreleased'', ''auto_release'', ''fork''}"
  by (simp add: CreateStaticFilters_def filter_defs Let_def)

lemma ParseRepoAllowlist_no_empty: "'''' \<notin> set (ParseRepoAllowlist raw)"
  by (simp add: ParseRepoAllowlist_def)

section \<open>Properties\<close>

text \<open>The static chain is this decision list: scope first, then the empty unreleased
  section, then the opt-in, then the fork gate; the empty string is a pass.\<close>

theorem CreateStaticFilters_decision:
  "CreateStaticFilters isAllowed allowlist r =
     (if \<not> isAllowed allowlist (RepoKey r) then ''scope''
      else if FUnreleasedBullets r = 0 then ''empty_unreleased''
      else if \<not> FAutoRelease r then ''auto_release''
      else if FFork r \<and> \<not> FAllowFork r then ''fork''
      else '''')"
  by (simp add: CreateStaticFilters_def filter_defs Let_def)

text \<open>An allowlist flag parses to no entry at all exactly when every piece between its
  commas is white space; in particular a flag that is not empty may still parse to nothing.\<close>

theorem ParseRepoAllowlist_empty_iff:
  "ParseRepoAllowlist raw = [] \<longleftrightarrow> (\<forall>piece\<in>set (Split raw CHR '',''). \<forall>r\<in>set (runes piece). IsSpace r)"
proof -
  have "TrimSpace p = '''' \<longleftrightarrow> (\<forall>r\<in>set (runes p). IsSpace r)" for p
    by (rule TrimSpace_empty_iff)
  moreover have "raw = '''' \<Longrightarrow> Split raw CHR '','' = ['''']" by simp
  ultimately show ?thesis
    by (auto simp: ParseRepoAllowlist_def filter_empty_conv runes_def)
qed

theorem ParseRepoAllowlist_empty_iff_witness: "ParseRepoAllowlist '', ,'' = []"
  by (subst ParseRepoAllowlist_empty_iff) (simp add: runes_def DecodeRune_def IsSpace_def)

end
