(* ===== verification/Changelog.thy ===== *)
theory Changelog
  imports Domain
begin

text \<open>
  The changelog parser of \<open>pkg/changelog.go\<close>: \<open>bufio.Scanner\<close> in its line mode (a line of
  64 KiB or more ends the scan without an error the caller sees, and a trailing carriage
  return is dropped), the version header pattern, the line loop with its local variables as
  a record, and a declarative reading of the result that the loop is proved to compute. A
  slice out of range panics in Go; the panic is \<open>None\<close>.
\<close>

record ChangelogSummary =
  SumUnreleasedBullets :: nat
  UnreleasedIsFirst :: bool
  LatestVersion :: string

section \<open>Lines\<close>

definition max_token :: nat where
  "max_token = 65536"

definition dropCR :: "string \<Rightarrow> string" where
  "dropCR l = (if l \<noteq> [] \<and> last l = CHR 0x0D then butlast l else l)"

function scan_lines :: "string \<Rightarrow> string list" where
  "scan_lines s =
     (if s = [] then []
      else (let l = takeWhile (\<lambda>c. c \<noteq> CHR 0x0A) s; rest = dropWhile (\<lambda>c. c \<noteq> CHR 0x0A) s
            in if max_token \<le> length l then []
               else dropCR l # (case rest of [] \<Rightarrow> [] | _ # r \<Rightarrow> scan_lines r)))"
  by pat_completeness auto
termination
proof (relation "measure length", goal_cases)
  case 1
  then show ?case by simp
next
  case (2 s l rest c r)
  then have "length (c # r) \<le> length s"
    by (metis length_dropWhile_le)
  then show ?case by simp
qed

declare scan_lines.simps [simp del]

section \<open>Headings\<close>

text \<open>The pattern \<open>^v?\d+\.\d+\.\d+$\<close>.\<close>

definition is_number :: "string \<Rightarrow> bool" where
  "is_number s \<longleftrightarrow> s \<noteq> [] \<and> list_all is_digit s"

definition versionHeaderRe :: "string \<Rightarrow> bool" where
  "versionHeaderRe t =
     (case Split (case t of c # cs \<Rightarrow> if c = CHR ''v'' then cs else t | [] \<Rightarrow> []) CHR ''.'' of
        [a, b, c] \<Rightarrow> is_number a \<and> is_number b \<and> is_number c
      | _ \<Rightarrow> False)"

text \<open>\<open>heading[3:]\<close> panics on a heading of fewer than three bytes.\<close>

definition isVersionHeader :: "string \<Rightarrow> (string \<times> bool) option" where
  "isVersionHeader heading =
     (if length heading < 3 then None
      else (let versionText = drop 3 heading
            in Some (if versionHeaderRe versionText then (versionText, True) else ('''', False))))"

section \<open>The loop\<close>

record parse_state =
  inUnreleased :: bool
  seenAnyH2 :: bool
  unreleasedOpened :: bool
  unreleasedIsFirstH2 :: bool
  unreleasedBullets :: nat
  latestVersion :: string

definition parse_init :: parse_state where
  "parse_init = \<lparr>inUnreleased = False, seenAnyH2 = False, unreleasedOpened = False,
     unreleasedIsFirstH2 = False, unreleasedBullets = 0, latestVersion = ''''\<rparr>"

definition parse_line :: "parse_state \<Rightarrow> string \<Rightarrow> parse_state option" where
  "parse_line s line =
     (if \<not> HasPrefix line ''## '' then
        Some (if inUnreleased s \<and> HasPrefix line ''- ''
              then s\<lparr>unreleasedBullets := unreleasedBullets s + 1\<rparr> else s)
      else
        (let heading = TrimRight line [CHR '' '', CHR 0x09];
             isFirstH2 = \<not> seenAnyH2 s;
             s1 = s\<lparr>seenAnyH2 := True\<rparr>
         in case isVersionHeader heading of
              None \<Rightarrow> None
            | Some (v, ok) \<Rightarrow>
                Some (if ok then
                        s1\<lparr>latestVersion := (if latestVersion s1 = '''' then v else latestVersion s1),
                           inUnreleased := False\<rparr>
                      else if \<not> unreleasedOpened s1 then
                        s1\<lparr>unreleasedIsFirstH2 := (if isFirstH2 then True else unreleasedIsFirstH2 s1),
                           inUnreleased := True, unreleasedOpened := True\<rparr>
                      else s1\<lparr>inUnreleased := False\<rparr>)))"

fun parse_lines :: "parse_state \<Rightarrow> string list \<Rightarrow> parse_state option" where
  "parse_lines s [] = Some s"
| "parse_lines s (l # ls) =
     (case parse_line s l of None \<Rightarrow> None | Some s' \<Rightarrow> parse_lines s' ls)"

definition ParseChangelog :: "string \<Rightarrow> ChangelogSummary option" where
  "ParseChangelog content =
     (if length content = 0
      then Some \<lparr>SumUnreleasedBullets = 0, UnreleasedIsFirst = False, LatestVersion = ''''\<rparr>
      else map_option (\<lambda>s. \<lparr>SumUnreleasedBullets = unreleasedBullets s,
                            UnreleasedIsFirst = unreleasedIsFirstH2 s,
                            LatestVersion = latestVersion s\<rparr>)
             (parse_lines parse_init (scan_lines content)))"

section \<open>A declarative reading\<close>

definition is_h2 :: "string \<Rightarrow> bool" where
  "is_h2 l \<longleftrightarrow> HasPrefix l ''## ''"

definition heading_text :: "string \<Rightarrow> string" where
  "heading_text l = drop 3 (TrimRight l [CHR '' '', CHR 0x09])"

text \<open>A level-two heading with no text: two hash signs and blanks only.\<close>

definition blank_h2 :: "string \<Rightarrow> bool" where
  "blank_h2 l \<longleftrightarrow> is_h2 l \<and> TrimRight l [CHR '' '', CHR 0x09] = ''##''"

definition version_h2 :: "string \<Rightarrow> bool" where
  "version_h2 l \<longleftrightarrow> is_h2 l \<and> versionHeaderRe (heading_text l)"

definition other_h2 :: "string \<Rightarrow> bool" where
  "other_h2 l \<longleftrightarrow> is_h2 l \<and> \<not> versionHeaderRe (heading_text l)"

definition is_bullet :: "string \<Rightarrow> bool" where
  "is_bullet l \<longleftrightarrow> HasPrefix l ''- ''"

definition body_of :: "string list \<Rightarrow> string list" where
  "body_of ls = takeWhile (\<lambda>l. \<not> is_h2 l) ls"

text \<open>The lines between the first non-version heading and the heading after it.\<close>

definition unreleased_section :: "string list \<Rightarrow> string list" where
  "unreleased_section ls = body_of (tl (dropWhile (\<lambda>l. \<not> other_h2 l) ls))"

definition first_version :: "string list \<Rightarrow> string" where
  "first_version ls = (case filter version_h2 ls of [] \<Rightarrow> '''' | l # _ \<Rightarrow> heading_text l)"

definition first_h2_is_other :: "string list \<Rightarrow> bool" where
  "first_h2_is_other ls = (case filter is_h2 ls of [] \<Rightarrow> False | l # _ \<Rightarrow> other_h2 l)"

definition count_bullets :: "string list \<Rightarrow> nat" where
  "count_bullets ls = length (filter is_bullet ls)"

lemma versionHeaderRe_nonempty: "versionHeaderRe t \<Longrightarrow> t \<noteq> ''''"
  by (auto simp: versionHeaderRe_def)

lemma short_heading_iff:
  assumes "is_h2 l"
  shows "length (TrimRight l [CHR '' '', CHR 0x09]) < 3 \<longleftrightarrow> TrimRight l [CHR '' '', CHR 0x09] = ''##''"
proof -
  let ?t = "TrimRight l [CHR '' '', CHR 0x09]"
  obtain u where l: "l = ''## '' @ u" using assms by (auto simp: is_h2_def HasPrefix_def prefix_def)
  obtain w where w: "l = ?t @ w" and ws: "set w \<subseteq> {CHR '' '', CHR 0x09}"
    using TrimRight_split [of l "[CHR '' '', CHR 0x09]"] by auto
  have long: "2 \<le> length ?t"
  proof (rule ccontr)
    assume "\<not> 2 \<le> length ?t"
    then have "length ?t = 0 \<or> length ?t = 1" by linarith
    then have "CHR ''#'' \<in> set w"
    proof
      assume "length ?t = 0"
      then have "w = l" using w by simp
      then show ?thesis using l by simp
    next
      assume "length ?t = 1"
      then have "w = tl l" using w by (metis append_Cons append_Nil length_0_conv length_Suc_conv list.sel(3) One_nat_def)
      then show ?thesis using l by simp
    qed
    with ws show False by auto
  qed
  have "take 2 ?t = take 2 (?t @ w)" using long by simp
  also have "take 2 (?t @ w) = take 2 l" by (rule arg_cong [OF w [symmetric]])
  also have "take 2 l = ''##''" by (subst l) simp
  finally have two: "take 2 ?t = ''##''" .
  show ?thesis
  proof
    assume "length ?t < 3"
    then have "take 2 ?t = ?t" by simp
    with two show "?t = ''##''" by simp
  qed simp
qed

text \<open>One line: the loop body in terms of the reading.\<close>

lemma parse_line_blank: "blank_h2 l \<Longrightarrow> parse_line s l = None"
  by (simp add: parse_line_def blank_h2_def is_h2_def isVersionHeader_def Let_def)

lemma parse_line_eq:
  assumes "\<not> blank_h2 l"
  shows "parse_line s l = Some
    (if version_h2 l then
       s\<lparr>seenAnyH2 := True, inUnreleased := False,
         latestVersion := (if latestVersion s = '''' then heading_text l else latestVersion s)\<rparr>
     else if other_h2 l then
       (if unreleasedOpened s then s\<lparr>seenAnyH2 := True, inUnreleased := False\<rparr>
        else s\<lparr>seenAnyH2 := True, inUnreleased := True, unreleasedOpened := True,
               unreleasedIsFirstH2 := (unreleasedIsFirstH2 s \<or> \<not> seenAnyH2 s)\<rparr>)
     else if inUnreleased s \<and> is_bullet l then s\<lparr>unreleasedBullets := unreleasedBullets s + 1\<rparr>
     else s)"
proof (cases "is_h2 l")
  case True
  with assms have "\<not> length (TrimRight l [CHR '' '', CHR 0x09]) < 3"
    by (simp add: blank_h2_def short_heading_iff)
  then have v: "isVersionHeader (TrimRight l [CHR '' '', CHR 0x09]) =
      Some (if version_h2 l then (heading_text l, True) else ('''', False))"
    using True by (simp add: isVersionHeader_def version_h2_def heading_text_def Let_def)
  have "other_h2 l \<longleftrightarrow> \<not> version_h2 l" using True by (simp add: other_h2_def version_h2_def)
  with True v show ?thesis by (auto simp: parse_line_def is_h2_def Let_def)
next
  case False
  then show ?thesis
    by (simp add: parse_line_def is_h2_def version_h2_def other_h2_def is_bullet_def)
qed

text \<open>The loop from any state.\<close>

lemma parse_lines_panic: "parse_lines s ls = None \<longleftrightarrow> list_ex blank_h2 ls"
proof (induction ls arbitrary: s)
  case (Cons l ls)
  then show ?case by (cases "blank_h2 l") (simp_all add: parse_line_blank parse_line_eq)
qed simp

lemma count_bullets_simps [simp]:
  "count_bullets [] = 0"
  "count_bullets (l # ls) = (if is_bullet l then 1 else 0) + count_bullets ls"
  by (simp_all add: count_bullets_def)

lemma body_of_simps [simp]:
  "body_of [] = []"
  "body_of (l # ls) = (if is_h2 l then [] else l # body_of ls)"
  by (simp_all add: body_of_def)

lemma unreleased_section_simps [simp]:
  "unreleased_section [] = []"
  "unreleased_section (l # ls) = (if other_h2 l then body_of ls else unreleased_section ls)"
  by (simp_all add: unreleased_section_def)

lemma first_version_simps [simp]:
  "first_version [] = ''''"
  "first_version (l # ls) = (if version_h2 l then heading_text l else first_version ls)"
  by (simp_all add: first_version_def)

lemma first_h2_simps [simp]:
  "first_h2_is_other [] = False"
  "first_h2_is_other (l # ls) = (if is_h2 l then other_h2 l else first_h2_is_other ls)"
  by (simp_all add: first_h2_is_other_def)

lemma h2_cases:
  obtains (ver) "version_h2 l" "is_h2 l" "\<not> other_h2 l" "heading_text l \<noteq> ''''"
  | (other) "other_h2 l" "is_h2 l" "\<not> version_h2 l"
  | (plain) "\<not> is_h2 l" "\<not> version_h2 l" "\<not> other_h2 l"
  using versionHeaderRe_nonempty by (fastforce simp: version_h2_def other_h2_def)

lemma parse_lines_reading:
  assumes "\<not> list_ex blank_h2 ls" and "parse_lines s ls = Some t"
  shows "latestVersion t = (if latestVersion s = '''' then first_version ls else latestVersion s)"
    and "unreleasedBullets t = unreleasedBullets s
          + (if inUnreleased s then count_bullets (body_of ls) else 0)
          + (if unreleasedOpened s then 0 else count_bullets (unreleased_section ls))"
    and "unreleasedIsFirstH2 t = (unreleasedIsFirstH2 s
          \<or> (\<not> unreleasedOpened s \<and> \<not> seenAnyH2 s \<and> first_h2_is_other ls))"
  using assms
proof (induction ls arbitrary: s)
  case Nil
  { case 1 with Nil show ?case by simp }
  { case 2 with Nil show ?case by simp }
  { case 3 with Nil show ?case by simp }
next
  case (Cons l ls)
  { case 1 then show ?case
      using Cons.IH(1) by (cases l rule: h2_cases) (auto simp: parse_line_eq) }
  { case 2 then show ?case
      using Cons.IH(2) by (cases l rule: h2_cases) (auto simp: parse_line_eq) }
  { case 3 then show ?case
      using Cons.IH(3) by (cases l rule: h2_cases) (auto simp: parse_line_eq) }
qed

section \<open>Facts\<close>

text \<open>The lines of a text: what the newlines separate, without an empty last piece.\<close>

definition raw_lines :: "string \<Rightarrow> string list" where
  "raw_lines s = (let ps = Split s (CHR 0x0A) in if last ps = [] then butlast ps else ps)"

lemma raw_lines_Nil [simp]: "raw_lines [] = []"
  by (simp add: raw_lines_def)

lemma raw_lines_last: "s \<noteq> [] \<Longrightarrow> CHR 0x0A \<notin> set s \<Longrightarrow> raw_lines s = [s]"
  by (simp add: raw_lines_def Split_none)

lemma raw_lines_line: "CHR 0x0A \<notin> set l \<Longrightarrow> raw_lines (l @ CHR 0x0A # r) = l # raw_lines r"
  by (simp add: raw_lines_def Split_sep Let_def)

text \<open>The scanner yields the lines up to the first one that does not fit its buffer.\<close>

lemma scan_lines_raw: "scan_lines s = map dropCR (takeWhile (\<lambda>l. length l < max_token) (raw_lines s))"
proof (induction s rule: scan_lines.induct)
  case (1 s)
  define l where l: "l = takeWhile (\<lambda>c. c \<noteq> CHR 0x0A) s"
  define d where d: "d = dropWhile (\<lambda>c. c \<noteq> CHR 0x0A) s"
  have s: "s = l @ d" by (simp add: l d)
  have nl: "CHR 0x0A \<notin> set l" unfolding l using set_takeWhileD by fastforce
  have step: "scan_lines s = (if s = [] then [] else if max_token \<le> length l then []
      else dropCR l # (case d of [] \<Rightarrow> [] | _ # r \<Rightarrow> scan_lines r))"
    by (subst scan_lines.simps) (simp only: Let_def l d)
  show ?case
  proof (cases d)
    case Nil
    with s nl step show ?thesis by (cases "s = []") (simp_all add: raw_lines_last not_le)
  next
    case (Cons c r)
    then have "dropWhile (\<lambda>c. c \<noteq> CHR 0x0A) s \<noteq> []" by (simp only: d list.distinct not_False_eq_True)
    from hd_dropWhile [OF this] have c: "c = CHR 0x0A" by (simp only: d [symmetric] Cons list.sel simp_thms)
    have raw: "raw_lines s = l # raw_lines r" using raw_lines_line [OF nl, of r] s Cons c by simp
    have ne: "s \<noteq> []" using s Cons by simp
    show ?thesis
    proof (cases "max_token \<le> length l")
      case True
      with step raw ne show ?thesis by simp
    next
      case False
      from 1 [OF ne l d False Cons] False step raw ne Cons show ?thesis by simp
    qed
  qed
qed

definition changelog_reading :: "string list \<Rightarrow> ChangelogSummary" where
  "changelog_reading ls =
     \<lparr>SumUnreleasedBullets = count_bullets (unreleased_section ls),
      UnreleasedIsFirst = first_h2_is_other ls,
      LatestVersion = first_version ls\<rparr>"

lemma ParseChangelog_cases:
  "ParseChangelog content =
     (if list_ex blank_h2 (scan_lines content) then None
      else Some (changelog_reading (scan_lines content)))"
proof (cases "content = []")
  case True
  then show ?thesis
    by (simp add: ParseChangelog_def scan_lines.simps changelog_reading_def)
next
  case False
  show ?thesis
  proof (cases "list_ex blank_h2 (scan_lines content)")
    case True
    with False show ?thesis
      using parse_lines_panic [of parse_init "scan_lines content"] by (simp add: ParseChangelog_def)
  next
    case nb: False
    then obtain t where t: "parse_lines parse_init (scan_lines content) = Some t"
      using parse_lines_panic [of parse_init "scan_lines content"] by auto
    with False nb parse_lines_reading [OF nb t] show ?thesis
      by (simp add: ParseChangelog_def changelog_reading_def parse_init_def)
  qed
qed

section \<open>Properties\<close>

text \<open>C17: the parser's loop with its four flags computes the declarative reading of the
  changelog: the bullets between the first non-version heading and the next heading, whether
  that heading comes first, and the first version heading. It reads the lines before the
  first one that does not fit the scanner's buffer of 64 KiB, and it panics (no result)
  exactly when one of these lines is a level-two heading without text.\<close>

theorem ParseChangelog_refines_reading:
  "ParseChangelog content =
     (let ls = map dropCR (takeWhile (\<lambda>l. length l < max_token) (raw_lines content))
      in if list_ex blank_h2 ls then None else Some (changelog_reading ls))"
  by (simp add: ParseChangelog_cases scan_lines_raw Let_def)

text \<open>Bullets are counted at most once: the count never exceeds the number of bullet
  lines of the file, and without a non-version heading it is zero.\<close>

theorem ParseChangelog_bullets_bound:
  assumes "ParseChangelog content = Some summary"
  shows "SumUnreleasedBullets summary \<le> count_bullets (scan_lines content)
    \<and> (\<not> list_ex other_h2 (scan_lines content) \<longrightarrow> SumUnreleasedBullets summary = 0)"
proof -
  have sub: "count_bullets (body_of ls) \<le> count_bullets ls" for ls by (induction ls) auto
  have "count_bullets (unreleased_section ls) \<le> count_bullets ls" for ls
    by (induction ls) (use sub in \<open>auto intro: le_SucI\<close>)
  moreover have "\<not> list_ex other_h2 ls \<Longrightarrow> count_bullets (unreleased_section ls) = 0" for ls
    by (induction ls) auto
  moreover have "SumUnreleasedBullets summary = count_bullets (unreleased_section (scan_lines content))"
    using assms by (auto simp: ParseChangelog_cases changelog_reading_def split: if_splits)
  ultimately show ?thesis by simp
qed

theorem ParseChangelog_bullets_bound_witness:
  "\<exists>summary. ParseChangelog '''' = Some summary
     \<and> SumUnreleasedBullets summary \<le> count_bullets (scan_lines '''')"
proof -
  have h: "ParseChangelog '''' = Some \<lparr>SumUnreleasedBullets = 0, UnreleasedIsFirst = False, LatestVersion = ''''\<rparr>"
    by (simp add: ParseChangelog_def)
  show ?thesis using h ParseChangelog_bullets_bound [OF h] by blast
qed

text \<open>A changelog whose heading has no text makes the parser panic.\<close>

lemma ParseChangelog_blank_heading_panics: "ParseChangelog ''## '' = None"
proof -
  have "scan_lines ''## '' = [''## '']"
    by (simp add: scan_lines_raw raw_lines_last max_token_def dropCR_def)
  then show ?thesis
    by (simp add: ParseChangelog_cases blank_h2_def is_h2_def HasPrefix_def TrimRight_def)
qed

end
