(* ===== verification/Watcher.thy ===== *)
theory Watcher
  imports Backstop Publisher Cursor Filters Changelog
begin

text \<open>
  The poll cycle of \<open>pkg/watcher.go\<close>. The cursor that the Go code mutates through a pointer
  is threaded through the loop; the filter chain of a cycle reads it at the moment a
  repository is filtered. A panic of the changelog parser ends the cycle (the deferred gauge
  update still runs), and a listing that never ends is \<open>None\<close>.
\<close>

record 'w watcher =
  WGh :: "'w GitHubClient"
  WPublish :: "'w TaskPublisher"
  WCursorPath :: string
  WOwner :: string
  WFilter :: filter
  WQuotaMin :: int
  WBackstop :: "'w TagBackstop"

section \<open>One repository\<close>

datatype gathered = Gathered Release | Aborted string | Dropped | GatherPanic

definition gather_error :: "goerr \<Rightarrow> gathered" where
  "gather_error e = (if err_is ErrRateLimited e then Aborted ''rate_limited'' else Dropped)"

definition gatherRelease :: "'w GitHubClient \<Rightarrow> Repo \<Rightarrow> 'w sys \<Rightarrow> gathered \<times> 'w sys" where
  "gatherRelease gh repo s =
     (case GetMasterSHA gh repo s of
        (Inl e, t) \<Rightarrow> (gather_error e, t)
      | (Inr headSHA, t) \<Rightarrow>
          (case GetChangelogContent gh repo t of
             (Inl e, u) \<Rightarrow> (gather_error e, u)
           | (Inr raw, u) \<Rightarrow>
               (case GetMaintainerConfig gh repo u of
                  (Inl e, v) \<Rightarrow> (gather_error e, v)
                | (Inr cfg, v) \<Rightarrow>
                    (case ParseChangelog (case raw of None \<Rightarrow> '''' | Some c \<Rightarrow> c) of
                       None \<Rightarrow> (GatherPanic, v)
                     | Some summary \<Rightarrow>
                         (Gathered \<lparr>RelRepo = repo, HeadSHA = headSHA,
                            CurrentVersion = (if LatestVersion summary = '''' then ''v0.0.0''
                                              else LatestVersion summary),
                            UnreleasedBullets = SumUnreleasedBullets summary,
                            AutoRelease = McAutoRelease cfg, AllowFork = McAllowFork cfg\<rparr>, v)))))"

definition filter_input :: "Repo \<Rightarrow> Release \<Rightarrow> FRelease" where
  "filter_input repo release =
     \<lparr>RepoKey = Key repo, FHeadSHA = HeadSHA release, FUnreleasedBullets = UnreleasedBullets release,
      FAutoRelease = AutoRelease release, FFork = Fork repo, FAllowFork = AllowFork release\<rparr>"

definition cycle_filter :: "filter \<Rightarrow> bool \<Rightarrow> Cursor \<Rightarrow> filter" where
  "cycle_filter static skipSHAUnchanged cursor =
     FiltersSkip ([static] @ (if \<not> skipSHAUnchanged then [SHAUnchangedFilter (LastSeenSHA cursor)] else []))"

definition filterSkipMessage :: "string \<Rightarrow> string \<Rightarrow> string" where
  "filterSkipMessage repoKey reason =
     (if reason = ''fork'' then ''github-release-watcher skipping repo='' @ repoKey
        @ '' reason='' @ reason @ '' detail=allowFork-not-set''
      else ''github-release-watcher skipping repo='' @ repoKey @ '' reason='' @ reason)"

text \<open>
  \<open>repoState\<close> followed by an update through the pointer it returns: the entry is created when
  the key is missing or nil, and the map when it is nil.
\<close>

definition update_state :: "(RepoState \<Rightarrow> RepoState) \<Rightarrow> string \<Rightarrow> Cursor \<Rightarrow> Cursor" where
  "update_state f key c =
     (let m = (case Repos c of None \<Rightarrow> fmempty | Some m \<Rightarrow> m);
          st = (case repo_entry c key of None \<Rightarrow> emptyRepoState | Some st \<Rightarrow> st)
      in c\<lparr>Repos := Some (fmupd key (Some (f st)) m)\<rparr>)"

definition built_tag :: "Cursor \<Rightarrow> string \<Rightarrow> string" where
  "built_tag c key = (case repo_entry c key of None \<Rightarrow> '''' | Some st \<Rightarrow> LastBuiltTag st)"

definition runBackstop :: "'w TagBackstop \<Rightarrow> 'w ctx \<Rightarrow> Repo \<Rightarrow> Cursor \<Rightarrow> 'w sys \<Rightarrow> Cursor \<times> 'w sys" where
  "runBackstop backstop ctx repo c s =
     (case backstop ctx repo (built_tag c (Key repo)) s of
        (Inl e, t) \<Rightarrow> (c, t)
      | (Inr tag, t) \<Rightarrow>
          (if tag = '''' then (c, t)
           else (update_state (\<lambda>st. st\<lparr>LastBuiltTag := tag\<rparr>) (Key repo) c, t)))"

datatype step = Continue | Return string | Panic

text \<open>One turn of the loop of \<open>processRepos\<close>.\<close>

definition processRepo ::
    "'w watcher \<Rightarrow> 'w ctx \<Rightarrow> bool \<Rightarrow> Repo \<Rightarrow> Cursor \<Rightarrow> 'w sys \<Rightarrow> step \<times> Cursor \<times> 'w sys" where
  "processRepo w ctx skipSHA repo c s =
     (if ctx s \<noteq> None then (Return '''', c, s)
      else (case runBackstop (WBackstop w) ctx repo c s of
        (c1, s1) \<Rightarrow>
          (case gatherRelease (WGh w) repo s1 of
             (Aborted reason, s2) \<Rightarrow> (Return reason, c1, s2)
           | (Dropped, s2) \<Rightarrow> (Continue, c1, s2)
           | (GatherPanic, s2) \<Rightarrow> (Panic, c1, s2)
           | (Gathered release, s2) \<Rightarrow>
               (let reason = cycle_filter (WFilter w) skipSHA c1 (filter_input repo release)
                in if reason \<noteq> '''' then (Continue, c1, act (IncFilterSkipped reason) s2)
                   else (case WPublish w release s2 of
                       (ok, s3) \<Rightarrow>
                         (Continue,
                          if ok then update_state (\<lambda>st. st\<lparr>LastSeenMasterSHA := HeadSHA release\<rparr>) (Key repo) c1
                          else c1, s3))))))"

fun processRepos ::
    "'w watcher \<Rightarrow> 'w ctx \<Rightarrow> bool \<Rightarrow> Repo list \<Rightarrow> Cursor \<Rightarrow> 'w sys \<Rightarrow> string option \<times> Cursor \<times> 'w sys" where
  "processRepos w ctx skipSHA [] c s = (Some '''', c, s)"
| "processRepos w ctx skipSHA (repo # repos) c s =
     (case processRepo w ctx skipSHA repo c s of
        (Continue, c', s') \<Rightarrow> processRepos w ctx skipSHA repos c' s'
      | (Return reason, c', s') \<Rightarrow> (Some reason, c', s')
      | (Panic, c', s') \<Rightarrow> (None, c', s'))"

section \<open>The cycle\<close>

definition scopeRepo :: "string \<Rightarrow> string \<Rightarrow> Repo option" where
  "scopeRepo scope own =
     (let parts = Split scope CHR ''/''
      in if length parts \<noteq> 2 \<or> parts ! 0 \<noteq> own \<or> parts ! 1 = '''' then None
         else Some \<lparr>Owner = parts ! 0, Name = parts ! 1, DefaultBranch = '''', Fork = False\<rparr>)"

text \<open>\<open>None\<close> inside is \<open>ok=false\<close>; the outer \<open>None\<close> is a listing that never ends.\<close>

definition resolveRepos ::
    "'w watcher \<Rightarrow> 'w ctx \<Rightarrow> string \<Rightarrow> 'w sys \<Rightarrow> (Repo list option \<times> 'w sys) option" where
  "resolveRepos w ctx scope s =
     (if scope \<noteq> '''' then
        (case scopeRepo scope (WOwner w) of None \<Rightarrow> Some (None, s) | Some repo \<Rightarrow> Some (Some [repo], s))
      else (case ListRepos (WGh w) ctx (WOwner w) s of
          None \<Rightarrow> None
        | Some (Inr repos, t) \<Rightarrow> Some (Some repos, t)
        | Some (Inl e, t) \<Rightarrow>
            (if err_is ErrRateLimited e then Some (None, act (IncPollCycle ''rate_limited'') t)
             else Some (None, act (IncPollCycle ''github_error'') t))))"

datatype poll_result = PollOk | PollErr goerr | PollPanic

definition quota_gate :: "'w watcher \<Rightarrow> string \<Rightarrow> 'w sys \<Rightarrow> bool" where
  "quota_gate w scope s \<longleftrightarrow> scope = '''' \<and> 0 < WQuotaMin w
     \<and> (let remaining = RateLimitRemaining (WGh w) s in 0 < remaining \<and> remaining < WQuotaMin w)"

definition Poll ::
    "'w watcher \<Rightarrow> 'w ctx \<Rightarrow> bool \<Rightarrow> string \<Rightarrow> 'w sys \<Rightarrow> (poll_result \<times> 'w sys) option" where
  "Poll w ctx skipSHAUnchanged scope s =
     (case LoadCursor (WCursorPath w) s of
        Inl e \<Rightarrow> Some (PollErr (Wrapf (''load cursor path='' @ WCursorPath w) e), s)
      | Inr cursor \<Rightarrow>
          (let deferred = act (SetRateLimitRemaining (RateLimitRemaining (WGh w) s))
           in if quota_gate w scope s then Some (PollOk, deferred (act (IncPollCycle ''quota_low'') s))
              else (case resolveRepos w ctx scope s of
                  None \<Rightarrow> None
                | Some (None, t) \<Rightarrow> Some (PollOk, deferred t)
                | Some (Some repos, t) \<Rightarrow>
                    (case processRepos w ctx skipSHAUnchanged repos cursor
                            (act (IncReposScanned (length repos)) t) of
                       (None, _, u) \<Rightarrow> Some (PollPanic, deferred u)
                     | (Some abortReason, c, u) \<Rightarrow>
                         (if abortReason \<noteq> '''' then Some (PollOk, deferred (act (IncPollCycle abortReason) u))
                          else Some (PollOk, deferred (act (IncPollCycle ''success'')
                                 (snd (SaveCursor (WCursorPath w) c u)))))))))"

definition NewWatcher ::
    "'w GitHubClient \<Rightarrow> 'w TaskPublisher \<Rightarrow> string \<Rightarrow> string \<Rightarrow> filter \<Rightarrow> int \<Rightarrow> 'w TagBackstop option
       \<Rightarrow> 'w watcher" where
  "NewWatcher gh publish cursorPath own flt quotaMin backstop =
     \<lparr>WGh = gh, WPublish = publish, WCursorPath = cursorPath, WOwner = own, WFilter = flt,
      WQuotaMin = quotaMin,
      WBackstop = (case backstop of None \<Rightarrow> NoopTagBackstop | Some b \<Rightarrow> b)\<rparr>"

section \<open>Reading the cursor\<close>

lemma repo_entry_update:
  "repo_entry (update_state f key c) k =
     (if k = key then Some (f (case repo_entry c key of None \<Rightarrow> emptyRepoState | Some st \<Rightarrow> st))
      else repo_entry c k)"
  by (auto simp: update_state_def repo_entry_def Let_def split: option.splits)

lemma LastSeenSHA_update_seen:
  "LastSeenSHA (update_state (\<lambda>st. st\<lparr>LastSeenMasterSHA := sha\<rparr>) key c) k =
     (if k = key then sha else LastSeenSHA c k)"
  by (simp add: LastSeenSHA_def repo_entry_update)

lemma built_tag_update_seen:
  "built_tag (update_state (\<lambda>st. st\<lparr>LastSeenMasterSHA := sha\<rparr>) key c) k = built_tag c k"
  by (auto simp: built_tag_def repo_entry_update emptyRepoState_def split: option.split)

lemma LastSeenSHA_update_built:
  "LastSeenSHA (update_state (\<lambda>st. st\<lparr>LastBuiltTag := tag\<rparr>) key c) k = LastSeenSHA c k"
  by (auto simp: LastSeenSHA_def repo_entry_update emptyRepoState_def split: option.split)

lemma built_tag_update_built:
  "built_tag (update_state (\<lambda>st. st\<lparr>LastBuiltTag := tag\<rparr>) key c) k =
     (if k = key then tag else built_tag c k)"
  by (simp add: built_tag_def repo_entry_update)

lemma cycle_filter_pass:
  "cycle_filter flt skipSHA c r = '''' \<longleftrightarrow>
     flt r = '''' \<and> (skipSHA \<or> LastSeenSHA c (RepoKey r) \<noteq> FHeadSHA r)"
  by (auto simp: cycle_filter_def FiltersSkip_pass_iff SHAUnchangedFilter_def
      simp del: FiltersSkip.simps split: if_splits)

section \<open>What a cycle does\<close>

text \<open>The actions of the loop over the repositories: those of the filters and of the publisher,
  and those of the backstop, which are build actions.\<close>

fun repo_action :: "filter \<Rightarrow> (action \<Rightarrow> bool) \<Rightarrow> action \<Rightarrow> bool" where
  "repo_action flt bact (IncFilterSkipped reason) =
     (reason \<in> insert ''sha_unchanged'' (range flt) - {''''} \<or> bact (IncFilterSkipped reason))"
| "repo_action flt bact (SendCreate cmd ok) = True"
| "repo_action flt bact (IncPublished status) = (status = ''create'' \<or> status = ''error'')"
| "repo_action flt bact a = bact a"

text \<open>What a repository that is not announced leaves behind: nothing, or one counted skip.\<close>

definition skipped :: "'w watcher \<Rightarrow> (action \<Rightarrow> bool) \<Rightarrow> action list \<Rightarrow> bool" where
  "skipped w bact rest \<longleftrightarrow> rest = [] \<or> (\<exists>reason. rest = [IncFilterSkipped reason]
     \<and> repo_action (WFilter w) bact (IncFilterSkipped reason))"

lemma skipped_acts:
  "skipped w bact rest \<Longrightarrow> list_all (repo_action (WFilter w) bact) rest \<and> SendCreate cmd ok \<notin> set rest"
  by (auto simp: skipped_def)

lemma cycle_filter_reason:
  "cycle_filter flt skipSHA c r \<noteq> [] \<Longrightarrow>
     cycle_filter flt skipSHA c r \<in> insert ''sha_unchanged'' (range flt) - {[]}"
  by (auto simp: cycle_filter_def SHAUnchangedFilter_def Let_def split: if_splits)

definition gathered_as :: "'w GitHubClient \<Rightarrow> Release \<Rightarrow> bool" where
  "gathered_as gh release \<longleftrightarrow> (\<exists>u v. gatherRelease gh (RelRepo release) u = (Gathered release, v))"

lemma gatherRelease_repo: "gatherRelease gh repo s = (Gathered release, t) \<Longrightarrow> RelRepo release = repo"
  by (auto simp: gatherRelease_def gather_error_def split: prod.splits sum.splits option.splits if_splits)

definition published ::
    "'w watcher \<Rightarrow> (Release \<Rightarrow> CreateCommand) \<Rightarrow> bool \<Rightarrow> Repo \<Rightarrow> Cursor \<Rightarrow> action list \<Rightarrow> Release \<Rightarrow> bool \<Rightarrow> bool" where
  "published w command_of skipSHA repo c rest release ok \<longleftrightarrow>
     rest = [SendCreate (command_of release) ok, IncPublished (if ok then ''create'' else ''error'')]
     \<and> RelRepo release = repo \<and> gathered_as (WGh w) release
     \<and> WFilter w (filter_input repo release) = []
     \<and> (skipSHA \<or> LastSeenSHA c (Key repo) \<noteq> HeadSHA release)"

text \<open>
  What a run over repositories may do with the cursor: an entry's commit moves only to one
  that a successful send announced for that repository, its tag only to one that was handled.
\<close>

definition sent :: "(Release \<Rightarrow> CreateCommand) \<Rightarrow> action list \<Rightarrow> string \<Rightarrow> string \<Rightarrow> bool" where
  "sent command_of as key sha \<longleftrightarrow> (\<exists>release. SendCreate (command_of release) True \<in> set as
     \<and> Key (RelRepo release) = key \<and> HeadSHA release = sha)"

definition cursor_moves ::
    "(Release \<Rightarrow> CreateCommand) \<Rightarrow> (Repo \<Rightarrow> string \<Rightarrow> bool) \<Rightarrow> Repo list \<Rightarrow> action list \<Rightarrow> Cursor \<Rightarrow> Cursor \<Rightarrow> bool" where
  "cursor_moves command_of handled repos as c c' \<longleftrightarrow> (\<forall>k.
     (LastSeenSHA c' k = LastSeenSHA c k \<or> sent command_of as k (LastSeenSHA c' k))
     \<and> (built_tag c' k = built_tag c k
        \<or> (\<exists>repo\<in>set repos. k = Key repo \<and> handled repo (built_tag c' k))))"

text \<open>
  When a command may be sent: it was built from a release gathered for a scanned repository
  that every filter lets through, and unless the cycle is forced its commit differs from the
  cursor's (or from what this very cycle announced for the repository before).
\<close>

definition send_justified ::
    "'w watcher \<Rightarrow> (Release \<Rightarrow> CreateCommand) \<Rightarrow> bool \<Rightarrow> Repo list \<Rightarrow> Cursor \<Rightarrow> action list \<Rightarrow> CreateCommand \<Rightarrow> bool" where
  "send_justified w command_of skipSHA repos c as cmd \<longleftrightarrow> (\<exists>release.
     cmd = command_of release \<and> RelRepo release \<in> set repos \<and> gathered_as (WGh w) release
     \<and> WFilter w (filter_input (RelRepo release) release) = []
     \<and> (skipSHA \<or> LastSeenSHA c (Key (RelRepo release)) \<noteq> HeadSHA release
        \<or> (\<exists>sha. sha \<noteq> HeadSHA release \<and> sent command_of as (Key (RelRepo release)) sha)))"

lemma sent_append: "sent command_of (as @ bs) k sha \<longleftrightarrow> sent command_of as k sha \<or> sent command_of bs k sha"
  by (auto simp: sent_def)

lemma cursor_moves_seen:
  "cursor_moves f h repos as c c' \<Longrightarrow> LastSeenSHA c' k = LastSeenSHA c k \<or> sent f as k (LastSeenSHA c' k)"
  by (simp add: cursor_moves_def)

lemma cursor_moves_built:
  "cursor_moves f h repos as c c' \<Longrightarrow>
     built_tag c' k = built_tag c k \<or> (\<exists>repo\<in>set repos. k = Key repo \<and> h repo (built_tag c' k))"
  by (simp add: cursor_moves_def)

lemma cursor_moves_trans:
  assumes "cursor_moves f h [repo] as c c1" "cursor_moves f h repos bs c1 c'"
  shows "cursor_moves f h (repo # repos) (as @ bs) c c'"
  unfolding cursor_moves_def sent_append
proof (intro allI conjI)
  fix k
  show "LastSeenSHA c' k = LastSeenSHA c k \<or> sent f as k (LastSeenSHA c' k) \<or> sent f bs k (LastSeenSHA c' k)"
    using cursor_moves_seen [OF assms(1), of k] cursor_moves_seen [OF assms(2), of k] by auto
  show "built_tag c' k = built_tag c k \<or> (\<exists>q\<in>set (repo # repos). k = Key q \<and> h q (built_tag c' k))"
    using cursor_moves_built [OF assms(1), of k] cursor_moves_built [OF assms(2), of k] by auto
qed

lemma send_justified_later:
  assumes m: "cursor_moves f h [repo] as c c1" and j: "send_justified w f skipSHA repos c1 bs cmd"
  shows "send_justified w f skipSHA (repo # repos) c (as @ bs) cmd"
proof -
  obtain release where rel: "cmd = f release" "RelRepo release \<in> set repos"
    "gathered_as (WGh w) release" "WFilter w (filter_input (RelRepo release) release) = []"
    and d: "skipSHA \<or> LastSeenSHA c1 (Key (RelRepo release)) \<noteq> HeadSHA release
      \<or> (\<exists>sha. sha \<noteq> HeadSHA release \<and> sent f bs (Key (RelRepo release)) sha)"
    using j unfolding send_justified_def by blast
  have "skipSHA \<or> LastSeenSHA c (Key (RelRepo release)) \<noteq> HeadSHA release
      \<or> (\<exists>sha. sha \<noteq> HeadSHA release \<and> sent f (as @ bs) (Key (RelRepo release)) sha)"
    using d cursor_moves_seen [OF m, of "Key (RelRepo release)"] unfolding sent_append by force
  with rel show ?thesis unfolding send_justified_def by auto
qed

lemma send_justified_earlier:
  assumes "send_justified w f skipSHA [repo] c as cmd"
  shows "send_justified w f skipSHA (repo # repos) c (as @ bs) cmd"
  using assms unfolding send_justified_def sent_append by auto

locale watcher_env = github_client "WGh w" + task_publisher "WPublish w" command_of
    + tag_backstop "WBackstop w" handled bact
  for w :: "'w watcher" and command_of :: "Release \<Rightarrow> CreateCommand"
    and handled :: "Repo \<Rightarrow> string \<Rightarrow> bool" and bact :: "action \<Rightarrow> bool"
begin

lemma back_not_send: "list_all bact as \<Longrightarrow> SendCreate cmd ok \<notin> set as"
  using back_build by (fastforce simp: list_all_iff)

lemma back_repo_action: "bact a \<Longrightarrow> repo_action (WFilter w) bact a"
  using back_build [of a] by (cases a) auto

lemma quiet_gatherRelease: "gatherRelease (WGh w) repo s = (g, t) \<Longrightarrow> quiet s t"
  by (auto simp: gatherRelease_def dest!: quiet_GetMasterSHA quiet_GetChangelogContent
      quiet_GetMaintainerConfig intro: quiet_trans
      split: prod.splits sum.splits option.splits)

lemma runBackstop_spec:
  assumes "runBackstop (WBackstop w) ctx repo c s = (c', t)"
  shows "extends s t" "list_all bact (new_acts s t)"
    "LastSeenSHA c' k = LastSeenSHA c k"
    "built_tag c' k = built_tag c k \<or> (k = Key repo \<and> handled repo (built_tag c' k))"
proof -
  obtain r u where b: "WBackstop w ctx repo (built_tag c (Key repo)) s = (r, u)" by fastforce
  have "t = u" using assms b by (auto simp: runBackstop_def split: sum.splits if_splits)
  then show "extends s t" "list_all bact (new_acts s t)" using backstop_acts [OF b] by auto
  show "LastSeenSHA c' k = LastSeenSHA c k"
    using assms b by (auto simp: runBackstop_def LastSeenSHA_update_built split: sum.splits if_splits)
  show "built_tag c' k = built_tag c k \<or> (k = Key repo \<and> handled repo (built_tag c' k))"
    using assms b backstop_tag
    by (auto simp: runBackstop_def built_tag_update_built split: sum.splits if_splits)
qed

text \<open>
  One repository: build actions first, then nothing, or a counted skip, or a publication
  that every filter let through; the cursor moves only with a successful publication.
\<close>

lemma processRepo_spec:
  assumes "processRepo w ctx skipSHA repo c s = (st, c', t)"
  obtains bs rest where "extends s t" "new_acts s t = bs @ rest" "list_all bact bs"
    "\<And>k. built_tag c' k = built_tag c k \<or> (k = Key repo \<and> handled repo (built_tag c' k))"
    "skipped w bact rest \<and> (\<forall>k. LastSeenSHA c' k = LastSeenSHA c k)
     \<or> (\<exists>release ok. published w command_of skipSHA repo c rest release ok \<and>
          (\<forall>k. LastSeenSHA c' k = (if ok \<and> k = Key repo then HeadSHA release else LastSeenSHA c k)))"
proof (cases "ctx s")
  case (Some e)
  then have "c' = c" "t = s" using assms by (auto simp: processRepo_def)
  then show thesis using that [of "[]" "[]"] by (simp add: skipped_def)
next
  case None
  obtain c1 s1 where b: "runBackstop (WBackstop w) ctx repo c s = (c1, s1)" by fastforce
  note bs = runBackstop_spec [OF b]
  obtain g s2 where g: "gatherRelease (WGh w) repo s1 = (g, s2)" by fastforce
  have q: "quiet s1 s2" by (rule quiet_gatherRelease [OF g])
  have e2: "extends s s2" "new_acts s s2 = new_acts s s1"
    using extends_trans [OF bs(1) quiet_extends [OF q]] new_acts_trans [OF bs(1) quiet_extends [OF q]]
      new_acts_quiet [OF q] by auto
  show thesis
  proof (cases "\<exists>release. g = Gathered release")
    case False
    then have "c' = c1" "t = s2"
      using assms None b g by (auto simp: processRepo_def split: gathered.splits)
    then show thesis using that [of "new_acts s s1" "[]"] e2 bs by (simp add: skipped_def)
  next
    case True
    then obtain release where rel: "g = Gathered release" by blast
    define reason where "reason = cycle_filter (WFilter w) skipSHA c1 (filter_input repo release)"
    show thesis
    proof (cases "reason = ''''")
      case False
      then have "c' = c1" "t = act (IncFilterSkipped reason) s2"
        using assms None b g rel by (auto simp: processRepo_def reason_def Let_def)
      moreover have "extends s (act a s2)" "new_acts s (act a s2) = new_acts s s1 @ [a]" for a
        using extends_trans [OF e2(1) extends_act] new_acts_trans [OF e2(1) extends_act] e2(2) by auto
      ultimately show thesis
        using that [of "new_acts s s1" "[IncFilterSkipped reason]"] bs False
          cycle_filter_reason [of "WFilter w" skipSHA c1 "filter_input repo release"]
        by (auto simp: skipped_def reason_def)
    next
      case pass: True
      obtain ok s3 where p: "WPublish w release s2 = (ok, s3)" by fastforce
      have t: "t = s3" and c': "c' = (if ok then update_state (\<lambda>st. st\<lparr>LastSeenMasterSHA := HeadSHA release\<rparr>)
          (Key repo) c1 else c1)"
        using assms None b g rel pass p by (auto simp: processRepo_def reason_def Let_def)
      note pa = publish_acts [OF p]
      let ?rest = "[SendCreate (command_of release) ok, IncPublished (if ok then ''create'' else ''error'')]"
      have "published w command_of skipSHA repo c ?rest release ok"
        using pass gatherRelease_repo [OF g [unfolded rel]] g rel bs(3)
        by (auto simp: published_def reason_def cycle_filter_pass filter_input_def gathered_as_def)
      moreover have "\<forall>k. LastSeenSHA c' k = (if ok \<and> k = Key repo then HeadSHA release else LastSeenSHA c k)"
        using bs(3) by (simp add: c' LastSeenSHA_update_seen)
      moreover have "extends s t" "new_acts s t = new_acts s s1 @ ?rest"
        using extends_trans [OF e2(1)] new_acts_trans [OF e2(1)] pa e2(2) by (auto simp: t)
      moreover have "built_tag c' k = built_tag c k \<or> (k = Key repo \<and> handled repo (built_tag c' k))" for k
        using bs(4) [of k] by (simp add: c' built_tag_update_seen)
      ultimately show thesis using that bs(2) by blast
    qed
  qed
qed

lemma processRepo_moves:
  assumes "processRepo w ctx skipSHA repo c s = (st, c', t)"
  shows "extends s t \<and> list_all (repo_action (WFilter w) bact) (new_acts s t)
    \<and> cursor_moves command_of handled [repo] (new_acts s t) c c'
    \<and> (\<forall>cmd ok. SendCreate cmd ok \<in> set (new_acts s t)
         \<longrightarrow> send_justified w command_of skipSHA [repo] c (new_acts s t) cmd)"
proof -
  from assms show ?thesis
  proof (rule processRepo_spec)
    fix bs rest
    assume e: "extends s t" and na: "new_acts s t = bs @ rest" and bs: "list_all bact bs"
      and tag: "\<And>k. built_tag c' k = built_tag c k \<or> (k = Key repo \<and> handled repo (built_tag c' k))"
      and cases: "skipped w bact rest \<and> (\<forall>k. LastSeenSHA c' k = LastSeenSHA c k)
     \<or> (\<exists>release ok. published w command_of skipSHA repo c rest release ok \<and>
          (\<forall>k. LastSeenSHA c' k = (if ok \<and> k = Key repo then HeadSHA release else LastSeenSHA c k)))"
    have ra: "list_all (repo_action (WFilter w) bact) bs" using bs back_repo_action by (auto simp: list_all_iff)
    note ns = back_not_send [OF bs]
    from cases show ?thesis
    proof
      assume "skipped w bact rest \<and> (\<forall>k. LastSeenSHA c' k = LastSeenSHA c k)"
      then show ?thesis using e na ra ns tag skipped_acts [of w bact rest] by (auto simp: cursor_moves_def)
    next
      assume "\<exists>release ok. published w command_of skipSHA repo c rest release ok \<and>
          (\<forall>k. LastSeenSHA c' k = (if ok \<and> k = Key repo then HeadSHA release else LastSeenSHA c k))"
      then obtain release ok where p: "published w command_of skipSHA repo c rest release ok"
        and k: "\<forall>k. LastSeenSHA c' k = (if ok \<and> k = Key repo then HeadSHA release else LastSeenSHA c k)"
        by blast
      have "cursor_moves command_of handled [repo] (new_acts s t) c c'"
        using k tag p by (auto simp: cursor_moves_def sent_def na published_def)
      moreover have "send_justified w command_of skipSHA [repo] c (new_acts s t) cmd"
        if "SendCreate cmd b \<in> set (new_acts s t)" for cmd b
        using that p ns by (auto simp: na published_def send_justified_def)
      moreover have "list_all (repo_action (WFilter w) bact) (new_acts s t)" using ra p by (simp add: na published_def)
      ultimately show ?thesis using e by blast
    qed
  qed
qed

lemma processRepos_moves:
  assumes "processRepos w ctx skipSHA repos c s = (r, c', t)"
  shows "extends s t \<and> list_all (repo_action (WFilter w) bact) (new_acts s t)
    \<and> cursor_moves command_of handled repos (new_acts s t) c c'
    \<and> (\<forall>cmd ok. SendCreate cmd ok \<in> set (new_acts s t)
         \<longrightarrow> send_justified w command_of skipSHA repos c (new_acts s t) cmd)"
  using assms
proof (induction repos arbitrary: c s)
  case Nil
  then show ?case by (auto simp: cursor_moves_def)
next
  case (Cons repo repos)
  obtain st c1 s1 where p: "processRepo w ctx skipSHA repo c s = (st, c1, s1)" by (metis prod_cases3)
  have m: "extends s s1" "list_all (repo_action (WFilter w) bact) (new_acts s s1)"
    "cursor_moves command_of handled [repo] (new_acts s s1) c c1"
    "\<And>cmd ok. SendCreate cmd ok \<in> set (new_acts s s1)
       \<Longrightarrow> send_justified w command_of skipSHA [repo] c (new_acts s s1) cmd"
    using processRepo_moves [OF p] by blast+
  have r: "extends s1 t \<and> list_all (repo_action (WFilter w) bact) (new_acts s1 t)
    \<and> cursor_moves command_of handled repos (new_acts s1 t) c1 c'
    \<and> (\<forall>cmd ok. SendCreate cmd ok \<in> set (new_acts s1 t)
         \<longrightarrow> send_justified w command_of skipSHA repos c1 (new_acts s1 t) cmd)"
  proof (cases "st = Continue")
    case True
    then show ?thesis using Cons.IH [of c1 s1] Cons.prems p by simp
  next
    case False
    then have "c' = c1" "t = s1" using Cons.prems p by (auto split: step.splits)
    then show ?thesis by (simp add: cursor_moves_def)
  qed
  have na: "new_acts s t = new_acts s s1 @ new_acts s1 t"
    using new_acts_trans m(1) r by blast
  have "send_justified w command_of skipSHA (repo # repos) c (new_acts s t) cmd"
    if "SendCreate cmd ok \<in> set (new_acts s t)" for cmd ok
    using that m(4) r send_justified_later [OF m(3)] send_justified_earlier
    unfolding na set_append Un_iff by blast
  moreover have "cursor_moves command_of handled (repo # repos) (new_acts s t) c c'"
    using cursor_moves_trans m(3) r unfolding na by blast
  moreover have "extends s t" using extends_trans m(1) r by blast
  moreover have "list_all (repo_action (WFilter w) bact) (new_acts s t)" using m(2) r by (simp add: na)
  ultimately show ?case by blast
qed

text \<open>The loop ends the cycle only for a rate limit (or silently, when the context ended).\<close>

lemma processRepo_return:
  "processRepo w ctx skipSHA repo c s = (Return reason, c', t) \<Longrightarrow> reason \<in> {[], ''rate_limited''}"
  by (auto simp: processRepo_def gatherRelease_def gather_error_def Let_def
      split: if_splits prod.splits gathered.splits sum.splits option.splits)

lemma processRepos_return:
  "processRepos w ctx skipSHA repos c s = (Some reason, c', t) \<Longrightarrow> reason \<in> {[], ''rate_limited''}"
proof (induction repos arbitrary: c s)
  case (Cons repo repos)
  obtain st c1 s1 where p: "processRepo w ctx skipSHA repo c s = (st, c1, s1)" by (metis prod_cases3)
  then show ?case using Cons processRepo_return [of ctx skipSHA repo c s] by (cases st) auto
qed simp

lemma resolveRepos_some:
  "resolveRepos w ctx scope s = Some (Some repos, t) \<Longrightarrow> quiet s t"
  by (auto simp: resolveRepos_def dest: quiet_ListRepos
      split: if_splits option.splits prod.splits sum.splits)

lemma resolveRepos_none:
  assumes "resolveRepos w ctx scope s = Some (None, t)"
  shows "Fs t = Fs s" "\<exists>mid. Acts t = Acts s @ mid
    \<and> (mid = [] \<and> scope \<noteq> [] \<and> scopeRepo scope (WOwner w) = None
       \<or> mid = [IncPollCycle ''rate_limited''] \<or> mid = [IncPollCycle ''github_error''])"
  using assms
  by (auto simp: resolveRepos_def dest!: ListRepos_keeps
      split: if_splits option.splits prod.splits sum.splits)

end

lemma SaveCursor_Fs:
  "Fs u = Fs s \<Longrightarrow> Fs (snd (SaveCursor path c u)) = Fs (snd (SaveCursor path c s))"
  by (auto simp: SaveCursor_def Let_def split: prod.split option.split)

lemma SaveCursor_Acts: "Acts (snd (SaveCursor path c u)) = Acts u"
  using SaveCursor_frame(1) by (metis prod.collapse)

text \<open>A cycle that loaded its cursor: it ended early, or it scanned the repositories.\<close>

definition gauge :: "'w watcher \<Rightarrow> 'w sys \<Rightarrow> action" where
  "gauge w s = SetRateLimitRemaining (RateLimitRemaining (WGh w) s)"

definition ended_early :: "'w watcher \<Rightarrow> string \<Rightarrow> 'w sys \<Rightarrow> poll_result \<Rightarrow> 'w sys \<Rightarrow> bool" where
  "ended_early w scope s r t \<longleftrightarrow> r = PollOk \<and> Fs t = Fs s \<and> (\<exists>mid. Acts t = Acts s @ mid @ [gauge w s]
     \<and> (mid = [] \<and> scope \<noteq> [] \<and> scopeRepo scope (WOwner w) = None
        \<or> mid = [IncPollCycle ''quota_low''] \<and> quota_gate w scope s
        \<or> mid = [IncPollCycle ''rate_limited''] \<or> mid = [IncPollCycle ''github_error'']))"

definition scanned ::
    "'w watcher \<Rightarrow> (Release \<Rightarrow> CreateCommand) \<Rightarrow> (Repo \<Rightarrow> string \<Rightarrow> bool) \<Rightarrow> (action \<Rightarrow> bool)
       \<Rightarrow> 'w ctx \<Rightarrow> bool \<Rightarrow> string \<Rightarrow> Cursor \<Rightarrow> 'w sys \<Rightarrow> poll_result \<Rightarrow> 'w sys \<Rightarrow> Repo list \<Rightarrow> action list \<Rightarrow> Cursor \<Rightarrow> action list \<Rightarrow> bool" where
  "scanned w command_of handled bact ctx skipSHA scope c0 s r t repos body c post \<longleftrightarrow>
     (\<exists>u x u2. resolveRepos w ctx scope s = Some (Some repos, u)
        \<and> processRepos w ctx skipSHA repos c0 (act (IncReposScanned (length repos)) u) = (x, c, u2)
        \<and> body = new_acts (act (IncReposScanned (length repos)) u) u2)
     \<and> Acts t = Acts s @ [IncReposScanned (length repos)] @ body @ post @ [gauge w s]
     \<and> list_all (repo_action (WFilter w) bact) body
     \<and> cursor_moves command_of handled repos body c0 c
     \<and> (\<forall>cmd ok. SendCreate cmd ok \<in> set body
          \<longrightarrow> send_justified w command_of skipSHA repos c0 body cmd)
     \<and> (r = PollPanic \<and> post = [] \<and> Fs t = Fs s
        \<or> r = PollOk \<and> post = [IncPollCycle ''rate_limited''] \<and> Fs t = Fs s
        \<or> r = PollOk \<and> post = [IncPollCycle ''success'']
          \<and> Fs t = Fs (snd (SaveCursor (WCursorPath w) c s)))"

context watcher_env
begin

lemma Poll_cases:
  assumes poll: "Poll w ctx skipSHA scope s = Some (r, t)"
    and load: "LoadCursor (WCursorPath w) s = Inr c0"
  shows "ended_early w scope s r t
    \<or> (\<exists>repos body c post. scanned w command_of handled bact ctx skipSHA scope c0 s r t repos body c post)"
proof (cases "quota_gate w scope s")
  case True
  then have "r = PollOk" "t = act (gauge w s) (act (IncPollCycle ''quota_low'') s)"
    using poll load by (auto simp: Poll_def Let_def gauge_def)
  then show ?thesis using True by (simp add: ended_early_def)
next
  case False
  show ?thesis
  proof (cases "resolveRepos w ctx scope s")
    case None
    then show ?thesis using poll load False by (simp add: Poll_def Let_def)
  next
    case (Some p)
    obtain rs u where p: "p = (rs, u)" by fastforce
    show ?thesis
    proof (cases rs)
      case None
      then have "r = PollOk" "t = act (gauge w s) u"
        using poll load False Some p by (auto simp: Poll_def Let_def gauge_def)
      then show ?thesis
        using resolveRepos_none [of ctx scope s u] Some p None by (auto simp: ended_early_def)
    next
      case rs: (Some repos)
      note res = Some [unfolded p rs]
      have q: "Fs u = Fs s" "Acts u = Acts s" using resolveRepos_some [OF res] by (auto simp: quiet_def)
      let ?u1 = "act (IncReposScanned (length repos)) u"
      obtain x c u2 where pr: "processRepos w ctx skipSHA repos c0 ?u1 = (x, c, u2)" by (metis prod_cases3)
      note m = processRepos_moves [OF pr]
      have u2: "Fs u2 = Fs s" "Acts u2 = Acts s @ [IncReposScanned (length repos)] @ new_acts ?u1 u2"
        using m Acts_extends [of ?u1 u2] q by (auto simp: extends_def)
      have t: "t = act (gauge w s) (case x of None \<Rightarrow> u2
          | Some ab \<Rightarrow> if ab \<noteq> [] then act (IncPollCycle ab) u2
                       else act (IncPollCycle ''success'') (snd (SaveCursor (WCursorPath w) c u2)))"
        and r: "r = (case x of None \<Rightarrow> PollPanic | Some _ \<Rightarrow> PollOk)"
        using poll load False res pr
        by (auto simp: Poll_def Let_def gauge_def split: option.splits if_splits)
      have ab: "x = None \<or> x = Some [] \<or> x = Some ''rate_limited''"
        using processRepos_return [of ctx skipSHA repos c0 ?u1] pr by (cases x) auto
      have "scanned w command_of handled bact ctx skipSHA scope c0 s r t repos (new_acts ?u1 u2) c
          (case x of None \<Rightarrow> [] | Some ab \<Rightarrow> [IncPollCycle (if ab = [] then ''success'' else ab)])"
        unfolding scanned_def
        using ab m res pr u2 SaveCursor_Fs [OF u2(1)] by (auto simp: t r SaveCursor_Acts simp del: processRepos.simps)
      then show ?thesis by blast
    qed
  qed
qed

end

section \<open>Consequences\<close>

lemma new_acts_eq: "Acts t = Acts s @ as \<Longrightarrow> new_acts s t = as"
  by (simp add: new_acts_def)

lemma sent_mono: "sent f as k sha \<Longrightarrow> set as \<subseteq> set bs \<Longrightarrow> sent f bs k sha"
  unfolding sent_def by blast

lemma send_justified_mono:
  "send_justified w f skipSHA repos c as cmd \<Longrightarrow> set as \<subseteq> set bs \<Longrightarrow> send_justified w f skipSHA repos c bs cmd"
  unfolding send_justified_def using sent_mono by blast

lemma scanned_acts:
  assumes "scanned w f h bact ctx skipSHA scope c0 s r t repos body c post"
  shows "new_acts s t = [IncReposScanned (length repos)] @ body @ post @ [gauge w s]"
    "post = [] \<or> post = [IncPollCycle ''rate_limited''] \<or> post = [IncPollCycle ''success'']"
    "list_all (repo_action (WFilter w) bact) body"
  using assms by (auto simp: scanned_def intro!: new_acts_eq)

context watcher_env
begin

lemma Poll_sends:
  assumes "Poll w ctx skipSHA scope s = Some (r, t)" "LoadCursor (WCursorPath w) s = Inr c0"
    and "SendCreate cmd ok \<in> set (new_acts s t)"
  obtains repos u where "resolveRepos w ctx scope s = Some (Some repos, u)"
    "send_justified w command_of skipSHA repos c0 (new_acts s t) cmd"
proof -
  have "\<not> ended_early w scope s r t"
    using assms(3) by (auto simp: ended_early_def gauge_def dest!: new_acts_eq)
  then obtain repos body c post
    where sc: "scanned w command_of handled bact ctx skipSHA scope c0 s r t repos body c post"
    using Poll_cases [OF assms(1,2)] by blast
  have "SendCreate cmd ok \<in> set body"
    using assms(3) scanned_acts [OF sc] by (auto simp: gauge_def)
  then have "send_justified w command_of skipSHA repos c0 body cmd"
    using sc unfolding scanned_def by blast
  then have "send_justified w command_of skipSHA repos c0 (new_acts s t) cmd"
    by (rule send_justified_mono) (auto simp: scanned_acts(1) [OF sc])
  moreover obtain u where "resolveRepos w ctx scope s = Some (Some repos, u)"
    using sc unfolding scanned_def by blast
  ultimately show thesis using that by blast
qed

text \<open>Files after a cycle: as before, or the cursor saved once.\<close>

lemma Poll_files:
  assumes "Poll w ctx skipSHA scope s = Some (r, t)" "LoadCursor (WCursorPath w) s = Inr c0"
  obtains "Fs t = Fs s"
  | c repos u where "Fs t = Fs (snd (SaveCursor (WCursorPath w) c s))" "IncPollCycle ''success'' \<in> set (new_acts s t)"
      "resolveRepos w ctx scope s = Some (Some repos, u)" "r = PollOk"
      "cursor_moves command_of handled repos (new_acts s t) c0 c"
proof (cases "ended_early w scope s r t")
  case True
  then show thesis using that(1) by (auto simp: ended_early_def)
next
  case False
  then obtain repos body c post
    where sc: "scanned w command_of handled bact ctx skipSHA scope c0 s r t repos body c post"
    using Poll_cases [OF assms] by blast
  have "cursor_moves command_of handled repos body c0 c" using sc by (simp add: scanned_def)
  then have m: "cursor_moves command_of handled repos (new_acts s t) c0 c"
    unfolding cursor_moves_def using sent_mono scanned_acts(1) [OF sc]
    by (metis (no_types, lifting) UnCI set_append subsetI)
  obtain u where "resolveRepos w ctx scope s = Some (Some repos, u)"
    using sc unfolding scanned_def by blast
  with m show thesis using that sc by (auto simp: scanned_def scanned_acts(1) [OF sc])
qed

text \<open>One result per cycle, and the gauge last.\<close>

lemma Poll_result:
  assumes "Poll w ctx skipSHA scope s = Some (r, t)" "LoadCursor (WCursorPath w) s = Inr c0"
  obtains as where "new_acts s t = as @ [gauge w s]"
    "\<forall>remaining. SetRateLimitRemaining remaining \<notin> set as"
    "length (filter (\<lambda>a. \<exists>x. a = IncPollCycle x) as) \<le> 1"
    "filter (\<lambda>a. \<exists>x. a = IncPollCycle x) as = [] \<longleftrightarrow> r = PollPanic \<or> as = []"
    "as = [] \<longrightarrow> scope \<noteq> [] \<and> scopeRepo scope (WOwner w) = None"
    "IncPollCycle ''quota_low'' \<in> set as \<longrightarrow> quota_gate w scope s"
    "\<forall>x. IncPollCycle x \<in> set as \<longrightarrow> x \<in> {''success'', ''rate_limited'', ''github_error'', ''quota_low''}"
proof (cases "ended_early w scope s r t")
  case True
  then show thesis by (auto simp: ended_early_def dest!: new_acts_eq intro: that)
next
  case False
  then obtain repos body c post
    where sc: "scanned w command_of handled bact ctx skipSHA scope c0 s r t repos body c post"
    using Poll_cases [OF assms] by blast
  have b: "\<forall>a\<in>set body. (\<forall>x. a \<noteq> IncPollCycle x) \<and> (\<forall>x. a \<noteq> SetRateLimitRemaining x)"
    using scanned_acts(3) [OF sc] back_build by (force simp: list_all_iff)
  then have f: "filter (\<lambda>a. \<exists>x. a = IncPollCycle x) body = []" by (auto simp: filter_empty_conv)
  show thesis
    by (rule that [of "[IncReposScanned (length repos)] @ body @ post"])
      (use sc b f scanned_acts(1,2) [OF sc] in \<open>auto simp: scanned_def\<close>)
qed

end

section \<open>The cursor names what was announced last\<close>

text \<open>The commit of the last command that went out for a key, if one did.\<close>

fun last_sent :: "(CreateCommand \<Rightarrow> string) \<Rightarrow> (CreateCommand \<Rightarrow> string) \<Rightarrow> string \<Rightarrow> action list \<Rightarrow> string \<Rightarrow> string" where
  "last_sent key_of sha_of k [] d = d"
| "last_sent key_of sha_of k (SendCreate cmd True # as) d =
     last_sent key_of sha_of k as (if key_of cmd = k then sha_of cmd else d)"
| "last_sent key_of sha_of k (a # as) d = last_sent key_of sha_of k as d"

lemma last_sent_append [simp]:
  "last_sent key_of sha_of k (as @ bs) d = last_sent key_of sha_of k bs (last_sent key_of sha_of k as d)"
  by (induction key_of sha_of k as d rule: last_sent.induct) simp_all

lemma last_sent_none:
  "\<forall>cmd. SendCreate cmd True \<notin> set as \<Longrightarrow> last_sent key_of sha_of k as d = d"
  by (induction key_of sha_of k as d rule: last_sent.induct) auto

lemma cursor_keys_update: "cursor_keys (update_state f key c) = insert key (cursor_keys c)"
  by (auto simp: cursor_keys_def update_state_def Let_def split: option.split)

text \<open>A command names the repository's key and the commit.\<close>

locale addressed_watcher = watcher_env w command_of handled bact
  for w :: "'w watcher" and command_of :: "Release \<Rightarrow> CreateCommand"
    and handled :: "Repo \<Rightarrow> string \<Rightarrow> bool" and bact :: "action \<Rightarrow> bool" +
  fixes key_of :: "CreateCommand \<Rightarrow> string" and sha_of :: "CreateCommand \<Rightarrow> string"
  assumes key_of_command: "key_of (command_of release) = Key (RelRepo release)"
    and sha_of_command: "sha_of (command_of release) = HeadSHA release"
begin

lemma processRepo_last:
  assumes "processRepo w ctx skipSHA repo c s = (st, c', t)"
  shows "LastSeenSHA c' k = last_sent key_of sha_of k (new_acts s t) (LastSeenSHA c k)"
  using assms
proof (rule processRepo_spec)
  fix bs rest
  assume na: "new_acts s t = bs @ rest" and bs: "list_all bact bs"
    and cases: "skipped w bact rest \<and> (\<forall>k. LastSeenSHA c' k = LastSeenSHA c k)
     \<or> (\<exists>release ok. published w command_of skipSHA repo c rest release ok \<and>
          (\<forall>k. LastSeenSHA c' k = (if ok \<and> k = Key repo then HeadSHA release else LastSeenSHA c k)))"
  have b: "last_sent key_of sha_of k bs d = d" for d
    using back_not_send [OF bs] by (intro last_sent_none) blast
  from cases show ?thesis
  proof (elim disjE exE conjE)
    assume "skipped w bact rest" "\<forall>k. LastSeenSHA c' k = LastSeenSHA c k"
    then show ?thesis using b skipped_acts [of w bact rest] by (simp add: na last_sent_none)
  next
    fix release ok
    assume p: "published w command_of skipSHA repo c rest release ok"
      and k: "\<forall>k. LastSeenSHA c' k = (if ok \<and> k = Key repo then HeadSHA release else LastSeenSHA c k)"
    then show ?thesis
      using b by (cases ok) (auto simp: na published_def key_of_command sha_of_command)
  qed
qed

lemma runBackstop_keys:
  "runBackstop b ctx repo c s = (c', t) \<Longrightarrow> cursor_keys c' \<subseteq> insert (Key repo) (cursor_keys c)"
  by (auto simp: runBackstop_def cursor_keys_update split: prod.splits sum.splits if_splits)

lemma processRepo_keys:
  "processRepo w ctx skipSHA repo c s = (st, c', t) \<Longrightarrow> cursor_keys c' \<subseteq> insert (Key repo) (cursor_keys c)"
  by (auto simp: processRepo_def Let_def cursor_keys_update dest!: runBackstop_keys
      split: if_splits prod.splits gathered.splits)

lemma processRepos_last:
  assumes "processRepos w ctx skipSHA repos c s = (r, c', t)"
  shows "(\<forall>k. LastSeenSHA c' k = last_sent key_of sha_of k (new_acts s t) (LastSeenSHA c k))
    \<and> cursor_keys c' \<subseteq> Key ` set repos \<union> cursor_keys c"
  using assms
proof (induction repos arbitrary: c s)
  case (Cons repo repos)
  obtain st c1 s1 where p: "processRepo w ctx skipSHA repo c s = (st, c1, s1)" by (metis prod_cases3)
  have e: "extends s s1" using processRepo_moves [OF p] by blast
  show ?case
  proof (cases "st = Continue")
    case True
    then have r: "processRepos w ctx skipSHA repos c1 s1 = (r, c', t)" using Cons.prems p by simp
    have "new_acts s t = new_acts s s1 @ new_acts s1 t"
      using new_acts_trans [OF e] processRepos_moves [OF r] by blast
    then show ?thesis using Cons.IH [OF r] processRepo_last [OF p] processRepo_keys [OF p] by auto
  next
    case False
    then have "c' = c1" "t = s1" using Cons.prems p by (auto split: step.splits)
    then show ?thesis using processRepo_last [OF p] processRepo_keys [OF p] by auto
  qed
qed simp

end

context addressed_watcher
begin

lemma Poll_saved:
  assumes poll: "Poll w ctx skipSHA scope s = Some (r, t)" "LoadCursor (WCursorPath w) s = Inr c0"
    and ok: "IncPollCycle ''success'' \<in> set (new_acts s t)"
  obtains c repos u where "resolveRepos w ctx scope s = Some (Some repos, u)"
    "Fs t = Fs (snd (SaveCursor (WCursorPath w) c s))"
    "\<And>k. LastSeenSHA c k = last_sent key_of sha_of k (new_acts s t) (LastSeenSHA c0 k)"
    "cursor_keys c \<subseteq> Key ` set repos \<union> cursor_keys c0"
proof -
  have "\<not> ended_early w scope s r t"
    using ok by (auto simp: ended_early_def gauge_def dest!: new_acts_eq)
  then obtain repos body c post
    where sc: "scanned w command_of handled bact ctx skipSHA scope c0 s r t repos body c post"
    using Poll_cases [OF poll] by blast
  have "IncPollCycle ''success'' \<notin> set body"
    using scanned_acts(3) [OF sc] back_build by (force simp: list_all_iff)
  then have post: "post = [IncPollCycle ''success'']"
    using ok scanned_acts(1,2) [OF sc] by (auto simp: gauge_def)
  obtain u x u2 where res: "resolveRepos w ctx scope s = Some (Some repos, u)"
    and run: "processRepos w ctx skipSHA repos c0 (act (IncReposScanned (length repos)) u) = (x, c, u2)"
    and body: "body = new_acts (act (IncReposScanned (length repos)) u) u2"
    using sc unfolding scanned_def by blast
  have "last_sent key_of sha_of k (new_acts s t) d = last_sent key_of sha_of k body d" for k d
    by (simp add: scanned_acts(1) [OF sc] post gauge_def)
  then show thesis
    using that [OF res] processRepos_last [OF run] sc post by (simp add: body scanned_def)
qed

end

end
