(* ===== verification/Command.thy ===== *)
theory Command
  imports Process
begin

text \<open>
  The trigger-release-check command of \<open>pkg/command\<close>: its sender and the decoding its
  executor starts with. Handing over a command is the observable
  action \<open>SendTrigger\<close>, with the success of the send.
\<close>

definition TriggerReleaseCheckCommandOperation :: string where
  "TriggerReleaseCheckCommandOperation = ''trigger-release-check''"

text \<open>\<open>Validate\<close> accepts every command.\<close>

definition Command_Validate :: "TriggerReleaseCheckCommand \<Rightarrow> goerr option" where
  "Command_Validate cmd = None"

text \<open>
  A command as the cqrs package carries it, and a command object: the command and the schema it
  belongs to. The package and the schema identifier of the maintainer package are parameters: the
  codec of events, the creator of commands (it draws a request identifier from a channel) and
  the sender for the topics of a prefix.
\<close>

record BaseCommand =
  Operation :: string
  Initiator :: string
  Data :: string

record CommandObject =
  ObjCommand :: BaseCommand
  SchemaID :: string

type_synonym 'w CommandCreator = "string \<Rightarrow> string \<Rightarrow> string \<Rightarrow> string \<Rightarrow> 'w \<Rightarrow> BaseCommand \<times> 'w"

type_synonym 'w CommandObjectSender = "CommandObject \<Rightarrow> 'w \<Rightarrow> goerr option \<times> 'w"

record 'w cqrs =
  ParseEvent :: "TriggerReleaseCheckCommand \<Rightarrow> string res"
  MarshalInto :: "string \<Rightarrow> TriggerReleaseCheckCommand res"
  NewCommandCreator :: "'w CommandCreator"
  NewCommandObjectSender :: "string \<Rightarrow> 'w CommandObjectSender"
  GithubReleaserV1SchemaID :: string

record 'w triggerReleaseCheckCommandSender =
  SndCreator :: "'w CommandCreator"
  SndInitiator :: string
  SndObjectSender :: "'w CommandObjectSender"

definition NewTriggerReleaseCheckCommandSender ::
    "'w CommandCreator \<Rightarrow> string \<Rightarrow> 'w CommandObjectSender \<Rightarrow> 'w triggerReleaseCheckCommandSender" where
  "NewTriggerReleaseCheckCommandSender commandCreator initiator commandObjectSender =
     \<lparr>SndCreator = commandCreator, SndInitiator = initiator, SndObjectSender = commandObjectSender\<rparr>"

type_synonym 'w TriggerSender = "TriggerReleaseCheckCommand \<Rightarrow> 'w sys \<Rightarrow> goerr option \<times> 'w sys"

definition SendCommand :: "'w cqrs \<Rightarrow> 'w triggerReleaseCheckCommandSender \<Rightarrow> 'w TriggerSender" where
  "SendCommand q sd cmd s =
     (case Command_Validate cmd of
        Some e \<Rightarrow> (Some (Wrapf ''validate TriggerReleaseCheckCommand'' e), s)
      | None \<Rightarrow>
          (case ParseEvent q cmd of
             Inl e \<Rightarrow> (Some (Wrapf ''parse TriggerReleaseCheckCommand event'' e), s)
           | Inr event \<Rightarrow>
               (case world_call (SndCreator sd TriggerReleaseCheckCommandOperation (SndInitiator sd) '''' event) s of
                  (command, t) \<Rightarrow>
               (case world_call (SndObjectSender sd \<lparr>ObjCommand = command, SchemaID = GithubReleaserV1SchemaID q\<rparr>) t of
                  (Some e, u) \<Rightarrow> (Some (Wrapf ''send TriggerReleaseCheckCommand to Kafka'' e),
                                   act (SendTrigger cmd False) u)
                | (None, u) \<Rightarrow> (None, act (SendTrigger cmd True) u)))))"

definition unmarshalAndValidate :: "'w cqrs \<Rightarrow> CommandObject \<Rightarrow> TriggerReleaseCheckCommand res" where
  "unmarshalAndValidate q obj =
     (case MarshalInto q (Data (ObjCommand obj)) of
        Inl e \<Rightarrow> Inl (Wrapf ''malformed TriggerReleaseCheckCommand'' (Sentinel ErrCommandObjectSkipped))
      | Inr cmd \<Rightarrow>
          (case Command_Validate cmd of
             Some e \<Rightarrow> Inl (Wrapf ''validate TriggerReleaseCheckCommand'' (Sentinel ErrCommandObjectSkipped))
           | None \<Rightarrow> Inr cmd))"

section \<open>The contract of the sender\<close>

text \<open>A call hands over the command at most once; a nil error means it was handed over.\<close>

locale trigger_sender =
  fixes send_command :: "'w TriggerSender"
  assumes send_acts: "send_command cmd s = (r, t) \<Longrightarrow> extends s t
    \<and> (new_acts s t = [SendTrigger cmd (r = None)] \<or> (new_acts s t = [] \<and> r \<noteq> None))"

lemma SendCommand_acts:
  assumes "SendCommand q sd cmd s = (r, t)"
  shows "extends s t
    \<and> (new_acts s t = [SendTrigger cmd (r = None)] \<or> (new_acts s t = [] \<and> r \<noteq> None))"
proof (cases "ParseEvent q cmd")
  case (Inl e)
  then show ?thesis using assms by (auto simp: SendCommand_def Command_Validate_def)
next
  case (Inr event)
  obtain c u where c: "world_call (SndCreator sd TriggerReleaseCheckCommandOperation (SndInitiator sd) '''' event) s
      = (c, u)" by fastforce
  obtain e v where e: "world_call (SndObjectSender sd \<lparr>ObjCommand = c, SchemaID = GithubReleaserV1SchemaID q\<rparr>) u
      = (e, v)" by fastforce
  have "quiet s v" using quiet_world_call [OF c] quiet_world_call [OF e] quiet_trans by blast
  from quiet_act [OF this] show ?thesis
    using assms by (cases e) (auto simp: SendCommand_def Command_Validate_def Inr c e)
qed

interpretation trigger: trigger_sender "SendCommand q sd" for q sd
  by unfold_locales (rule SendCommand_acts)

end
