(* ===== verification/Debounce.thy ===== *)
theory Debounce
  imports Process
begin

text \<open>
  The per-key debouncer of \<open>pkg/debounce.go\<close>. Times and the interval are nanoseconds; the
  clock reading is an argument. The mutex makes every call atomic, so one call is one step.
\<close>

definition Allow :: "int \<Rightarrow> int \<Rightarrow> string \<Rightarrow> 'w sys \<Rightarrow> bool \<times> 'w sys" where
  "Allow interval now key s =
     (case DebounceLast s key of
        Some prev \<Rightarrow> if now - prev < interval then (False, s)
                     else (True, s\<lparr>DebounceLast := (DebounceLast s)(key := Some now)\<rparr>)
      | None \<Rightarrow> (True, s\<lparr>DebounceLast := (DebounceLast s)(key := Some now)\<rparr>))"

text \<open>A sequence of calls, as \<open>(time, key)\<close> pairs in the order the mutex admits them.\<close>

fun allow_run :: "int \<Rightarrow> (int \<times> string) list \<Rightarrow> 'w sys \<Rightarrow> bool list \<times> 'w sys" where
  "allow_run interval [] s = ([], s)"
| "allow_run interval ((now, key) # cs) s =
     (let (b, t) = Allow interval now key s; (bs, u) = allow_run interval cs t in (b # bs, u))"

text \<open>The times at which calls for a key were accepted.\<close>

definition accepted :: "string \<Rightarrow> (int \<times> string) list \<Rightarrow> bool list \<Rightarrow> int list" where
  "accepted key cs bs = map (fst \<circ> fst) (filter (\<lambda>((_, k), b). b \<and> k = key) (zip cs bs))"

fun spaced :: "int \<Rightarrow> int list \<Rightarrow> bool" where
  "spaced d (x # y # zs) = (d \<le> y - x \<and> spaced d (y # zs))"
| "spaced d _ = True"

lemma Allow_frame:
  assumes "Allow i now key s = (b, t)"
  shows "Acts t = Acts s" "Fs t = Fs s" "Log t = Log s" "Ext t = Ext s"
    "\<And>k. k \<noteq> key \<Longrightarrow> DebounceLast t k = DebounceLast s k"
  using assms by (auto simp: Allow_def split: option.splits if_splits)

lemma Allow_denied: "Allow i now key s = (False, t) \<longleftrightarrow>
    t = s \<and> (\<exists>prev. DebounceLast s key = Some prev \<and> now - prev < i)"
  by (auto simp: Allow_def split: option.splits if_splits)

lemma Allow_accepted: "Allow i now key s = (True, t) \<Longrightarrow>
    DebounceLast t key = Some now \<and> (\<forall>prev. DebounceLast s key = Some prev \<longrightarrow> i \<le> now - prev)"
  by (auto simp: Allow_def split: option.splits if_splits)

lemma spaced_Cons:
  "spaced d (x # ys) \<longleftrightarrow> (case ys of [] \<Rightarrow> True | y # _ \<Rightarrow> d \<le> y - x) \<and> spaced d ys"
  by (cases ys) auto

lemma allow_run_spaced:
  assumes "allow_run i cs s = (bs, t)"
  shows "spaced i ((case DebounceLast s key of None \<Rightarrow> [] | Some l \<Rightarrow> [l]) @ accepted key cs bs)"
  using assms
proof (induction cs arbitrary: s bs t)
  case Nil
  then show ?case by (auto simp: accepted_def split: option.split)
next
  case (Cons c cs)
  obtain now k where c: "c = (now, k)" by fastforce
  obtain b u where b: "Allow i now k s = (b, u)" by fastforce
  obtain bs' v where r: "allow_run i cs u = (bs', v)" by fastforce
  have bs: "bs = b # bs'" using Cons.prems c b r by auto
  have IH: "spaced i ((case DebounceLast u key of None \<Rightarrow> [] | Some l \<Rightarrow> [l]) @ accepted key cs bs')"
    by (rule Cons.IH [OF r])
  show ?case
  proof (cases "b \<and> k = key")
    case True
    then have "DebounceLast u key = Some now" and
      "\<forall>prev. DebounceLast s key = Some prev \<longrightarrow> i \<le> now - prev"
      using Allow_accepted [of i now k s u] b by auto
    with IH True show ?thesis
      by (auto simp: c bs accepted_def split: option.split)
  next
    case False
    then have "DebounceLast u key = DebounceLast s key"
      using b Allow_denied [of i now k s u] Allow_frame(5) [OF b, of key] by (cases b) auto
    with IH False show ?thesis by (auto simp: c bs accepted_def)
  qed
qed

lemma allow_run_accepted_spaced: "spaced i (xs @ ys) \<Longrightarrow> spaced i ys"
  by (induction xs) (auto simp: spaced_Cons)

section \<open>Properties\<close>

text \<open>Two accepted calls for the same key are at least the interval apart, over any
  sequence of calls for any keys.\<close>

theorem debounce_spacing:
  assumes "allow_run interval cs s = (bs, t)"
  shows "spaced interval (accepted key cs bs)"
  using allow_run_accepted_spaced [OF allow_run_spaced [OF assms, of key]] .

theorem debounce_spacing_witness:
  "spaced 60 (accepted ''a'' [(0, ''a''), (10, ''a''), (20, ''b''), (70, ''a'')] [True, False, True, True])
    \<and> accepted ''a'' [(0, ''a''), (10, ''a''), (20, ''b''), (70, ''a'')] [True, False, True, True] = [0, 70]"
proof -
  have "fst (allow_run 60 [(0, ''a''), (10, ''a''), (20, ''b''), (70, ''a'')] (initial_sys () empty_fs))
      = [True, False, True, True]"
    by (simp add: Allow_def)
  then obtain t where h: "allow_run 60 [(0, ''a''), (10, ''a''), (20, ''b''), (70, ''a'')] (initial_sys () empty_fs)
      = ([True, False, True, True], t)" by (metis prod.collapse)
  show ?thesis using debounce_spacing [OF h, of "''a''"] by (simp add: accepted_def)
qed

text \<open>A call is refused only inside the interval of an accepted one: the first call for
  a key and every call at least the interval after the last accepted one go through, whatever
  happened on other keys.\<close>

theorem Allow_iff:
  "fst (Allow interval now key s) = (case DebounceLast s key of None \<Rightarrow> True | Some prev \<Rightarrow> interval \<le> now - prev)
   \<and> DebounceLast (snd (Allow interval now key s)) =
       (if fst (Allow interval now key s) then (DebounceLast s)(key := Some now) else DebounceLast s)"
  by (auto simp: Allow_def not_less split: option.splits)

end
