(* ===== verification/Sha256.thy ===== *)
theory Sha256
  imports Go_Strings "HOL-Library.Word"
begin

unbundle bit_operations_syntax

text \<open>
  The parts of Go's \<open>crypto/sha256\<close>, \<open>crypto/hmac\<close> and \<open>encoding/hex\<close> packages that the
  webhook's signature check uses: SHA-256 on 32-bit words (FIPS 180-4), HMAC with its block
  of 64 bytes (RFC 2104) and the lower-case hexadecimal encoding.
\<close>

type_synonym w32 = "32 word"

definition rotr :: "nat \<Rightarrow> w32 \<Rightarrow> w32" where
  "rotr n x = (drop_bit n x) OR (push_bit (32 - n) x)"

text \<open>The constants of FIPS 180-4, in decimal.\<close>

definition round_constants :: "w32 list" where
  "round_constants =
    [1116352408, 1899447441, 3049323471, 3921009573, 961987163, 1508970993, 2453635748, 2870763221,
     3624381080, 310598401, 607225278, 1426881987, 1925078388, 2162078206, 2614888103, 3248222580,
     3835390401, 4022224774, 264347078, 604807628, 770255983, 1249150122, 1555081692, 1996064986,
     2554220882, 2821834349, 2952996808, 3210313671, 3336571891, 3584528711, 113926993, 338241895,
     666307205, 773529912, 1294757372, 1396182291, 1695183700, 1986661051, 2177026350, 2456956037,
     2730485921, 2820302411, 3259730800, 3345764771, 3516065817, 3600352804, 4094571909, 275423344,
     430227734, 506948616, 659060556, 883997877, 958139571, 1322822218, 1537002063, 1747873779,
     1955562222, 2024104815, 2227730452, 2361852424, 2428436474, 2756734187, 3204031479, 3329325298]"

type_synonym hash_state = "w32 \<times> w32 \<times> w32 \<times> w32 \<times> w32 \<times> w32 \<times> w32 \<times> w32"

definition initial_state :: hash_state where
  "initial_state = (1779033703, 3144134277, 1013904242, 2773480762,
     1359893119, 2600822924, 528734635, 1541459225)"

section \<open>Blocks\<close>

definition be_bytes :: "nat \<Rightarrow> 'a::len word \<Rightarrow> string" where
  "be_bytes n w = map (\<lambda>i. char_of (unat (take_bit 8 (drop_bit (8 * (n - 1 - i)) w)))) [0..<n]"

text \<open>The message with its padding: a one bit, zeros, the length in bits.\<close>

definition pad :: "string \<Rightarrow> string" where
  "pad m = m @ [CHR 0x80] @ replicate ((119 - length m mod 64) mod 64) (CHR 0x00)
     @ be_bytes 8 (8 * of_nat (length m) :: 64 word)"

definition word_of_bytes :: "char \<Rightarrow> char \<Rightarrow> char \<Rightarrow> char \<Rightarrow> w32" where
  "word_of_bytes a b c d = push_bit 24 (of_nat (byte a)) OR push_bit 16 (of_nat (byte b))
     OR push_bit 8 (of_nat (byte c)) OR of_nat (byte d)"

fun words_of :: "string \<Rightarrow> w32 list" where
  "words_of (a # b # c # d # rest) = word_of_bytes a b c d # words_of rest"
| "words_of _ = []"

text \<open>The message schedule, most recent word first.\<close>

fun extend_schedule :: "nat \<Rightarrow> w32 list \<Rightarrow> w32 list" where
  "extend_schedule 0 ws = ws"
| "extend_schedule (Suc n) ws =
     (let a = ws ! 1; b = ws ! 14;
          s1 = rotr 17 a XOR rotr 19 a XOR drop_bit 10 a;
          s0 = rotr 7 b XOR rotr 18 b XOR drop_bit 3 b
      in extend_schedule n ((s1 + ws ! 6 + s0 + ws ! 15) # ws))"

definition schedule :: "w32 list \<Rightarrow> w32 list" where
  "schedule block = rev (extend_schedule 48 (rev block))"

fun round :: "hash_state \<Rightarrow> w32 \<times> w32 \<Rightarrow> hash_state" where
  "round (a, b, c, d, e, f, g, h) (k, w) =
     (let t1 = h + (rotr 6 e XOR rotr 11 e XOR rotr 25 e) + ((e AND f) XOR (NOT e AND g)) + k + w;
          t2 = (rotr 2 a XOR rotr 13 a XOR rotr 22 a) + ((a AND b) XOR (a AND c) XOR (b AND c))
      in (t1 + t2, a, b, c, d + t1, e, f, g))"

definition add_states :: "hash_state \<Rightarrow> hash_state \<Rightarrow> hash_state" where
  "add_states s t = (case (s, t) of ((a, b, c, d, e, f, g, h), (a', b', c', d', e', f', g', h')) \<Rightarrow>
     (a + a', b + b', c + c', d + d', e + e', f + f', g + g', h + h'))"

definition compress :: "hash_state \<Rightarrow> w32 list \<Rightarrow> hash_state" where
  "compress s block = add_states s (foldl round s (zip round_constants (schedule block)))"

fun blocks :: "nat \<Rightarrow> w32 list \<Rightarrow> w32 list list" where
  "blocks 0 ws = []"
| "blocks (Suc n) ws = take 16 ws # blocks n (drop 16 ws)"

definition state_words :: "hash_state \<Rightarrow> w32 list" where
  "state_words s = (case s of (a, b, c, d, e, f, g, h) \<Rightarrow> [a, b, c, d, e, f, g, h])"

definition Sum256 :: "string \<Rightarrow> string" where
  "Sum256 m = (let p = pad m
     in concat (map (be_bytes 4)
          (state_words (foldl compress initial_state (blocks (length p div 64) (words_of p))))))"

section \<open>HMAC and hexadecimal\<close>

definition xor_byte :: "nat \<Rightarrow> char \<Rightarrow> char" where
  "xor_byte n c = char_of (n XOR byte c)"

definition hmac_key :: "string \<Rightarrow> string" where
  "hmac_key key = (let k = (if 64 < length key then Sum256 key else key)
     in k @ replicate (64 - length k) (CHR 0x00))"

definition HmacSHA256 :: "string \<Rightarrow> string \<Rightarrow> string" where
  "HmacSHA256 key m = (let k = hmac_key key
     in Sum256 (map (xor_byte 0x5c) k @ Sum256 (map (xor_byte 0x36) k @ m)))"

definition hex_digit :: "nat \<Rightarrow> char" where
  "hex_digit d = (if d < 10 then char_of (48 + d) else char_of (87 + d))"

definition HexEncode :: "string \<Rightarrow> string" where
  "HexEncode s = concat (map (\<lambda>c. [hex_digit (byte c div 16), hex_digit (byte c mod 16)]) s)"

section \<open>Facts\<close>

lemma length_be_bytes [simp]: "length (be_bytes n v) = n"
  by (simp add: be_bytes_def)

lemma length_Sum256: "length (Sum256 m) = 32"
  by (simp add: Sum256_def state_words_def Let_def split: prod.split)

text \<open>The padding fills whole blocks of 64 bytes.\<close>

lemma length_pad: "64 dvd length (pad m)"
proof -
  have "length (pad m) = length m + 1 + (119 - length m mod 64) mod 64 + 8"
    by (simp add: pad_def)
  moreover have "length m = 64 * (length m div 64) + length m mod 64" by simp
  moreover have "64 dvd (r + 1 + (119 - r) mod 64 + 8)" if "r < 64" for r :: nat
  proof (cases "r \<le> 55")
    case True
    then have "(119 - r) mod 64 = 55 - r"
      by (simp add: mod_if)
    then show ?thesis using True by simp
  next
    case False
    then have "(119 - r) mod 64 = 119 - r" using that by simp
    then show ?thesis using that by simp
  qed
  ultimately show ?thesis
    by (metis (no_types, lifting) dvd_add dvd_triv_left group_cancel.add1 mod_less_divisor zero_less_numeral)
qed

lemma hex_digit_inj: "a < 16 \<Longrightarrow> b < 16 \<Longrightarrow> hex_digit a = hex_digit b \<Longrightarrow> a = b"
proof -
  assume ab: "a < 16" "b < 16" and eq: "hex_digit a = hex_digit b"
  have "byte (hex_digit d) = (if d < 10 then 48 + d else 87 + d)" if "d < 16" for d
    using that by (simp add: hex_digit_def)
  with ab arg_cong [OF eq, of byte] show "a = b" by (simp split: if_splits)
qed

lemma HexEncode_inj: "HexEncode s = HexEncode t \<Longrightarrow> s = t"
proof (induction s arbitrary: t)
  case Nil
  then show ?case by (cases t) (auto simp: HexEncode_def)
next
  case (Cons c s)
  then obtain d t' where t: "t = d # t'" by (cases t) (auto simp: HexEncode_def)
  have "hex_digit (byte c div 16) = hex_digit (byte d div 16)"
    "hex_digit (byte c mod 16) = hex_digit (byte d mod 16)" and r: "HexEncode s = HexEncode t'"
    using Cons.prems by (auto simp: HexEncode_def t)
  moreover have "byte c < 256" "byte d < 256" by simp_all
  ultimately have "byte c div 16 = byte d div 16" "byte c mod 16 = byte d mod 16"
    using hex_digit_inj by (simp_all add: div_less_dividend less_mult_imp_div_less)
  then have "byte c = byte d" by (metis div_mult_mod_eq)
  then have "c = d" by simp
  with r Cons.IH t show ?case by simp
qed

lemma length_HexEncode: "length (HexEncode s) = 2 * length s"
  by (induction s) (auto simp: HexEncode_def)

end
