(* ===== verification/Webhook.thy ===== *)
theory Webhook
  imports Command Cursor Debounce Sha256
begin

text \<open>
  The HTTP entry points of \<open>pkg/handler\<close>: the signed webhook receiver and the trigger
  endpoint. A request is its path, its header values, its query values and its body; a handler yields
  the error it returns (with a status) or its reply, and the new state of the process. The
  writing of the reply itself cannot fail here. The clock is a parameter (nanoseconds).
\<close>

record reply =
  ReplyStatus :: int
  ReplyHeader :: "(string \<times> string) list"
  ReplyBody :: string

definition StatusOK :: int where "StatusOK = 200"
definition StatusAccepted :: int where "StatusAccepted = 202"

definition writeWebhookAck :: reply where
  "writeWebhookAck = \<lparr>ReplyStatus = StatusOK, ReplyHeader = [], ReplyBody = ''''\<rparr>"

text \<open>The encoder of encoding/json ends what it writes with a newline.\<close>

definition writeWebhookDispatched :: reply where
  "writeWebhookDispatched = \<lparr>ReplyStatus = StatusAccepted, ReplyHeader = [(''Content-Type'', ''application/json'')],
     ReplyBody = json_print (JObj [(''status'', JStr ''accepted'')]) @ [CHR 0x0A]\<rparr>"

definition writeAccepted :: reply where
  "writeAccepted = \<lparr>ReplyStatus = StatusAccepted, ReplyHeader = [(''Content-Type'', ''application/json'')],
     ReplyBody = json_print (JObj [(''status'', JStr ''accepted'')]) @ [CHR 0x0A]\<rparr>"

lemma replies_distinct [simp]:
  "writeWebhookAck \<noteq> writeWebhookDispatched" "writeWebhookDispatched \<noteq> writeWebhookAck"
  by (simp_all add: writeWebhookAck_def writeWebhookDispatched_def StatusOK_def StatusAccepted_def)

record http_body_in =
  BodyBytes :: string
  BodyError :: "goerr option"

record request =
  UrlPath :: string
  HeaderGet :: "string \<Rightarrow> string"
  QueryGet :: "string \<Rightarrow> string"
  ReqBody :: http_body_in

definition WebhookSignatureHeader :: string where
  "WebhookSignatureHeader = ''X-Hub-Signature-256''"

definition WebhookEventHeader :: string where
  "WebhookEventHeader = ''X-GitHub-Event''"

definition AvailableWebhookHeaders :: "string list" where
  "AvailableWebhookHeaders = [WebhookSignatureHeader, WebhookEventHeader]"

section \<open>The signature\<close>

definition verifyWebhookSignature :: "string \<Rightarrow> string \<Rightarrow> string \<Rightarrow> goerr option" where
  "verifyWebhookSignature secret provided body =
     (if secret = '''' then Some (Errorf ''webhook secret not configured'')
      else if provided = '''' then Some (Errorf ''missing webhook signature header'')
      else (case Cut provided CHR ''='' of (_, sigHex, found) \<Rightarrow>
        if \<not> found \<or> sigHex = '''' then Some (Errorf ''malformed webhook signature header'')
        else (let expected = HexEncode (HmacSHA256 secret body)
              in if expected \<noteq> sigHex then Some (Errorf ''invalid webhook signature'') else None)))"

section \<open>The payload\<close>

record commit =
  Modified :: "string list"
  Added :: "string list"

record webhookPushEvent =
  PushRef :: string
  FullName :: string
  Commits :: "commit list"

text \<open>
  Decoding follows encoding/json: unknown members are skipped, null leaves a string alone and
  empties a slice, an element of a slice starts from its zero value, any other type is an
  error.
\<close>

fun decode_strings :: "json list \<Rightarrow> string list res" where
  "decode_strings [] = Inr []"
| "decode_strings (v # vs) = (case decode_string '''' v of Inl e \<Rightarrow> Inl e
     | Inr x \<Rightarrow> (case decode_strings vs of Inl e \<Rightarrow> Inl e | Inr xs \<Rightarrow> Inr (x # xs)))"

definition decode_string_slice :: "json \<Rightarrow> string list res" where
  "decode_string_slice v = (case v of JNull \<Rightarrow> Inr [] | JArr vs \<Rightarrow> decode_strings vs
     | _ \<Rightarrow> Inl (Errorf ''json: cannot unmarshal value into []string''))"

fun decode_commit_fields :: "(string \<times> json) list \<Rightarrow> commit \<Rightarrow> commit res" where
  "decode_commit_fields [] c = Inr c"
| "decode_commit_fields ((k, v) # ms) c =
     (case field_of [''modified'', ''added''] k of
        None \<Rightarrow> decode_commit_fields ms c
      | Some f \<Rightarrow>
          (case decode_string_slice v of Inl e \<Rightarrow> Inl e
           | Inr xs \<Rightarrow> decode_commit_fields ms
               (if f = ''modified'' then c\<lparr>Modified := xs\<rparr> else c\<lparr>Added := xs\<rparr>)))"

definition decode_commit :: "json \<Rightarrow> commit res" where
  "decode_commit v = (let zero = \<lparr>Modified = [], Added = []\<rparr> in case v of
      JNull \<Rightarrow> Inr zero
    | JObj ms \<Rightarrow> decode_commit_fields ms zero
    | _ \<Rightarrow> Inl (Errorf ''json: cannot unmarshal value into commit''))"

fun decode_commits :: "json list \<Rightarrow> commit list res" where
  "decode_commits [] = Inr []"
| "decode_commits (v # vs) = (case decode_commit v of Inl e \<Rightarrow> Inl e
     | Inr x \<Rightarrow> (case decode_commits vs of Inl e \<Rightarrow> Inl e | Inr xs \<Rightarrow> Inr (x # xs)))"

fun decode_repository :: "(string \<times> json) list \<Rightarrow> string \<Rightarrow> string res" where
  "decode_repository [] n = Inr n"
| "decode_repository ((k, v) # ms) n =
     (case field_of [''full_name''] k of
        None \<Rightarrow> decode_repository ms n
      | Some _ \<Rightarrow> (case decode_string n v of Inl e \<Rightarrow> Inl e | Inr x \<Rightarrow> decode_repository ms x))"

definition decode_push_field :: "string \<Rightarrow> json \<Rightarrow> webhookPushEvent \<Rightarrow> webhookPushEvent res" where
  "decode_push_field f v p =
     (if f = ''ref'' then map_sum id (\<lambda>x. p\<lparr>PushRef := x\<rparr>) (decode_string (PushRef p) v)
      else if f = ''repository'' then
        (case v of JNull \<Rightarrow> Inr p
         | JObj ms \<Rightarrow> map_sum id (\<lambda>x. p\<lparr>FullName := x\<rparr>) (decode_repository ms (FullName p))
         | _ \<Rightarrow> Inl (Errorf ''json: cannot unmarshal value into repository''))
      else
        (case v of JNull \<Rightarrow> Inr (p\<lparr>Commits := []\<rparr>)
         | JArr vs \<Rightarrow> map_sum id (\<lambda>x. p\<lparr>Commits := x\<rparr>) (decode_commits vs)
         | _ \<Rightarrow> Inl (Errorf ''json: cannot unmarshal value into commits'')))"

fun decode_push_fields :: "(string \<times> json) list \<Rightarrow> webhookPushEvent \<Rightarrow> webhookPushEvent res" where
  "decode_push_fields [] p = Inr p"
| "decode_push_fields ((k, v) # ms) p =
     (case field_of [''ref'', ''repository'', ''commits''] k of
        None \<Rightarrow> decode_push_fields ms p
      | Some f \<Rightarrow> (case decode_push_field f v p of Inl e \<Rightarrow> Inl e | Inr p' \<Rightarrow> decode_push_fields ms p'))"

definition unmarshal_push :: "string \<Rightarrow> webhookPushEvent res" where
  "unmarshal_push body = (let zero = \<lparr>PushRef = '''', FullName = '''', Commits = []\<rparr>
     in case json_parse body of
          None \<Rightarrow> Inl (Errorf ''json: syntax error'')
        | Some v \<Rightarrow> (case v of
             JNull \<Rightarrow> Inr zero
           | JObj ms \<Rightarrow> decode_push_fields ms zero
           | _ \<Rightarrow> Inl (Errorf ''json: cannot unmarshal value into webhookPushEvent'')))"

section \<open>Classification\<close>

definition releaseFiles :: "string set" where
  "releaseFiles = {''CHANGELOG.md'', ''.maintainer.yaml''}"

definition tagRefPrefix :: string where
  "tagRefPrefix = ''refs/tags/''"

definition parseTagRef :: "string \<Rightarrow> string \<times> bool" where
  "parseTagRef ref =
     (if \<not> HasPrefix ref tagRefPrefix then ('''', False)
      else (let tag = TrimPrefix ref tagRefPrefix in if tag = '''' then ('''', False) else (tag, True)))"

definition touchesReleaseFiles :: "webhookPushEvent \<Rightarrow> bool" where
  "touchesReleaseFiles p = list_ex (\<lambda>c. list_ex (\<lambda>f. f \<in> releaseFiles) (Modified c)
     \<or> list_ex (\<lambda>f. f \<in> releaseFiles) (Added c)) (Commits p)"

record 'w webhookHandler =
  WhSender :: "'w TriggerSender"
  WhSecret :: string
  WhClock :: "'w \<Rightarrow> int"
  WhInterval :: int

definition NewWebhookHandler :: "'w TriggerSender \<Rightarrow> string \<Rightarrow> ('w \<Rightarrow> int) \<Rightarrow> int \<Rightarrow> 'w webhookHandler" where
  "NewWebhookHandler sender secret clock interval =
     \<lparr>WhSender = sender, WhSecret = secret, WhClock = clock, WhInterval = interval\<rparr>"

definition debounce_key :: "webhookPushEvent \<Rightarrow> string" where
  "debounce_key p = (case parseTagRef (PushRef p) of
      (tag, isTagPush) \<Rightarrow> if isTagPush then FullName p @ ''@'' @ tag else FullName p)"

definition classify :: "'w webhookHandler \<Rightarrow> webhookPushEvent \<Rightarrow> 'w sys \<Rightarrow> (string \<times> bool) \<times> 'w sys" where
  "classify h p s =
     (case parseTagRef (PushRef p) of (tag, isTagPush) \<Rightarrow>
        if \<not> isTagPush \<and> \<not> touchesReleaseFiles p then
          (('''', False), act (IncWebhookSkipped ''no_release_files'') s)
        else (case Allow (WhInterval h) (WhClock h (Ext s)) (debounce_key p) s of
            (False, t) \<Rightarrow> (('''', False), act (IncWebhookSkipped ''debounced'') t)
          | (True, t) \<Rightarrow> ((tag, True), t)))"

section \<open>The handlers\<close>

definition Webhook_ServeHTTP :: "'w webhookHandler \<Rightarrow> request \<Rightarrow> 'w sys \<Rightarrow> reply res \<times> 'w sys" where
  "Webhook_ServeHTTP h req s =
     (let start = WhClock h (Ext s); body = BodyBytes (ReqBody req)
      in case BodyError (ReqBody req) of
        Some e \<Rightarrow> (Inl (StatusErr StatusBadRequest (Wrapf ''read webhook body'' e)), s)
      | None \<Rightarrow>
      (case verifyWebhookSignature (WhSecret h) (HeaderGet req WebhookSignatureHeader) body of
        Some e \<Rightarrow> (Inl (StatusErr StatusUnauthorized e), act IncWebhookSignatureRejected s)
      | None \<Rightarrow>
      (let event = HeaderGet req WebhookEventHeader
       in if event = ''ping'' then (Inr writeWebhookAck, s)
          else if event \<noteq> ''push'' then (Inr writeWebhookAck, s)
          else (case unmarshal_push body of
            Inl e \<Rightarrow> (Inl (StatusErr StatusBadRequest (Wrapf ''parse webhook payload'' e)), s)
          | Inr payload \<Rightarrow>
              (if FullName payload = '''' then
                 (Inl (StatusErr StatusBadRequest (Errorf ''webhook payload missing repository.full_name'')), s)
               else (case classify h payload s of
                   ((tag, dispatch), t) \<Rightarrow>
                     (if \<not> dispatch then (Inr writeWebhookAck, t)
                      else (case WhSender h \<lparr>Scope = FullName payload, Force = False, Tag = tag\<rparr> t of
                          (Some e, u) \<Rightarrow>
                            (Inl (StatusErr StatusBadGateway (Wrapf ''send TriggerReleaseCheckCommand'' e)), u)
                        | (None, u) \<Rightarrow>
                            (Inr writeWebhookDispatched,
                             act (ObserveWebhookDispatchLatency (WhClock h (Ext u) - start))
                               (act (IncWebhookDelivery ''success'') u)))))))))) "

text \<open>\<open>libparse.ParseBoolDefault\<close> is a parameter.\<close>

definition Trigger_ServeHTTP ::
    "(string \<Rightarrow> bool \<Rightarrow> bool) \<Rightarrow> 'w TriggerSender \<Rightarrow> request \<Rightarrow> 'w sys \<Rightarrow> reply res \<times> 'w sys" where
  "Trigger_ServeHTTP parseBoolDefault sender req s =
     (let force = parseBoolDefault (QueryGet req ''force'') False
      in case sender \<lparr>Scope = '''', Force = force, Tag = ''''\<rparr> s of
           (Some e, t) \<Rightarrow>
             (Inl (StatusErr StatusBadGateway (Wrapf ''send TriggerReleaseCheckCommand'' e)), t)
         | (None, t) \<Rightarrow> (Inr writeAccepted, t))"

section \<open>Facts\<close>

lemma verifyWebhookSignature_None:
  "verifyWebhookSignature secret provided body = None \<longleftrightarrow> secret \<noteq> '''' \<and>
     (\<exists>scheme. CHR ''='' \<notin> set scheme \<and> provided = scheme @ ''='' @ HexEncode (HmacSHA256 secret body))"
proof (cases "Cut provided CHR ''=''")
  case (fields scheme sig found)
  have ne: "HexEncode (HmacSHA256 secret body) \<noteq> ''''"
    using length_HexEncode [of "HmacSHA256 secret body"] length_Sum256
    by (auto simp: HmacSHA256_def Let_def)
  show ?thesis
  proof (cases found)
    case True
    then have p: "provided = scheme @ CHR ''='' # sig" "CHR ''='' \<notin> set scheme"
      using Cut_found fields by auto
    have v: "verifyWebhookSignature secret provided body = None \<longleftrightarrow>
        secret \<noteq> [] \<and> sig = HexEncode (HmacSHA256 secret body)"
    proof -
      have "provided \<noteq> []" using p(1) by simp
      then have "verifyWebhookSignature secret provided body = None \<longleftrightarrow> secret \<noteq> [] \<and> sig \<noteq> []
          \<and> HexEncode (HmacSHA256 secret body) = sig"
        using True by (simp add: verifyWebhookSignature_def fields Let_def)
      then show ?thesis using ne by auto
    qed
    have "(\<exists>s'. CHR ''='' \<notin> set s' \<and> provided = s' @ ''='' @ x) \<longleftrightarrow> sig = x" for x
      using append_sep_inj [of scheme "CHR ''=''" sig _ x] p by auto
    then show ?thesis unfolding v by simp
  next
    case False
    then have "CHR ''='' \<notin> set provided" using Cut_not_found fields by auto
    then show ?thesis using False by (auto simp: verifyWebhookSignature_def fields)
  qed
qed

lemma parseTagRef_iff: "parseTagRef ref = (tag, True) \<longleftrightarrow> tag \<noteq> '''' \<and> ref = tagRefPrefix @ tag"
  by (auto simp: parseTagRef_def Let_def TrimPrefix_def HasPrefix_def prefix_def split: if_splits)

lemma parseTagRef_False: "parseTagRef ref = (tag, False) \<Longrightarrow> tag = ''''"
  by (auto simp: parseTagRef_def Let_def split: if_splits)

section \<open>What a delivery does\<close>

lemma classify_spec:
  assumes "classify h p s = ((tag, ok), t)"
  shows "ok \<Longrightarrow> Acts t = Acts s \<and> Ext t = Ext s \<and> Fs t = Fs s
      \<and> (tag \<noteq> '''' \<and> PushRef p = tagRefPrefix @ tag \<or> tag = '''' \<and> touchesReleaseFiles p)
      \<and> Allow (WhInterval h) (WhClock h (Ext s)) (debounce_key p) s = (True, t)"
    and "\<not> ok \<Longrightarrow> tag = '''' \<and> (\<exists>reason\<in>{''no_release_files'', ''debounced''}. t = act (IncWebhookSkipped reason) s)"
proof -
  obtain tg b where tr: "parseTagRef (PushRef p) = (tg, b)" by fastforce
  obtain al u where a: "Allow (WhInterval h) (WhClock h (Ext s)) (debounce_key p) s = (al, u)" by fastforce
  note fr = Allow_frame [OF a]
  have tag: "if b then tg \<noteq> '''' \<and> PushRef p = tagRefPrefix @ tg else tg = ''''"
    using tr parseTagRef_iff [of "PushRef p" tg] parseTagRef_False [of "PushRef p" tg] by (cases b) auto
  show "ok \<Longrightarrow> Acts t = Acts s \<and> Ext t = Ext s \<and> Fs t = Fs s
      \<and> (tag \<noteq> '''' \<and> PushRef p = tagRefPrefix @ tag \<or> tag = '''' \<and> touchesReleaseFiles p)
      \<and> Allow (WhInterval h) (WhClock h (Ext s)) (debounce_key p) s = (True, t)"
    using assms tag fr a by (auto simp: classify_def tr split: if_splits bool.splits)
  show "\<not> ok \<Longrightarrow> tag = '''' \<and> (\<exists>reason\<in>{''no_release_files'', ''debounced''}. t = act (IncWebhookSkipped reason) s)"
    using assms a Allow_denied [of "WhInterval h" "WhClock h (Ext s)" "debounce_key p" s u]
    by (auto simp: classify_def tr split: if_splits bool.splits)
qed

text \<open>A delivery whose signature, event and payload are in order, up to the classification.\<close>

definition delivered :: "'w webhookHandler \<Rightarrow> request \<Rightarrow> webhookPushEvent \<Rightarrow> bool" where
  "delivered h req payload \<longleftrightarrow> BodyError (ReqBody req) = None
     \<and> verifyWebhookSignature (WhSecret h) (HeaderGet req WebhookSignatureHeader) (BodyBytes (ReqBody req)) = None
     \<and> HeaderGet req WebhookEventHeader = ''push''
     \<and> unmarshal_push (BodyBytes (ReqBody req)) = Inr payload \<and> FullName payload \<noteq> ''''"

lemma Webhook_not_delivered:
  assumes "Webhook_ServeHTTP h req s = (r, t)" "\<nexists>payload. delivered h req payload"
  shows "t = s \<and> (r = Inr writeWebhookAck \<or> (\<exists>e. r = Inl (StatusErr StatusBadRequest e)))
     \<and> (BodyError (ReqBody req) = None \<longrightarrow> verifyWebhookSignature (WhSecret h)
          (HeaderGet req WebhookSignatureHeader) (BodyBytes (ReqBody req)) = None)
    \<or> t = act IncWebhookSignatureRejected s \<and> (\<exists>e. r = Inl (StatusErr StatusUnauthorized e)
     \<and> verifyWebhookSignature (WhSecret h) (HeaderGet req WebhookSignatureHeader) (BodyBytes (ReqBody req)) = Some e)"
proof (cases "BodyError (ReqBody req)")
  case (Some e)
  then show ?thesis using assms(1) by (auto simp: Webhook_ServeHTTP_def Let_def)
next
  case ok: None
  show ?thesis
  proof (cases "verifyWebhookSignature (WhSecret h) (HeaderGet req WebhookSignatureHeader) (BodyBytes (ReqBody req))")
    case (Some e)
    then show ?thesis using assms(1) ok by (auto simp: Webhook_ServeHTTP_def Let_def)
  next
    case None
    then show ?thesis using assms ok
      by (cases "unmarshal_push (BodyBytes (ReqBody req))")
        (auto simp: Webhook_ServeHTTP_def Let_def delivered_def split: if_splits)
  qed
qed

lemma Webhook_delivered:
  assumes "Webhook_ServeHTTP h req s = (r, t)" "delivered h req payload"
  shows "(\<exists>reason\<in>{''no_release_files'', ''debounced''}. t = act (IncWebhookSkipped reason) s \<and> r = Inr writeWebhookAck)
    \<or> (\<exists>tag u v x. classify h payload s = ((tag, True), u)
        \<and> WhSender h \<lparr>Scope = FullName payload, Force = False, Tag = tag\<rparr> u = (x, v)
        \<and> (case x of
            Some e \<Rightarrow> t = v \<and> (\<exists>e'. r = Inl (StatusErr StatusBadGateway e'))
          | None \<Rightarrow> r = Inr writeWebhookDispatched \<and> t = act (ObserveWebhookDispatchLatency (WhClock h (Ext v) - WhClock h (Ext s)))
              (act (IncWebhookDelivery ''success'') v)))"
proof -
  obtain tag ok u where c: "classify h payload s = ((tag, ok), u)" by (metis prod_cases3 surj_pair)
  obtain x v where sd: "WhSender h \<lparr>Scope = FullName payload, Force = False, Tag = tag\<rparr> u = (x, v)" by fastforce
  show ?thesis
  proof (cases ok)
    case True
    then show ?thesis using assms c sd
      by (cases x) (auto simp: Webhook_ServeHTTP_def Let_def delivered_def)
  next
    case False
    then have "t = u" "r = Inr writeWebhookAck"
      using assms c by (auto simp: Webhook_ServeHTTP_def Let_def delivered_def)
    then show ?thesis using classify_spec(2) [OF c] False by blast
  qed
qed


text \<open>What the handler relies on the sender for: its law, over any sender that keeps it.\<close>

context trigger_sender
begin

lemma webhook_send:
  assumes "classify h p s = ((tag, True), u)" "send_command cmd u = (x, v)"
  shows "new_acts s v = [SendTrigger cmd (x = None)] \<or> new_acts s v = [] \<and> x \<noteq> None"
    and "Acts v = Acts s @ new_acts s v"
proof -
  have a: "Acts u = Acts s" using classify_spec(1) [OF assms(1)] by simp
  then have n: "new_acts s v = new_acts u v" by (simp add: new_acts_def)
  show "new_acts s v = [SendTrigger cmd (x = None)] \<or> new_acts s v = [] \<and> x \<noteq> None"
    using send_acts [OF assms(2)] unfolding n by blast
  show "Acts v = Acts s @ new_acts s v"
    using Acts_extends send_acts [OF assms(2)] a unfolding n by metis
qed

lemma webhook_actions:
  assumes "WhSender h = send_command" "Webhook_ServeHTTP h req s = (r, t)" "delivered h req payload"
  shows "(\<exists>reason\<in>{''no_release_files'', ''debounced''}.
        new_acts s t = [IncWebhookSkipped reason] \<and> r = Inr writeWebhookAck \<and> DebounceLast t = DebounceLast s)
    \<or> (\<exists>tag u cmd. classify h payload s = ((tag, True), u) \<and> DebounceLast t = DebounceLast u
        \<and> cmd = \<lparr>Scope = FullName payload, Force = False, Tag = tag\<rparr>
        \<and> (r = Inr writeWebhookDispatched \<and> (\<exists>d. new_acts s t
              = [SendTrigger cmd True, IncWebhookDelivery ''success'', ObserveWebhookDispatchLatency d])
          \<or> (\<exists>e. r = Inl (StatusErr StatusBadGateway e)) \<and> new_acts s t \<in> {[], [SendTrigger cmd False]}))"
  using Webhook_delivered [OF assms(2,3)]
proof (elim disjE exE conjE bexE, goal_cases)
  case (1 reason)
  then show ?thesis by (intro disjI1 bexI [of _ reason]) auto
next
  case (2 tag u v x)
  note sd = 2(2) [unfolded assms(1)]
  note w = webhook_send [OF 2(1) sd]
  have d: "DebounceLast v = DebounceLast u" using send_acts [OF sd] by (simp add: extends_def)
  have len: "length (Acts s) \<le> length (Acts v)" using w(2) by (metis length_append le_add1)
  show ?thesis
  proof (cases x)
    case None
    then have "new_acts s t = new_acts s v @ [IncWebhookDelivery ''success'',
        ObserveWebhookDispatchLatency (WhClock h (Ext v) - WhClock h (Ext s))]" "r = Inr writeWebhookDispatched"
      "DebounceLast t = DebounceLast v"
      using 2(3) len by (auto simp: new_acts_def)
    then show ?thesis using w(1) None 2(1) d by (intro disjI2 exI [of _ tag] exI [of _ u]) auto
  next
    case (Some e)
    then have "t = v" "\<exists>e. r = Inl (StatusErr StatusBadGateway e)" using 2(3) by auto
    then show ?thesis using w(1) Some 2(1) d by (intro disjI2 exI [of _ tag] exI [of _ u]) auto
  qed
qed

end


lemma classify_again:
  assumes "classify h p s = ((tag, True), u)" "DebounceLast s' = DebounceLast u"
    "WhClock h (Ext s') - WhClock h (Ext s) < WhInterval h"
  shows "classify h p s' = (('''', False), act (IncWebhookSkipped ''debounced'') s')"
proof -
  have a: "Allow (WhInterval h) (WhClock h (Ext s)) (debounce_key p) s = (True, u)"
    and k: "tag \<noteq> '''' \<and> PushRef p = tagRefPrefix @ tag \<or> tag = '''' \<and> touchesReleaseFiles p"
    using classify_spec(1) [OF assms(1)] by auto
  have d: "Allow (WhInterval h) (WhClock h (Ext s')) (debounce_key p) s' = (False, s')"
    using Allow_accepted [OF a] assms(2,3) by (auto simp: Allow_denied)
  have "snd (parseTagRef (PushRef p)) \<or> touchesReleaseFiles p"
    using k parseTagRef_iff [of "PushRef p" tag] by auto
  then show ?thesis using d by (auto simp: classify_def split: prod.splits)
qed

section \<open>Properties\<close>

text \<open>C13: a command leaves the webhook only for a delivery signed with the configured secret
  (which is not empty), that is a push event with a decodable payload naming a repository, and
  is either a tag push or touches a release file, at least the debounce interval after the last
  accepted delivery of the same key. The command names that repository and tag and is not
  forced; the reply is 202 exactly when the send went through.\<close>

theorem Webhook_sends_only_signed:
  assumes "WhSender h = SendCommand q sd" "Webhook_ServeHTTP h req s = (r, t)"
    "SendTrigger cmd ok \<in> set (new_acts s t)"
  shows "WhSecret h \<noteq> ''''
    \<and> (\<exists>scheme. CHR ''='' \<notin> set scheme \<and> HeaderGet req WebhookSignatureHeader
        = scheme @ ''='' @ HexEncode (HmacSHA256 (WhSecret h) (BodyBytes (ReqBody req))))
    \<and> HeaderGet req WebhookEventHeader = ''push''
    \<and> (\<exists>p. unmarshal_push (BodyBytes (ReqBody req)) = Inr p \<and> FullName p \<noteq> ''''
        \<and> Scope cmd = FullName p \<and> \<not> Force cmd
        \<and> (if Tag cmd = '''' then touchesReleaseFiles p else PushRef p = ''refs/tags/'' @ Tag cmd)
        \<and> (\<forall>prev. DebounceLast s (debounce_key p) = Some prev \<longrightarrow> WhInterval h \<le> WhClock h (Ext s) - prev))
    \<and> (ok \<longleftrightarrow> r = Inr writeWebhookDispatched)"
proof -
  obtain p where p: "delivered h req p"
    using Webhook_not_delivered [OF assms(2)] assms(3) by fastforce
  from trigger.webhook_actions [OF assms(1,2) p] assms(3)
  obtain tag u where c: "classify h p s = ((tag, True), u)"
    "cmd = \<lparr>Scope = FullName p, Force = False, Tag = tag\<rparr>" "ok \<longleftrightarrow> r = Inr writeWebhookDispatched" by fastforce
  note cs = classify_spec(1) [OF c(1)]
  have "\<forall>prev. DebounceLast s (debounce_key p) = Some prev \<longrightarrow> WhInterval h \<le> WhClock h (Ext s) - prev"
    using cs Allow_accepted by blast
  then show ?thesis
    using p c(2,3) cs unfolding delivered_def verifyWebhookSignature_None by (auto simp: tagRefPrefix_def)
qed

definition demo_cqrs :: "unit cqrs" where
  "demo_cqrs = \<lparr>ParseEvent = (\<lambda>cmd. Inr (Scope cmd)),
     MarshalInto = (\<lambda>d. Inr \<lparr>Scope = d, Force = False, Tag = ''''\<rparr>),
     NewCommandCreator = (\<lambda>op initiator x event w. (\<lparr>Operation = op, Initiator = initiator, Data = event\<rparr>, w)),
     NewCommandObjectSender = (\<lambda>prefix obj w. (None, w)), GithubReleaserV1SchemaID = ''s''\<rparr>"

definition demo_sender :: "unit cqrs \<Rightarrow> unit TriggerSender" where
  "demo_sender q = SendCommand q (NewTriggerReleaseCheckCommandSender (NewCommandCreator q) ''i'' (NewCommandObjectSender q ''''))"

definition demo_hook :: "unit TriggerSender \<Rightarrow> unit webhookHandler" where
  "demo_hook sender = \<lparr>WhSender = sender, WhSecret = ''s'', WhClock = (\<lambda>w. 0), WhInterval = 60\<rparr>"

definition demo_push :: string where
  "demo_push = ''{\"ref\":\"refs/tags/v1.2.3\",\"repository\":{\"full_name\":\"o/r\"},\"commits\":[]}''"

definition demo_delivery :: "string \<Rightarrow> request" where
  "demo_delivery sig = \<lparr>UrlPath = ''/webhook/github-release'', HeaderGet = (\<lambda>n. if n = WebhookSignatureHeader then sig else ''push''),
     QueryGet = (\<lambda>n. ''''), ReqBody = \<lparr>BodyBytes = demo_push, BodyError = None\<rparr>\<rparr>"

definition demo_sig :: string where
  "demo_sig = ''sha256='' @ HexEncode (HmacSHA256 ''s'' demo_push)"


lemma demo_push_delivered:
  "delivered (demo_hook sender) (demo_delivery demo_sig) \<lparr>PushRef = ''refs/tags/v1.2.3'', FullName = ''o/r'', Commits = []\<rparr>"
proof -
  have "unmarshal_push demo_push = Inr \<lparr>PushRef = ''refs/tags/v1.2.3'', FullName = ''o/r'', Commits = []\<rparr>"
    by code_simp
  moreover have "verifyWebhookSignature ''s'' demo_sig demo_push = None"
    unfolding verifyWebhookSignature_None demo_sig_def by (auto intro: exI [of _ "''sha256''"])
  ultimately show ?thesis
    by (simp add: delivered_def demo_hook_def demo_delivery_def WebhookSignatureHeader_def WebhookEventHeader_def)
qed

lemma demo_classify:
  "classify (demo_hook sender) \<lparr>PushRef = ''refs/tags/v1.2.3'', FullName = ''o/r'', Commits = []\<rparr> s
   = (let key = ''o/r@v1.2.3''; (b, t) = Allow 60 0 key s in
      if b then ((''v1.2.3'', True), t) else (('''', False), act (IncWebhookSkipped ''debounced'') t))"
proof -
  have "parseTagRef ''refs/tags/v1.2.3'' = (''v1.2.3'', True)" by code_simp
  then show ?thesis by (simp add: classify_def debounce_key_def demo_hook_def split: prod.splits bool.splits)
qed

lemma demo_webhook_accepted:
  "Webhook_ServeHTTP (demo_hook (demo_sender demo_cqrs)) (demo_delivery demo_sig) (initial_sys () empty_fs)
   = (Inr writeWebhookDispatched, act (ObserveWebhookDispatchLatency 0) (act (IncWebhookDelivery ''success'')
       (act (SendTrigger \<lparr>Scope = ''o/r'', Force = False, Tag = ''v1.2.3''\<rparr> True)
         (initial_sys () empty_fs\<lparr>DebounceLast := [''o/r@v1.2.3'' \<mapsto> 0]\<rparr>))))"
  using demo_push_delivered [of "demo_sender demo_cqrs"]
  by (simp add: Webhook_ServeHTTP_def Let_def delivered_def demo_classify Allow_def)
    (simp add: demo_hook_def demo_sender_def NewTriggerReleaseCheckCommandSender_def SendCommand_def Command_Validate_def demo_cqrs_def world_call_def)

theorem Webhook_sends_only_signed_witness:
  "let req = demo_delivery demo_sig in
   \<exists>p. unmarshal_push (BodyBytes (ReqBody req)) = Inr p \<and> FullName p = ''o/r'' \<and> PushRef p = ''refs/tags/v1.2.3''"
proof -
  let ?s = "initial_sys () empty_fs"
  let ?c = "\<lparr>Scope = ''o/r'', Force = False, Tag = ''v1.2.3''\<rparr> :: TriggerReleaseCheckCommand"
  have h: "WhSender (demo_hook (demo_sender demo_cqrs)) = SendCommand demo_cqrs
      (NewTriggerReleaseCheckCommandSender (NewCommandCreator demo_cqrs) ''i'' (NewCommandObjectSender demo_cqrs ''''))"
    by (simp add: demo_hook_def demo_sender_def)
  have "SendTrigger ?c True \<in> set (new_acts ?s (snd (Webhook_ServeHTTP (demo_hook (demo_sender demo_cqrs))
      (demo_delivery demo_sig) ?s)))"
    unfolding demo_webhook_accepted by (simp add: new_acts_def)
  from Webhook_sends_only_signed [OF h prod.collapse [symmetric] this]
  show ?thesis by (auto simp: Let_def)
qed


text \<open>
  The conditions of the replies, without the code: whose signature a request carries, what a push
  asks for, and whether the same was asked for within the interval.
\<close>

definition signed_by :: "string \<Rightarrow> request \<Rightarrow> bool" where
  "signed_by secret req \<longleftrightarrow> secret \<noteq> '''' \<and> (\<exists>scheme. CHR ''='' \<notin> set scheme \<and>
     HeaderGet req ''X-Hub-Signature-256'' = scheme @ ''='' @ HexEncode (HmacSHA256 secret (BodyBytes (ReqBody req))))"

definition pushed :: "'w webhookHandler \<Rightarrow> request \<Rightarrow> webhookPushEvent \<Rightarrow> bool" where
  "pushed h req p \<longleftrightarrow> BodyError (ReqBody req) = None \<and> signed_by (WhSecret h) req
     \<and> HeaderGet req ''X-GitHub-Event'' = ''push'' \<and> unmarshal_push (BodyBytes (ReqBody req)) = Inr p \<and> FullName p \<noteq> ''''"

definition asks_for :: "webhookPushEvent \<Rightarrow> string \<Rightarrow> bool" where
  "asks_for p tag \<longleftrightarrow> (if tag \<noteq> '''' then PushRef p = ''refs/tags/'' @ tag
     else touchesReleaseFiles p \<and> (\<forall>x. PushRef p = ''refs/tags/'' @ x \<longrightarrow> x = ''''))"

definition asked_slot :: "webhookPushEvent \<Rightarrow> string \<Rightarrow> string" where
  "asked_slot p tag = (if tag = '''' then FullName p else FullName p @ ''@'' @ tag)"

definition asked_recently :: "'w webhookHandler \<Rightarrow> webhookPushEvent \<Rightarrow> string \<Rightarrow> 'w sys \<Rightarrow> bool" where
  "asked_recently h p tag s \<longleftrightarrow>
     (\<exists>prev. DebounceLast s (asked_slot p tag) = Some prev \<and> WhClock h (Ext s) - prev < WhInterval h)"

text \<open>The hand-over of a push: the command, and the state in which it is sent.\<close>

definition hand_over :: "'w webhookHandler \<Rightarrow> webhookPushEvent \<Rightarrow> string \<Rightarrow> 'w sys \<Rightarrow> goerr option \<times> 'w sys" where
  "hand_over h p tag s = WhSender h \<lparr>Scope = FullName p, Force = False, Tag = tag\<rparr>
     (s\<lparr>DebounceLast := (DebounceLast s)(asked_slot p tag := Some (WhClock h (Ext s)))\<rparr>)"

lemma pushed_delivered: "pushed h req p \<longleftrightarrow> delivered h req p"
  by (auto simp: pushed_def delivered_def signed_by_def verifyWebhookSignature_None WebhookSignatureHeader_def WebhookEventHeader_def)

lemma asks_for_iff: "asks_for p tag \<longleftrightarrow> (tag \<noteq> '''' \<and> parseTagRef (PushRef p) = (tag, True))
    \<or> (tag = '''' \<and> touchesReleaseFiles p \<and> parseTagRef (PushRef p) = ('''', False))"
proof (cases "tag = ''''")
  case True
  obtain tg b where t: "parseTagRef (PushRef p) = (tg, b)" by fastforce
  have "parseTagRef (PushRef p) = ('''', False) \<longleftrightarrow> (\<forall>x. PushRef p = tagRefPrefix @ x \<longrightarrow> x = '''')"
    using t parseTagRef_iff [of "PushRef p"] parseTagRef_False [of "PushRef p" tg] by (metis prod.inject)
  then show ?thesis using True by (simp add: asks_for_def tagRefPrefix_def)
next
  case False
  then show ?thesis by (simp add: asks_for_def parseTagRef_iff tagRefPrefix_def)
qed

lemma classify_asks:
  assumes "asks_for p tag"
  shows "classify h p s = (if asked_recently h p tag s then (('''', False), act (IncWebhookSkipped ''debounced'') s)
    else ((tag, True), s\<lparr>DebounceLast := (DebounceLast s)(asked_slot p tag := Some (WhClock h (Ext s)))\<rparr>))"
proof -
  let ?now = "WhClock h (Ext s)" and ?u = "s\<lparr>DebounceLast := (DebounceLast s)(asked_slot p tag := Some (WhClock h (Ext s)))\<rparr>"
  have allow: "Allow (WhInterval h) ?now (asked_slot p tag) s = (if asked_recently h p tag s then (False, s) else (True, ?u))"
    by (cases "DebounceLast s (asked_slot p tag)") (simp_all add: Allow_def asked_recently_def)
  have "\<exists>b. parseTagRef (PushRef p) = (tag, b) \<and> (b \<or> touchesReleaseFiles p) \<and> debounce_key p = asked_slot p tag"
    using assms unfolding asks_for_iff by (elim disjE conjE; simp add: debounce_key_def asked_slot_def; blast)
  then obtain b where tr: "parseTagRef (PushRef p) = (tag, b)" and b: "b \<or> touchesReleaseFiles p"
    and key: "debounce_key p = asked_slot p tag" by (elim exE conjE)
  show ?thesis unfolding classify_def tr key allow using b by auto
qed

lemma classify_unasked:
  assumes "\<And>tag. \<not> asks_for p tag"
  shows "classify h p s = (('''', False), act (IncWebhookSkipped ''no_release_files'') s)"
proof -
  obtain tg b where t: "parseTagRef (PushRef p) = (tg, b)" by fastforce
  then have "\<not> b \<and> \<not> touchesReleaseFiles p"
    using assms [of tg] parseTagRef_iff [of "PushRef p" tg] parseTagRef_False [of "PushRef p" tg]
    by (cases b) (auto simp: asks_for_iff)
  then show ?thesis using t by (simp add: classify_def)
qed

lemma asks_for_unique: "asks_for p tag \<Longrightarrow> asks_for p tag' \<Longrightarrow> tag = tag'"
  unfolding asks_for_iff by auto

text \<open>The rows of the table of replies.\<close>

lemma reply_unread: "BodyError (ReqBody req) \<noteq> None \<Longrightarrow> Webhook_ServeHTTP h req s = (r, t) \<Longrightarrow>
    (\<exists>e. r = Inl (StatusErr StatusBadRequest e)) \<and> t = s"
  by (auto simp: Webhook_ServeHTTP_def Let_def)

lemma reply_unsigned:
  assumes "BodyError (ReqBody req) = None" "\<not> signed_by (WhSecret h) req" "Webhook_ServeHTTP h req s = (r, t)"
  shows "(\<exists>e. r = Inl (StatusErr StatusUnauthorized e)) \<and> t = act IncWebhookSignatureRejected s"
proof -
  have "verifyWebhookSignature (WhSecret h) (HeaderGet req WebhookSignatureHeader) (BodyBytes (ReqBody req)) \<noteq> None"
    using assms(2) by (simp add: signed_by_def verifyWebhookSignature_None WebhookSignatureHeader_def)
  then show ?thesis using assms by (auto simp: Webhook_ServeHTTP_def Let_def)
qed

lemma reply_signed:
  assumes "BodyError (ReqBody req) = None" "signed_by (WhSecret h) req" "Webhook_ServeHTTP h req s = (r, t)"
  shows "HeaderGet req ''X-GitHub-Event'' \<noteq> ''push'' \<longrightarrow> r = Inr writeWebhookAck \<and> t = s"
    and "HeaderGet req ''X-GitHub-Event'' = ''push'' \<and> (\<forall>p. \<not> pushed h req p) \<longrightarrow>
      (\<exists>e. r = Inl (StatusErr StatusBadRequest e)) \<and> t = s"
proof -
  have v: "verifyWebhookSignature (WhSecret h) (HeaderGet req WebhookSignatureHeader) (BodyBytes (ReqBody req)) = None"
    using assms(2) by (simp add: signed_by_def verifyWebhookSignature_None WebhookSignatureHeader_def)
  then show "HeaderGet req ''X-GitHub-Event'' \<noteq> ''push'' \<longrightarrow> r = Inr writeWebhookAck \<and> t = s"
    using assms by (auto simp: Webhook_ServeHTTP_def Let_def WebhookEventHeader_def split: if_splits)
  show "HeaderGet req ''X-GitHub-Event'' = ''push'' \<and> (\<forall>p. \<not> pushed h req p) \<longrightarrow>
      (\<exists>e. r = Inl (StatusErr StatusBadRequest e)) \<and> t = s"
    using assms v unfolding pushed_delivered
    by (cases "unmarshal_push (BodyBytes (ReqBody req))")
      (auto simp: Webhook_ServeHTTP_def Let_def delivered_def WebhookEventHeader_def)
qed

lemma reply_pushed:
  assumes "pushed h req p" "Webhook_ServeHTTP h req s = (r, t)"
  shows "(\<forall>tag. \<not> asks_for p tag) \<longrightarrow> r = Inr writeWebhookAck \<and> t = act (IncWebhookSkipped ''no_release_files'') s"
    and "asks_for p tag \<and> asked_recently h p tag s \<longrightarrow> r = Inr writeWebhookAck \<and> t = act (IncWebhookSkipped ''debounced'') s"
    and "asks_for p tag \<and> \<not> asked_recently h p tag s \<longrightarrow> (case hand_over h p tag s of
        (Some e, v) \<Rightarrow> (\<exists>e'. r = Inl (StatusErr StatusBadGateway e')) \<and> t = v
      | (None, v) \<Rightarrow> r = Inr writeWebhookDispatched \<and> t = act (ObserveWebhookDispatchLatency
          (WhClock h (Ext v) - WhClock h (Ext s))) (act (IncWebhookDelivery ''success'') v))"
proof -
  have d: "delivered h req p" using assms(1) by (simp add: pushed_delivered)
  show "(\<forall>tag. \<not> asks_for p tag) \<longrightarrow> r = Inr writeWebhookAck \<and> t = act (IncWebhookSkipped ''no_release_files'') s"
    using d assms(2) classify_unasked [of p h s] by (auto simp: Webhook_ServeHTTP_def Let_def delivered_def)
  show "asks_for p tag \<and> asked_recently h p tag s \<longrightarrow> r = Inr writeWebhookAck \<and> t = act (IncWebhookSkipped ''debounced'') s"
    using d assms(2) classify_asks [of p tag h s] by (auto simp: Webhook_ServeHTTP_def Let_def delivered_def)
  show "asks_for p tag \<and> \<not> asked_recently h p tag s \<longrightarrow> (case hand_over h p tag s of
        (Some e, v) \<Rightarrow> (\<exists>e'. r = Inl (StatusErr StatusBadGateway e')) \<and> t = v
      | (None, v) \<Rightarrow> r = Inr writeWebhookDispatched \<and> t = act (ObserveWebhookDispatchLatency
          (WhClock h (Ext v) - WhClock h (Ext s))) (act (IncWebhookDelivery ''success'') v))"
    using d assms(2) classify_asks [of p tag h s]
    by (auto simp: Webhook_ServeHTTP_def Let_def delivered_def hand_over_def split: prod.splits option.splits)
qed

text \<open>C35: the replies of the webhook. 401 exactly when the body was read and does not carry a
  signature made with the configured secret, and then one rejection is counted; 400 exactly when
  the body cannot be read or a signed push cannot be decoded or names no repository, and then
  nothing happens; 200 exactly for a signed event other than a push, without effect, and for a
  push that asks for nothing or for what was asked for within the interval, which is counted as a
  skip; otherwise the command for this repository and tag, not forced, is sent once, after the
  debouncer recorded it, and the reply is 502 when that failed and 202, with a delivery counted,
  when it did not.\<close>

theorem Webhook_replies:
  assumes "Webhook_ServeHTTP h req s = (r, t)" and "read \<longleftrightarrow> BodyError (ReqBody req) = None"
    and "due = (\<lambda>p tag. pushed h req p \<and> asks_for p tag \<and> \<not> asked_recently h p tag s)"
  shows "((\<exists>e. r = Inl (StatusErr 401 e)) \<longleftrightarrow> read \<and> \<not> signed_by (WhSecret h) req)
   \<and> ((\<exists>e. r = Inl (StatusErr 400 e)) \<longleftrightarrow> \<not> read
        \<or> signed_by (WhSecret h) req \<and> HeaderGet req ''X-GitHub-Event'' = ''push'' \<and> (\<forall>p. \<not> pushed h req p))
   \<and> (r = Inr writeWebhookAck \<longleftrightarrow> read \<and> signed_by (WhSecret h) req
        \<and> (HeaderGet req ''X-GitHub-Event'' \<noteq> ''push'' \<or> (\<exists>p. pushed h req p \<and> (\<forall>tag. \<not> due p tag))))
   \<and> ((\<exists>e. r = Inl (StatusErr 502 e)) \<longleftrightarrow> (\<exists>p tag. due p tag \<and> fst (hand_over h p tag s) \<noteq> None))
   \<and> (r = Inr writeWebhookDispatched \<longleftrightarrow> (\<exists>p tag. due p tag \<and> fst (hand_over h p tag s) = None))
   \<and> (read \<and> \<not> signed_by (WhSecret h) req \<longrightarrow> t = act IncWebhookSignatureRejected s)
   \<and> (\<not> read \<or> signed_by (WhSecret h) req \<and> (\<forall>p. \<not> pushed h req p) \<longrightarrow> t = s)
   \<and> (\<forall>p. pushed h req p \<and> (\<forall>tag. \<not> due p tag) \<longrightarrow> t =
        act (IncWebhookSkipped (if \<exists>tag. asks_for p tag then ''debounced'' else ''no_release_files'')) s)
   \<and> (\<forall>p tag. due p tag \<longrightarrow> t = (case hand_over h p tag s of (Some e, v) \<Rightarrow> v
        | (None, v) \<Rightarrow> act (ObserveWebhookDispatchLatency (WhClock h (Ext v) - WhClock h (Ext s)))
            (act (IncWebhookDelivery ''success'') v)))"
proof -
  let ?s = "signed_by (WhSecret h) req" and ?push = "HeaderGet req ''X-GitHub-Event'' = ''push''"
  note codes = StatusUnauthorized_def StatusBadRequest_def StatusBadGateway_def
  have one: "pushed h req p \<Longrightarrow> pushed h req p' \<Longrightarrow> p' = p" for p p' by (simp add: pushed_def)
  have pd: "pushed h req p \<Longrightarrow> read \<and> ?s \<and> ?push" for p by (simp add: pushed_def assms(2))
  consider (unread) "\<not> read" | (unsigned) "read" "\<not> ?s" | (other) "read" "?s" "\<not> ?push"
    | (bad) "read" "?s" "?push" "\<And>p. \<not> pushed h req p" | (push) p where "pushed h req p" by blast
  then show ?thesis
  proof cases
    case unread
    then have "\<not> pushed h req p" for p using pd by blast
    then show ?thesis using unread reply_unread [OF _ assms(1)] by (auto simp: assms(2,3) codes)
  next
    case unsigned
    then have "\<not> pushed h req p" for p using pd by blast
    then show ?thesis using unsigned reply_unsigned [OF _ _ assms(1)] by (auto simp: assms(2,3) codes)
  next
    case other
    then have "\<not> pushed h req p" for p using pd by blast
    then show ?thesis using other reply_signed(1) [OF _ _ assms(1)] by (auto simp: assms(2,3) codes)
  next
    case bad
    then show ?thesis using reply_signed(2) [OF _ _ assms(1)] by (auto simp: assms(2,3) codes)
  next
    case (push p)
    note rows = reply_pushed [OF push assms(1)] and at = pd [OF push]
    have p: "pushed h req p' \<longleftrightarrow> p' = p" for p' using one push by blast
    consider (none) "\<And>tag. \<not> asks_for p tag" | (recent) tag where "asks_for p tag" "asked_recently h p tag s"
      | (due) tag where "asks_for p tag" "\<not> asked_recently h p tag s" by blast
    then show ?thesis
    proof cases
      case none
      then show ?thesis using rows(1) at by (auto simp: assms(3) p)
    next
      case (recent tag)
      then have "asks_for p x \<longleftrightarrow> x = tag" for x using asks_for_unique by blast
      then show ?thesis using rows(2) [of tag] recent at by (auto simp: assms(3) p)
    next
      case (due tag)
      then have "due p' x \<longleftrightarrow> p' = p \<and> x = tag" for p' x using asks_for_unique unfolding assms(3) p by blast
      then show ?thesis using rows(3) [of tag] due at by (auto simp: p codes split: prod.splits option.splits)
    qed
  qed
qed

text \<open>The inputs: a delivery with a wrong signature, and a signed push of a tag.\<close>

theorem Webhook_replies_witness:
  "(\<exists>e. fst (Webhook_ServeHTTP (demo_hook (demo_sender demo_cqrs)) (demo_delivery ''sha256=0'') (initial_sys () empty_fs))
        = Inl (StatusErr 401 e))
   \<and> (\<exists>p tag. pushed (demo_hook (demo_sender demo_cqrs)) (demo_delivery demo_sig) p \<and> asks_for p tag
        \<and> fst (hand_over (demo_hook (demo_sender demo_cqrs)) p tag (initial_sys () empty_fs)) = None)"
proof -
  let ?h = "demo_hook (demo_sender demo_cqrs)" and ?s = "initial_sys () empty_fs"
  have "''sha256=0'' \<noteq> scheme @ ''='' @ HexEncode (HmacSHA256 x y)" if "CHR ''='' \<notin> set scheme" for scheme x y :: string
  proof
    assume "''sha256=0'' = scheme @ ''='' @ HexEncode (HmacSHA256 x y)"
    then have "length ''sha256=0'' = length (scheme @ ''='' @ HexEncode (HmacSHA256 x y))" by simp
    then show False using length_HexEncode [of "HmacSHA256 x y"] length_Sum256 by (simp add: HmacSHA256_def Let_def)
  qed
  then have "\<not> signed_by (WhSecret ?h) (demo_delivery ''sha256=0'')"
    by (auto simp: signed_by_def demo_delivery_def WebhookSignatureHeader_def)
  moreover have "BodyError (ReqBody (demo_delivery sig)) = None" for sig by (simp add: demo_delivery_def)
  ultimately have "\<exists>e. fst (Webhook_ServeHTTP ?h (demo_delivery ''sha256=0'') ?s) = Inl (StatusErr 401 e)"
    using Webhook_replies [OF prod.collapse [symmetric] refl refl, of ?h "demo_delivery ''sha256=0''" ?s, THEN conjunct1] by simp
  moreover have "\<exists>p tag. pushed ?h (demo_delivery demo_sig) p \<and> asks_for p tag \<and> fst (hand_over ?h p tag ?s) = None"
    using Webhook_replies [OF demo_webhook_accepted refl refl, THEN conjunct2, THEN conjunct2, THEN conjunct2,
        THEN conjunct2, THEN conjunct1] by blast
  ultimately show ?thesis by blast
qed

text \<open>C36: the debouncer records a delivery before the command is sent, so a delivery that was
  answered 502 is dropped with 200 when it is repeated within the interval.\<close>

theorem Webhook_failed_send_debounced:
  assumes "WhSender h = SendCommand q sd" "Webhook_ServeHTTP h req s = (Inl (StatusErr StatusBadGateway e), t)"
    "DebounceLast s' = DebounceLast t" "WhClock h (Ext s') - WhClock h (Ext s) < WhInterval h"
  shows "Webhook_ServeHTTP h req s' = (Inr writeWebhookAck, act (IncWebhookSkipped ''debounced'') s')"
proof -
  obtain p where p: "delivered h req p"
    using Webhook_not_delivered [OF assms(2)] by (auto simp: StatusBadGateway_def StatusBadRequest_def StatusUnauthorized_def)
  from trigger.webhook_actions [OF assms(1,2) p] obtain tag u where
    "classify h p s = ((tag, True), u)" "DebounceLast t = DebounceLast u" by auto
  then have "classify h p s' = (('''', False), act (IncWebhookSkipped ''debounced'') s')"
    using classify_again assms(3,4) by metis
  then show ?thesis using p by (auto simp: Webhook_ServeHTTP_def Let_def delivered_def)
qed

definition demo_cqrs_down :: "unit cqrs" where
  "demo_cqrs_down = demo_cqrs\<lparr>NewCommandObjectSender := (\<lambda>prefix obj w. (Some (Errorf ''kafka''), w))\<rparr>"

lemma demo_webhook_refused:
  "\<exists>e t. Webhook_ServeHTTP (demo_hook (demo_sender demo_cqrs_down)) (demo_delivery demo_sig) (initial_sys () empty_fs)
   = (Inl (StatusErr StatusBadGateway e), t) \<and> Ext t = ()"
  using demo_push_delivered [of "demo_sender demo_cqrs_down"]
  by (simp add: Webhook_ServeHTTP_def Let_def delivered_def demo_classify Allow_def)
    (simp add: demo_hook_def demo_sender_def NewTriggerReleaseCheckCommandSender_def SendCommand_def Command_Validate_def demo_cqrs_down_def demo_cqrs_def world_call_def)

theorem Webhook_failed_send_debounced_witness:
  "\<exists>s e t. Webhook_ServeHTTP (demo_hook (demo_sender demo_cqrs_down)) (demo_delivery demo_sig) s
       = (Inl (StatusErr StatusBadGateway e), t)
     \<and> Webhook_ServeHTTP (demo_hook (demo_sender demo_cqrs_down)) (demo_delivery demo_sig) t
       = (Inr writeWebhookAck, act (IncWebhookSkipped ''debounced'') t)"
proof -
  obtain e t where r: "Webhook_ServeHTTP (demo_hook (demo_sender demo_cqrs_down)) (demo_delivery demo_sig)
      (initial_sys () empty_fs) = (Inl (StatusErr StatusBadGateway e), t)"
    using demo_webhook_refused by blast
  have "Webhook_ServeHTTP (demo_hook (demo_sender demo_cqrs_down)) (demo_delivery demo_sig) t
      = (Inr writeWebhookAck, act (IncWebhookSkipped ''debounced'') t)"
    by (rule Webhook_failed_send_debounced [OF _ r]) (simp_all add: demo_hook_def demo_sender_def)
  with r show ?thesis by blast
qed

end
