(* ===== verification/Mem_DB.thy ===== *)
theory Mem_DB
  imports Prelude "HOL-Library.List_Lexorder" "HOL-Library.Char_ord"
begin

text \<open>
  The in-memory key-value store of \<open>pkg/memdb.go\<close>. Go maps are references, and a bucket
  handle keeps the map it was opened on, so the maps live in a heap and a handle is an
  address. \<open>None\<close> as the map of buckets is the nil map that \<open>Close\<close> leaves; writing to it
  panics, and the result of an operation that panicked is \<open>None\<close>.
\<close>

type_synonym addr = nat
type_synonym bucket_map = "string \<rightharpoonup> string"

record memDB =
  buckets :: "(string, addr) fmap option"
  heap :: "addr \<Rightarrow> bucket_map"
  next_addr :: addr

definition NewMemDB :: memDB where
  "NewMemDB = \<lparr>buckets = Some fmempty, heap = (\<lambda>_. Map.empty), next_addr = 0\<rparr>"

definition Close :: "memDB \<Rightarrow> memDB" where
  "Close d = d\<lparr>buckets := None\<rparr>"

text \<open>\<open>Update\<close> and \<open>View\<close> run the function under the lock; nothing is undone on an error.\<close>

definition Update :: "(memDB \<Rightarrow> ('a \<times> memDB) option) \<Rightarrow> memDB \<Rightarrow> ('a \<times> memDB) option" where
  "Update fn d = fn d"

definition lookup_bucket :: "memDB \<Rightarrow> string \<Rightarrow> addr option" where
  "lookup_bucket d name = (case buckets d of None \<Rightarrow> None | Some m \<Rightarrow> fmlookup m name)"

definition Bucket :: "string \<Rightarrow> memDB \<Rightarrow> addr res" where
  "Bucket name d =
     (case buckets d of
        None \<Rightarrow> Inl (Sentinel BucketNotFoundError)
      | Some m \<Rightarrow> (case fmlookup m name of
           None \<Rightarrow> Inl (Sentinel BucketNotFoundError) | Some b \<Rightarrow> Inr b))"

text \<open>Assigning a fresh map to a name.\<close>

definition make_bucket :: "string \<Rightarrow> memDB \<Rightarrow> (addr \<times> memDB) option" where
  "make_bucket name d = (case buckets d of
      None \<Rightarrow> None
    | Some m \<Rightarrow> Some (next_addr d,
        d\<lparr>buckets := Some (fmupd name (next_addr d) m),
          heap := (heap d)(next_addr d := Map.empty), next_addr := next_addr d + 1\<rparr>))"

definition CreateBucket :: "string \<Rightarrow> memDB \<Rightarrow> (addr res \<times> memDB) option" where
  "CreateBucket name d =
     (if lookup_bucket d name \<noteq> None then Some (Inl (Sentinel BucketAlreadyExistsError), d)
      else map_option (\<lambda>(b, d'). (Inr b, d')) (make_bucket name d))"

definition CreateBucketIfNotExists :: "string \<Rightarrow> memDB \<Rightarrow> (addr res \<times> memDB) option" where
  "CreateBucketIfNotExists name d =
     (case lookup_bucket d name of
        Some b \<Rightarrow> Some (Inr b, d)
      | None \<Rightarrow> map_option (\<lambda>(b, d'). (Inr b, d')) (make_bucket name d))"

definition DeleteBucket :: "string \<Rightarrow> memDB \<Rightarrow> memDB" where
  "DeleteBucket name d = d\<lparr>buckets := map_option (fmdrop name) (buckets d)\<rparr>"

definition ListBucketNames :: "memDB \<Rightarrow> string list" where
  "ListBucketNames d = (case buckets d of None \<Rightarrow> [] | Some m \<Rightarrow> sorted_list_of_set (fmdom' m))"

text \<open>The stored value is a copy; copying an empty slice yields a nil one.\<close>

definition Put :: "addr \<Rightarrow> string \<Rightarrow> string \<Rightarrow> memDB \<Rightarrow> memDB" where
  "Put b key v d = d\<lparr>heap := (heap d)(b := (heap d b)(key \<mapsto> v))\<rparr>"

text \<open>The value of the item: nil (\<open>None\<close>) for a missing key and for an empty value.\<close>

definition Get :: "addr \<Rightarrow> string \<Rightarrow> memDB \<Rightarrow> string option" where
  "Get b key d = (case heap d b key of None \<Rightarrow> None | Some v \<Rightarrow> if v = '''' then None else Some v)"

definition Delete :: "addr \<Rightarrow> string \<Rightarrow> memDB \<Rightarrow> memDB" where
  "Delete b key d = d\<lparr>heap := (heap d)(b := (heap d b)(key := None))\<rparr>"

text \<open>\<open>Remove\<close> closes, \<open>Sync\<close> does nothing, the statistics are never written, and an iterator
  is exhausted from the start.\<close>

definition Remove :: "memDB \<Rightarrow> memDB" where
  "Remove d = Close d"

definition Sync :: "memDB \<Rightarrow> memDB" where
  "Sync d = d"

definition Stats :: "memDB \<Rightarrow> nat" where
  "Stats d = 0"

definition Iterator_Valid :: "addr \<Rightarrow> memDB \<Rightarrow> bool" where
  "Iterator_Valid b d = False"

section \<open>Well-formedness\<close>

text \<open>Every bucket's map was allocated, and no two names share one.\<close>

definition db_ok :: "memDB \<Rightarrow> bool" where
  "db_ok d \<longleftrightarrow> (\<forall>m. buckets d = Some m \<longrightarrow>
     (\<forall>n b. fmlookup m n = Some b \<longrightarrow> b < next_addr d)
     \<and> (\<forall>n n' b. fmlookup m n = Some b \<and> fmlookup m n' = Some b \<longrightarrow> n = n'))"

lemma db_ok_New: "db_ok NewMemDB"
  by (simp add: db_ok_def NewMemDB_def)

lemma db_ok_Close: "db_ok (Close d)"
  by (simp add: db_ok_def Close_def)

lemma db_ok_Put: "db_ok d \<Longrightarrow> db_ok (Put b key v d)"
  by (simp add: db_ok_def Put_def)

lemma db_ok_Delete: "db_ok d \<Longrightarrow> db_ok (Delete b key d)"
  by (simp add: db_ok_def Delete_def)

lemma db_ok_DeleteBucket: "db_ok d \<Longrightarrow> db_ok (DeleteBucket name d)"
  by (auto simp: db_ok_def DeleteBucket_def split: if_splits)

lemma db_ok_make: "db_ok d \<Longrightarrow> make_bucket name d = Some (b, d') \<Longrightarrow> db_ok d'"
  by (auto simp: db_ok_def make_bucket_def less_Suc_eq split: option.splits if_splits)
    (metis less_irrefl)+

lemma db_ok_CreateBucket: "db_ok d \<Longrightarrow> CreateBucket name d = Some (r, d') \<Longrightarrow> db_ok d'"
  by (auto simp: CreateBucket_def dest: db_ok_make split: if_splits)

lemma db_ok_CreateBucketIfNotExists:
  "db_ok d \<Longrightarrow> CreateBucketIfNotExists name d = Some (r, d') \<Longrightarrow> db_ok d'"
  by (auto simp: CreateBucketIfNotExists_def dest: db_ok_make split: option.splits)

text \<open>Buckets of different names do not see each other's writes.\<close>

lemma Bucket_iff: "Bucket name d = Inr b \<longleftrightarrow> lookup_bucket d name = Some b"
  by (auto simp: Bucket_def lookup_bucket_def split: option.splits)

lemma Get_Put:
  "Get b' k' (Put b k v d) = (if b' = b \<and> k' = k then (if v = '''' then None else Some v) else Get b' k' d)"
  by (auto simp: Get_def Put_def)

lemma buckets_separate:
  "db_ok d \<Longrightarrow> Bucket n d = Inr b \<Longrightarrow> Bucket n' d = Inr b' \<Longrightarrow> n \<noteq> n' \<Longrightarrow> b \<noteq> b'"
  by (auto simp: Bucket_iff lookup_bucket_def db_ok_def split: option.splits)

section \<open>The store's contract\<close>

text \<open>What the offset store relies on: read your writes, and independence of other keys.\<close>

locale kv_bucket =
  fixes put :: "string \<Rightarrow> string \<Rightarrow> 's \<Rightarrow> 's" and get :: "string \<Rightarrow> 's \<Rightarrow> string option"
    and delete :: "string \<Rightarrow> 's \<Rightarrow> 's"
  assumes get_put_same: "v \<noteq> [] \<Longrightarrow> get k (put k v s) = Some v"
    and get_put_other: "k \<noteq> k' \<Longrightarrow> get k' (put k v s) = get k' s"
    and get_delete_same: "get k (delete k s) = None"
    and get_delete_other: "k \<noteq> k' \<Longrightarrow> get k' (delete k s) = get k' s"
begin

text \<open>A run of writes and deletions is read back as its last effect on the key.\<close>

fun apply_ops :: "(string \<times> string option) list \<Rightarrow> 's \<Rightarrow> 's" where
  "apply_ops [] s = s"
| "apply_ops ((k, None) # ops) s = apply_ops ops (delete k s)"
| "apply_ops ((k, Some v) # ops) s = apply_ops ops (put k v s)"

lemma apply_ops_snoc: "apply_ops (ops @ [(k', v)]) s = (case v of None \<Rightarrow> delete k' (apply_ops ops s)
    | Some x \<Rightarrow> put k' x (apply_ops ops s))"
  by (induction ops s rule: apply_ops.induct) (auto split: option.split)

lemma get_apply_ops:
  "\<forall>(k, v)\<in>set ops. v \<noteq> Some [] \<Longrightarrow>
   get k (apply_ops ops s) = (case map_of (rev ops) k of None \<Rightarrow> get k s | Some v \<Rightarrow> v)"
proof (induction ops arbitrary: s rule: rev_induct)
  case (snoc op ops)
  obtain k' v where op: "op = (k', v)" by fastforce
  show ?case
    using snoc by (cases v; cases "k' = k")
      (auto simp: apply_ops_snoc op get_put_same get_put_other get_delete_same get_delete_other)
qed simp

end

interpretation membucket: kv_bucket "Put b" "Get b" "Delete b" for b
  by unfold_locales (auto simp: Get_def Put_def Delete_def)

section \<open>An abstract store\<close>

text \<open>
  The store a client means: named buckets of key-value pairs, or a closed store. A client
  reaches a bucket by its name inside a transaction; the reply is an error, a value, a list of
  names or nothing.
\<close>

datatype kv_op = OpCreate string | OpEnsure string | OpDrop string | OpList | OpClose
  | OpPut string string string | OpGet string string | OpRemove string string

datatype kv_reply = RErr goerr | RUnit | RValue "string option" | RNames "string list"

type_synonym kv_store = "(string \<rightharpoonup> bucket_map) option"

fun spec_op :: "kv_op \<Rightarrow> kv_store \<Rightarrow> (kv_reply \<times> kv_store) option" where
  "spec_op OpClose st = Some (RUnit, None)"
| "spec_op (OpCreate n) (Some m) = (if m n = None then Some (RUnit, Some (m(n \<mapsto> Map.empty)))
     else Some (RErr (Sentinel BucketAlreadyExistsError), Some m))"
| "spec_op (OpEnsure n) (Some m) =
     Some (RUnit, Some (if m n = None then m(n \<mapsto> Map.empty) else m))"
| "spec_op (OpDrop n) (Some m) = Some (RUnit, Some (m(n := None)))"
| "spec_op OpList (Some m) = Some (RNames (sorted_list_of_set (dom m)), Some m)"
| "spec_op (OpPut n k v) (Some m) = (case m n of
      None \<Rightarrow> Some (RErr (Sentinel BucketNotFoundError), Some m)
    | Some b \<Rightarrow> Some (RUnit, Some (m(n \<mapsto> b(k \<mapsto> v)))))"
| "spec_op (OpGet n k) (Some m) = (case m n of
      None \<Rightarrow> Some (RErr (Sentinel BucketNotFoundError), Some m)
    | Some b \<Rightarrow> Some (RValue (if b k = Some [] then None else b k), Some m))"
| "spec_op (OpRemove n k) (Some m) = (case m n of
      None \<Rightarrow> Some (RErr (Sentinel BucketNotFoundError), Some m)
    | Some b \<Rightarrow> Some (RUnit, Some (m(n \<mapsto> b(k := None)))))"
| "spec_op (OpCreate n) None = None"
| "spec_op (OpEnsure n) None = None"
| "spec_op (OpDrop n) None = Some (RUnit, None)"
| "spec_op OpList None = Some (RNames [], None)"
| "spec_op _ None = Some (RErr (Sentinel BucketNotFoundError), None)"

text \<open>The same operations on the code's store: look the bucket up, then use the handle.\<close>

definition in_bucket :: "string \<Rightarrow> (addr \<Rightarrow> kv_reply \<times> memDB) \<Rightarrow> memDB \<Rightarrow> (kv_reply \<times> memDB) option" where
  "in_bucket n f d = (case Bucket n d of Inl e \<Rightarrow> Some (RErr e, d) | Inr b \<Rightarrow> Some (f b))"

definition bucket_reply :: "(addr res \<times> memDB) option \<Rightarrow> (kv_reply \<times> memDB) option" where
  "bucket_reply r = map_option (\<lambda>(x, d). (case x of Inl e \<Rightarrow> RErr e | Inr b \<Rightarrow> RUnit, d)) r"

fun run_op :: "kv_op \<Rightarrow> memDB \<Rightarrow> (kv_reply \<times> memDB) option" where
  "run_op (OpCreate n) d = Update (\<lambda>d. bucket_reply (CreateBucket n d)) d"
| "run_op (OpEnsure n) d = Update (\<lambda>d. bucket_reply (CreateBucketIfNotExists n d)) d"
| "run_op (OpDrop n) d = Update (\<lambda>d. Some (RUnit, DeleteBucket n d)) d"
| "run_op OpList d = Update (\<lambda>d. Some (RNames (ListBucketNames d), d)) d"
| "run_op OpClose d = Some (RUnit, Close d)"
| "run_op (OpPut n k v) d = Update (in_bucket n (\<lambda>b. (RUnit, Put b k v d))) d"
| "run_op (OpGet n k) d = Update (in_bucket n (\<lambda>b. (RValue (Get b k d), d))) d"
| "run_op (OpRemove n k) d = Update (in_bucket n (\<lambda>b. (RUnit, Delete b k d))) d"

definition store_of :: "memDB \<Rightarrow> kv_store" where
  "store_of d = map_option (\<lambda>m n. map_option (heap d) (fmlookup m n)) (buckets d)"

lemma store_of_Some: "buckets d = Some m \<Longrightarrow> store_of d = Some (\<lambda>n. map_option (heap d) (fmlookup m n))"
  by (simp add: store_of_def)

lemma bucket_reply_Some: "bucket_reply r = Some (x, d') \<Longrightarrow> \<exists>y. r = Some (y, d')"
  by (auto simp: bucket_reply_def)

lemma db_ok_run: "db_ok d \<Longrightarrow> run_op op d = Some (r, d') \<Longrightarrow> db_ok d'"
  by (cases op) (auto simp: Update_def in_bucket_def db_ok_Put db_ok_Delete
      db_ok_DeleteBucket db_ok_Close split: sum.splits
      dest!: bucket_reply_Some dest: db_ok_CreateBucket db_ok_CreateBucketIfNotExists)

lemma store_of_heap_upd:
  assumes "db_ok d" "buckets d = Some m" "fmlookup m n = Some b"
  shows "store_of (d\<lparr>heap := (heap d)(b := x)\<rparr>) = Some ((\<lambda>n. map_option (heap d) (fmlookup m n))(n \<mapsto> x))"
proof -
  have "map_option ((heap d)(b := x)) (fmlookup m n') =
      ((\<lambda>n. map_option (heap d) (fmlookup m n))(n \<mapsto> x)) n'" for n'
  proof (cases "n' = n")
    case False
    then have "fmlookup m n' \<noteq> Some b" using assms unfolding db_ok_def by blast
    with False show ?thesis by (cases "fmlookup m n'") auto
  qed (simp add: assms)
  then show ?thesis using assms(2) by (auto simp: store_of_def)
qed

lemma store_of_make:
  assumes "db_ok d" "buckets d = Some m" "make_bucket n d = Some (b, d')"
  shows "store_of d' = Some ((\<lambda>n. map_option (heap d) (fmlookup m n))(n \<mapsto> Map.empty))"
proof -
  have "fmlookup m n' \<noteq> Some (next_addr d)" for n'
    using assms(1,2) unfolding db_ok_def by fastforce
  then have "map_option ((heap d)(next_addr d := Map.empty)) (fmlookup m n') =
      map_option (heap d) (fmlookup m n')" for n'
    by (cases "fmlookup m n'") auto
  then show ?thesis using assms(2,3) by (auto simp: make_bucket_def store_of_def fun_eq_iff)
qed

lemma run_op_bucket:
  assumes ok: "db_ok d" and m: "buckets d = Some m" and b: "fmlookup m n = Some b"
  shows "store_of (Put b k v d) = Some ((\<lambda>n. map_option (heap d) (fmlookup m n))(n \<mapsto> (heap d b)(k \<mapsto> v)))"
    "store_of (Delete b k d) = Some ((\<lambda>n. map_option (heap d) (fmlookup m n))(n \<mapsto> (heap d b)(k := None)))"
  using store_of_heap_upd [OF ok m b] by (simp_all add: Put_def Delete_def)

lemma run_op_closed:
  assumes "buckets d = None"
  shows "map_option (\<lambda>(r, d'). (r, store_of d')) (run_op op d) = spec_op op (store_of d)"
  using assms by (cases op) (auto simp: store_of_def Update_def in_bucket_def bucket_reply_def Bucket_def
      CreateBucket_def CreateBucketIfNotExists_def lookup_bucket_def make_bucket_def DeleteBucket_def
      ListBucketNames_def Close_def)

section \<open>Properties\<close>

text \<open>C19: the store implements the abstract one: every operation of a client answers the same
  and moves the named buckets the same way, shared Go maps and handles notwithstanding; on a
  closed store reads find nothing, a drop succeeds, and creating a bucket panics (no result).\<close>

theorem run_op_refines:
  assumes "db_ok d"
  shows "map_option (\<lambda>(r, d'). (r, store_of d')) (run_op op d) = spec_op op (store_of d)"
proof (cases "buckets d")
  case None
  then show ?thesis by (rule run_op_closed)
next
  case (Some m)
  have dom: "dom (\<lambda>n. map_option (heap d) (fmlookup m n)) = fmdom' m"
    by (auto simp: fmlookup_dom'_iff)
  obtain b d1 where mk: "make_bucket n d = Some (b n, d1 n)" for n
    using Some by (auto simp: make_bucket_def)
  note make = store_of_make [OF assms Some mk]
  show ?thesis
  proof (cases op)
    case (OpCreate n)
    then show ?thesis using make [of n]
      by (cases "fmlookup m n") (simp_all add: store_of_Some [OF Some] Update_def bucket_reply_def
          CreateBucket_def lookup_bucket_def Some mk)
  next
    case (OpEnsure n)
    then show ?thesis using make [of n]
      by (cases "fmlookup m n") (simp_all add: store_of_Some [OF Some] Update_def bucket_reply_def
          CreateBucketIfNotExists_def lookup_bucket_def Some mk)
  next
    case (OpDrop n)
    then show ?thesis
      by (auto simp: store_of_def Update_def DeleteBucket_def Some fun_eq_iff)
  next
    case (OpPut n k v)
    then show ?thesis using run_op_bucket [OF assms Some, of n]
      by (cases "fmlookup m n") (auto simp: store_of_Some [OF Some] Update_def in_bucket_def Bucket_def Some)
  next
    case (OpRemove n k)
    then show ?thesis using run_op_bucket [OF assms Some, of n]
      by (cases "fmlookup m n") (auto simp: store_of_Some [OF Some] Update_def in_bucket_def Bucket_def Some)
  next
    case (OpGet n k)
    then show ?thesis
      by (cases "fmlookup m n") (auto simp: store_of_Some [OF Some] Update_def in_bucket_def Bucket_def
          Get_def Some split: option.split)
  next
    case OpList
    then show ?thesis by (simp add: store_of_Some [OF Some] Update_def ListBucketNames_def Some dom)
  next
    case OpClose
    then show ?thesis by (simp add: store_of_def Close_def)
  qed
qed

theorem run_op_refines_witness:
  "map_option (\<lambda>(r, d'). (r, store_of d')) (run_op (OpCreate ''offsets'') NewMemDB)
     = Some (RUnit, Some [''offsets'' \<mapsto> Map.empty])"
  by (subst run_op_refines [OF db_ok_New]) (simp add: store_of_def NewMemDB_def)

end
