(* ===== verification/Metrics.thy ===== *)
theory Metrics
  imports Process
begin

text \<open>
  The collectors of \<open>pkg/metrics.go\<close>: a counter vector is a map from label values to counts,
  where a label value exists from the first \<open>WithLabelValues\<close> on; the latency histogram is
  the list of its observations. Every metric action of the process is replayed on them by the
  method of the same name.
\<close>

type_synonym counter_vec = "string \<rightharpoonup> nat"

record prometheusMetrics =
  pollCycleTotal :: counter_vec
  publishedTotal :: counter_vec
  reposScannedTotal :: nat
  filterSkippedTotal :: counter_vec
  webhookDeliveriesTotal :: counter_vec
  webhookSignatureRejectionsTotal :: nat
  webhookDispatchLatency :: "int list"
  webhookSkippedTotal :: counter_vec
  buildDispatchedTotal :: counter_vec
  rateLimitRemaining :: int

definition newPrometheusMetrics :: prometheusMetrics where
  "newPrometheusMetrics = \<lparr>pollCycleTotal = Map.empty, publishedTotal = Map.empty, reposScannedTotal = 0,
     filterSkippedTotal = Map.empty, webhookDeliveriesTotal = Map.empty,
     webhookSignatureRejectionsTotal = 0, webhookDispatchLatency = [],
     webhookSkippedTotal = Map.empty, buildDispatchedTotal = Map.empty, rateLimitRemaining = 0\<rparr>"

text \<open>\<open>WithLabelValues(l).Add(n)\<close>.\<close>

definition add_label :: "string \<Rightarrow> nat \<Rightarrow> counter_vec \<Rightarrow> counter_vec" where
  "add_label l n v = v(l \<mapsto> (case v l of None \<Rightarrow> n | Some k \<Rightarrow> k + n))"

definition add_labels :: "string list \<Rightarrow> counter_vec \<Rightarrow> counter_vec" where
  "add_labels ls v = foldl (\<lambda>v l. add_label l 0 v) v ls"

definition preInitialise :: "prometheusMetrics \<Rightarrow> prometheusMetrics" where
  "preInitialise m = m\<lparr>
     pollCycleTotal := add_labels [''success'', ''rate_limited'', ''github_error'', ''quota_low'']
       (pollCycleTotal m),
     publishedTotal := add_labels [''create'', ''error''] (publishedTotal m),
     filterSkippedTotal := add_labels [''empty_unreleased'', ''auto_release'', ''sha_unchanged'', ''scope'',
       ''fork'', ''image_exists'', ''registry_unreachable''] (filterSkippedTotal m),
     buildDispatchedTotal := add_labels [''created'', ''exists'', ''skipped'', ''error'']
       (buildDispatchedTotal m),
     webhookDeliveriesTotal := add_labels [''success'', ''skip''] (webhookDeliveriesTotal m),
     webhookSkippedTotal := add_labels [''no_release_files'', ''debounced''] (webhookSkippedTotal m)\<rparr>"

definition NewMetrics :: prometheusMetrics where
  "NewMetrics = preInitialise newPrometheusMetrics"

text \<open>The methods, selected by the action that calls them; messages are not counted.\<close>

fun observe_action :: "action \<Rightarrow> prometheusMetrics \<Rightarrow> prometheusMetrics" where
  "observe_action (IncPollCycle result) m = m\<lparr>pollCycleTotal := add_label result 1 (pollCycleTotal m)\<rparr>"
| "observe_action (IncPublished status) m = m\<lparr>publishedTotal := add_label status 1 (publishedTotal m)\<rparr>"
| "observe_action (IncReposScanned n) m = m\<lparr>reposScannedTotal := reposScannedTotal m + n\<rparr>"
| "observe_action (IncFilterSkipped reason) m =
     m\<lparr>filterSkippedTotal := add_label reason 1 (filterSkippedTotal m)\<rparr>"
| "observe_action (IncBuildDispatched result) m =
     m\<lparr>buildDispatchedTotal := add_label result 1 (buildDispatchedTotal m)\<rparr>"
| "observe_action (IncWebhookDelivery result) m =
     m\<lparr>webhookDeliveriesTotal := add_label result 1 (webhookDeliveriesTotal m)\<rparr>"
| "observe_action IncWebhookSignatureRejected m =
     m\<lparr>webhookSignatureRejectionsTotal := webhookSignatureRejectionsTotal m + 1\<rparr>"
| "observe_action (IncWebhookSkipped reason) m =
     m\<lparr>webhookSkippedTotal := add_label reason 1 (webhookSkippedTotal m)\<rparr>"
| "observe_action (SetRateLimitRemaining remaining) m = m\<lparr>rateLimitRemaining := remaining\<rparr>"
| "observe_action (ObserveWebhookDispatchLatency d) m =
     m\<lparr>webhookDispatchLatency := webhookDispatchLatency m @ [d]\<rparr>"
| "observe_action (SendCreate cmd ok) m = m"
| "observe_action (SendTrigger cmd ok) m = m"
| "observe_action (CreateJob job) m = m"

text \<open>What the registry shows after a run of the process.\<close>

definition exported :: "'w sys \<Rightarrow> prometheusMetrics" where
  "exported s = foldl (\<lambda>m a. observe_action a m) NewMetrics (Acts s)"

section \<open>Facts\<close>

text \<open>The series that exist, and the actions whose label is one of those created at start.\<close>

definition series :: "prometheusMetrics \<Rightarrow> string set list" where
  "series m = map dom [pollCycleTotal m, publishedTotal m, filterSkippedTotal m,
     webhookDeliveriesTotal m, webhookSkippedTotal m, buildDispatchedTotal m]"

fun initialised :: "action \<Rightarrow> bool" where
  "initialised (IncPollCycle r) = (r \<in> {''success'', ''rate_limited'', ''github_error'', ''quota_low''})"
| "initialised (IncPublished r) = (r \<in> {''create'', ''error''})"
| "initialised (IncFilterSkipped r) = (r \<in> {''empty_unreleased'', ''auto_release'', ''sha_unchanged'', ''scope'',
     ''fork'', ''image_exists'', ''registry_unreachable''})"
| "initialised (IncBuildDispatched r) = (r \<in> {''created'', ''exists'', ''skipped'', ''error''})"
| "initialised (IncWebhookDelivery r) = (r \<in> {''success'', ''skip''})"
| "initialised (IncWebhookSkipped r) = (r \<in> {''no_release_files'', ''debounced''})"
| "initialised _ = True"

lemma dom_add_label [simp]: "dom (add_label l n v) = insert l (dom v)"
  by (auto simp: add_label_def)

lemma dom_add_labels [simp]: "dom (add_labels ls v) = set ls \<union> dom v"
  by (induction ls arbitrary: v) (auto simp: add_labels_def)

lemma add_label_apply: "add_label l n v k = (if k = l then Some (n + (case v l of None \<Rightarrow> 0 | Some j \<Rightarrow> j)) else v k)"
  by (simp add: add_label_def split: option.split)

lemma exported_append:
  "Acts t = Acts s @ as \<Longrightarrow> exported t = foldl (\<lambda>m a. observe_action a m) (exported s) as"
  by (simp add: exported_def)

lemma series_New: "series NewMetrics =
  [{''success'', ''rate_limited'', ''github_error'', ''quota_low''}, {''create'', ''error''},
   {''empty_unreleased'', ''auto_release'', ''sha_unchanged'', ''scope'', ''fork'', ''image_exists'',
    ''registry_unreachable''}, {''success'', ''skip''}, {''no_release_files'', ''debounced''},
   {''created'', ''exists'', ''skipped'', ''error''}]"
  by (simp add: series_def NewMetrics_def preInitialise_def newPrometheusMetrics_def)

lemma series_observe: "series m = series NewMetrics \<Longrightarrow> initialised a \<Longrightarrow> series (observe_action a m) = series m"
  unfolding series_New unfolding series_def by (cases a) (simp_all add: insert_absorb)

lemma series_closed:
  assumes "series (exported s) = series NewMetrics" "Acts t = Acts s @ as" "list_all initialised as"
  shows "series (exported t) = series NewMetrics"
proof -
  have "series (foldl (\<lambda>m a. observe_action a m) m as) = series NewMetrics"
    if "series m = series NewMetrics" "list_all initialised as" for m as
    using that by (induction as arbitrary: m) (simp_all add: series_observe)
  then show ?thesis using assms by (simp add: exported_append)
qed

text \<open>A counter is the number of actions with its label.\<close>

lemma pollCycleTotal_foldl:
  "v = pollCycleTotal (foldl (\<lambda>m a. observe_action a m) m as) r \<Longrightarrow>
   (case v of None \<Rightarrow> 0 | Some n \<Rightarrow> n) =
     (case pollCycleTotal m r of None \<Rightarrow> 0 | Some n \<Rightarrow> n) + length (filter ((=) (IncPollCycle r)) as)"
proof (induction as arbitrary: m v)
  case (Cons a as)
  have "(case pollCycleTotal (observe_action a m) r of None \<Rightarrow> 0 | Some n \<Rightarrow> n) =
      (case pollCycleTotal m r of None \<Rightarrow> 0 | Some n \<Rightarrow> n) + (if a = IncPollCycle r then 1 else 0)"
    by (cases a) (auto simp: add_label_apply split: option.split)
  then show ?case using Cons.IH [of v "observe_action a m"] Cons.prems by auto
qed auto

end
