(* ===== verification/Go_Duration.thy ===== *)
theory Go_Duration
  imports Go_Strings
begin

text \<open>
  \<open>time.ParseDuration\<close>, which the flags of the programs go through: a signed sequence of
  decimal numbers with units, in nanoseconds, with the overflow checks of the package on its
  64-bit accumulator. The one floating point expression, \<open>f * (unit / scale)\<close> truncated to an
  integer, is a parameter.
\<close>

type_synonym float_fraction = "nat \<Rightarrow> nat \<Rightarrow> nat \<Rightarrow> nat"

definition digit_value :: "char \<Rightarrow> nat" where
  "digit_value c = of_char c - 48"

fun leadingInt :: "string \<Rightarrow> nat \<Rightarrow> (nat \<times> string) option" where
  "leadingInt [] x = Some (x, [])"
| "leadingInt (c # cs) x =
     (if \<not> is_digit c then Some (x, c # cs)
      else if 2 ^ 63 div 10 < x then None
      else if 2 ^ 63 < x * 10 + digit_value c then None
      else leadingInt cs (x * 10 + digit_value c))"

text \<open>Digits that no longer fit are skipped.\<close>

fun leadingFraction :: "string \<Rightarrow> nat \<Rightarrow> nat \<Rightarrow> bool \<Rightarrow> nat \<times> nat \<times> string" where
  "leadingFraction [] x scale overflow = (x, scale, [])"
| "leadingFraction (c # cs) x scale overflow =
     (if \<not> is_digit c then (x, scale, c # cs)
      else if overflow \<or> (2 ^ 63 - 1) div 10 < x \<or> 2 ^ 63 < x * 10 + digit_value c
        then leadingFraction cs x scale True
      else leadingFraction cs (x * 10 + digit_value c) (scale * 10) False)"

definition unit_of :: "string \<Rightarrow> nat option" where
  "unit_of u = map_of [(''ns'', 1), (''us'', 1000), ([CHR 0xC2, CHR 0xB5, CHR ''s''], 1000),
     ([CHR 0xCE, CHR 0xBC, CHR ''s''], 1000), (''ms'', 1000000), (''s'', 1000000000),
     (''m'', 60000000000), (''h'', 3600000000000)] u"

definition in_unit :: "char \<Rightarrow> bool" where
  "in_unit c \<longleftrightarrow> c \<noteq> CHR ''.'' \<and> \<not> is_digit c"

text \<open>One number with its unit: its value and what follows it.\<close>

definition duration_part :: "float_fraction \<Rightarrow> string \<Rightarrow> (nat \<times> string) option" where
  "duration_part float s =
     (if \<not> (hd s = CHR ''.'' \<or> is_digit (hd s)) then None
      else (case leadingInt s 0 of None \<Rightarrow> None
        | Some (v, s1) \<Rightarrow>
            (let pre = length s1 \<noteq> length s; dot = (s1 \<noteq> [] \<and> hd s1 = CHR ''.'');
                 (f, scale, s2) = (if dot then leadingFraction (tl s1) 0 1 False else (0, 1, s1));
                 post = (dot \<and> length s2 \<noteq> length (tl s1));
                 u = takeWhile in_unit s2
             in if \<not> pre \<and> \<not> post then None
                else if u = [] then None
                else (case unit_of u of None \<Rightarrow> None
                  | Some unit \<Rightarrow>
                      (if 2 ^ 63 div unit < v then None
                       else (let w = v * unit + (if 0 < f then float f unit scale else 0)
                             in if 0 < f \<and> 2 ^ 63 < w then None else Some (w, dropWhile in_unit s2)))))))"

lemma leadingInt_length: "leadingInt s x = Some (v, r) \<Longrightarrow> length r \<le> length s"
  by (induction s x arbitrary: v r rule: leadingInt.induct) (auto split: if_splits dest: le_SucI)

lemma leadingFraction_length: "leadingFraction s x sc ov = (f, scale, r) \<Longrightarrow> length r \<le> length s"
  by (induction s x sc ov rule: leadingFraction.induct) (auto split: if_splits)

lemma duration_part_length: "duration_part float s = Some (v, r) \<Longrightarrow> s \<noteq> [] \<Longrightarrow> length r < length s"
proof -
  assume part: "duration_part float s = Some (v, r)" and "s \<noteq> []"
  obtain x s1 where s1: "leadingInt s 0 = Some (x, s1)"
    using part by (auto simp: duration_part_def split: if_splits option.splits)
  define dot where "dot = (s1 \<noteq> [] \<and> hd s1 = CHR ''.'')"
  obtain f scale s2 where s2: "(if dot then leadingFraction (tl s1) 0 1 False else (0, 1, s1)) = (f, scale, s2)"
    by (metis prod_cases3)
  have "r = dropWhile in_unit s2 \<and> takeWhile in_unit s2 \<noteq> []"
    using part s1 s2 by (auto simp: duration_part_def dot_def Let_def split: if_splits option.splits)
  moreover have "length s2 \<le> length s1"
    using s2 leadingFraction_length [of "tl s1"] by (auto split: if_splits) (metis diff_le_self length_tl order_trans)
  moreover have "length s1 \<le> length s" by (rule leadingInt_length [OF s1])
  moreover have "length (takeWhile in_unit s2) + length (dropWhile in_unit s2) = length s2"
    by (metis length_append takeWhile_dropWhile_id)
  ultimately show ?thesis by (cases "takeWhile in_unit s2") auto
qed

function parse_parts :: "float_fraction \<Rightarrow> string \<Rightarrow> nat \<Rightarrow> nat option" where
  "parse_parts float s d =
     (if s = [] then Some d
      else (case duration_part float s of None \<Rightarrow> None
        | Some (v, r) \<Rightarrow>
            (let e = (d + v) mod 2 ^ 64 in if 2 ^ 63 < e then None else parse_parts float r e)))"
  by auto
termination
  by (relation "measure (\<lambda>(_, s, _). length s)") (auto dest: duration_part_length)

declare parse_parts.simps [simp del]

definition ParseDuration :: "float_fraction \<Rightarrow> string \<Rightarrow> int res" where
  "ParseDuration float orig =
     (let neg = (orig \<noteq> [] \<and> hd orig = CHR ''-'');
          s = (if orig \<noteq> [] \<and> hd orig \<in> {CHR ''-'', CHR ''+''} then tl orig else orig);
          invalid = Inl (Foreign ''time: invalid duration'')
      in if s = ''0'' then Inr 0
         else if s = [] then invalid
         else (case parse_parts float s 0 of
             None \<Rightarrow> invalid
           | Some d \<Rightarrow> if neg then Inr (- int d) else if 2 ^ 63 - 1 < d then invalid else Inr (int d)))"

lemma parse_parts_bound: "d \<le> 2 ^ 63 \<Longrightarrow> parse_parts float s d = Some e \<Longrightarrow> e \<le> 2 ^ 63"
proof (induction float s d rule: parse_parts.induct)
  case (1 float s d)
  show ?case
  proof (cases "s = []")
    case True
    then show ?thesis using 1 by (simp add: parse_parts.simps)
  next
    case False
    then obtain v r where "duration_part float s = Some (v, r)" "\<not> 2 ^ 63 < (d + v) mod 2 ^ 64"
      "parse_parts float r ((d + v) mod 2 ^ 64) = Some e"
      using 1(3) by (subst (asm) parse_parts.simps) (auto simp: Let_def split: option.splits if_splits)
    then show ?thesis using 1(1) [OF False] by simp
  qed
qed

lemma ParseDuration_range: "ParseDuration float s = Inr d \<Longrightarrow> - (2 ^ 63) \<le> d \<and> d < 2 ^ 63"
  using parse_parts_bound [of 0]
  by (auto simp: ParseDuration_def Let_def split: if_splits option.splits)

lemma ParseDuration_defaults: "ParseDuration float ''10m'' = Inr 600000000000" "ParseDuration float ''1m'' = Inr 60000000000"
  by (simp_all add: ParseDuration_def parse_parts.simps [of float] duration_part_def is_digit_def digit_value_def
      in_unit_def unit_of_def)

end
