(* ===== verification/Factory.thy ===== *)
theory Factory
  imports Watcher Webhook Mem_DB Metrics Go_Duration
begin

text \<open>
  The composition: \<open>pkg/factory\<close>, the credentials check of \<open>pkg/auth\<close>, the command executor
  of \<open>pkg/command\<close>, and the two programs (\<open>main.go\<close>,
  \<open>cmd/run-once\<close>). The third-party packages and services are bundled in the record
  \<open>platform\<close>, the flags in the records \<open>application\<close> and \<open>Application\<close>.
\<close>

section \<open>Credentials\<close>

record AuthCredentials =
  AppID :: int
  InstallationID :: int
  PEMKey :: string

definition ResolveGitHubClient :: "(AuthCredentials \<Rightarrow> 'c res) \<Rightarrow> AuthCredentials \<Rightarrow> 'c res" where
  "ResolveGitHubClient newClient creds =
     (let appPartial = (AppID creds \<noteq> 0 \<or> InstallationID creds \<noteq> 0 \<or> length (PEMKey creds) \<noteq> 0);
          appComplete = (AppID creds \<noteq> 0 \<and> InstallationID creds \<noteq> 0 \<and> length (PEMKey creds) \<noteq> 0)
      in if appPartial \<and> \<not> appComplete then
           Inl (Errorf (''watcher auth: partial GitHub App config, missing '' @ Join
             ((if AppID creds = 0 then [''APP_ID''] else [])
              @ (if InstallationID creds = 0 then [''INSTALLATION_ID''] else [])
              @ (if length (PEMKey creds) = 0 then [''PEM_KEY''] else [])) '' ''))
         else if appComplete then
           (case newClient creds of
              Inl e \<Rightarrow> Inl (Wrapf ''create github app client'' e) | Inr c \<Rightarrow> Inr c)
         else Inl (Errorf ''watcher auth: GitHub App credentials not configured''))"

section \<open>The platform\<close>

record 'w platform =
  NewGithubApp :: "AuthCredentials \<Rightarrow> 'w gogithub res"
  NewSyncProducer :: "string \<Rightarrow> string \<Rightarrow> 'w \<Rightarrow> goerr option \<times> 'w"
  CreateClientset :: "'w \<Rightarrow> 'w cluster res \<times> 'w"
  NewSHA1 :: "string \<Rightarrow> string \<Rightarrow> string"
  NewCreateCommandSender :: "'w CommandObjectSender \<Rightarrow> string \<Rightarrow> 'w CreateCommandSender"
  Cqrs :: "'w cqrs"
  BuildEnv :: "'w build_env"
  BuildYaml :: "string \<Rightarrow> DockerBuildConfig res"
  RegistryHttp :: "'w http_client"
  IsAllowed :: "string list \<Rightarrow> string \<Rightarrow> bool"
  ParseBoolDefault :: "string \<Rightarrow> bool \<Rightarrow> bool"
  Clock :: "'w \<Rightarrow> int"
  FloatFraction :: float_fraction

record application =
  AppListen :: string
  AppStage :: string
  AppTargetVault :: string
  AppOwner :: string
  AppRepoAllowlist :: string
  AppPollInterval :: string
  AppCursorPath :: string
  AppKafkaBrokers :: string
  AppCredentials :: AuthCredentials
  AppTopicPrefix :: string
  AppWebhookSecret :: string
  AppWebhookMinInterval :: string
  AppQuotaMinRemaining :: int

section \<open>Composition\<close>

definition CreateKafkaSender :: "'w platform \<Rightarrow> string \<Rightarrow> 'w CreateCommandSender" where
  "CreateKafkaSender p topicPrefix =
     NewCreateCommandSender p (NewCommandObjectSender (Cqrs p) topicPrefix) ''''"

definition CreateTriggerReleaseCheckCommandSender :: "'w cqrs \<Rightarrow> string \<Rightarrow> 'w triggerReleaseCheckCommandSender" where
  "CreateTriggerReleaseCheckCommandSender q topicPrefix =
     NewTriggerReleaseCheckCommandSender (NewCommandCreator q) ''watcher-github-release''
       (NewCommandObjectSender q topicPrefix)"

text \<open>The trigger handler's only collaborator is the sender; package \<open>libparse\<close> is a parameter.\<close>

definition CreateTriggerReleaseCheckHandler ::
    "(string \<Rightarrow> bool \<Rightarrow> bool) \<Rightarrow> 'w TriggerSender \<Rightarrow> request \<Rightarrow> 'w sys \<Rightarrow> reply res \<times> 'w sys" where
  "CreateTriggerReleaseCheckHandler parseBoolDefault sender = Trigger_ServeHTTP parseBoolDefault sender"

definition CreateWatcher ::
    "(string \<Rightarrow> string \<Rightarrow> string) \<Rightarrow> 'w GitHubClient \<Rightarrow> 'w CreateCommandSender \<Rightarrow> string \<Rightarrow> string
       \<Rightarrow> filter \<Rightarrow> string \<Rightarrow> string \<Rightarrow> int \<Rightarrow> 'w Dispatcher option \<Rightarrow> 'w watcher" where
  "CreateWatcher newSHA1 gh sender cursorPath own flt stage targetVault quotaMin dispatcher =
     NewWatcher gh (PublishCreate newSHA1 sender \<lparr>Stage = stage, TargetVault = targetVault\<rparr>)
       cursorPath own flt quotaMin (Some (NewTagBackstop gh dispatcher))"

definition CreateWebhookHandler ::
    "'w TriggerSender \<Rightarrow> string \<Rightarrow> ('w \<Rightarrow> int) \<Rightarrow> int \<Rightarrow> 'w webhookHandler" where
  "CreateWebhookHandler sender secret clock minInterval = NewWebhookHandler sender secret clock minInterval"

definition app_dispatcher :: "'w platform \<Rightarrow> 'w gogithub \<Rightarrow> 'w cluster \<Rightarrow> 'w Dispatcher" where
  "app_dispatcher p api cl =
     CreateBuildDispatcher (BuildEnv p) (BuildYaml p) (RegistryHttp p) (NewGitHubClient api) cl"

definition app_watcher ::
    "'w platform \<Rightarrow> application \<Rightarrow> 'w gogithub \<Rightarrow> 'w Dispatcher option \<Rightarrow> 'w watcher" where
  "app_watcher p a api dispatcher =
     CreateWatcher (NewSHA1 p) (NewGitHubClient api) (CreateKafkaSender p (AppTopicPrefix a)) (AppCursorPath a) (AppOwner a)
       (CreateStaticFilters (IsAllowed p) (ParseRepoAllowlist (AppRepoAllowlist a)))
       (AppStage a) (AppTargetVault a) (AppQuotaMinRemaining a) dispatcher"

definition app_command :: "'w platform \<Rightarrow> application \<Rightarrow> Release \<Rightarrow> CreateCommand" where
  "app_command p a release =
     BuildCreateCommand (NewSHA1 p) release \<lparr>Stage = AppStage a, TargetVault = AppTargetVault a\<rparr>"

section \<open>The executor\<close>

definition runTriggerReleaseCheck ::
    "'w cqrs \<Rightarrow> 'w watcher \<Rightarrow> 'w Dispatcher \<Rightarrow> 'w ctx \<Rightarrow> CommandObject \<Rightarrow> 'w sys
       \<Rightarrow> (poll_result \<times> 'w sys) option" where
  "runTriggerReleaseCheck q w dispatch ctx obj s =
     (case unmarshalAndValidate q obj of
        Inl e \<Rightarrow> Some (PollErr e, s)
      | Inr cmd \<Rightarrow>
          (case (if Tag cmd \<noteq> '''' then dispatch \<lparr>ReqRepo = Scope cmd, ReqTag = Tag cmd\<rparr> TriggerWebhook s
                 else (None, s)) of
             (Some e, t) \<Rightarrow> Some (PollErr (Wrapf (''dispatch build repo='' @ Scope cmd
                               @ '' tag='' @ Tag cmd) e), t)
           | (None, t) \<Rightarrow>
               (case Poll w ctx (Force cmd) (Scope cmd) t of
                  None \<Rightarrow> None
                | Some (PollErr e, u) \<Rightarrow>
                    Some (PollErr (Wrapf (''poll cycle from trigger scope='' @ Scope cmd
                       @ '' force='' @ FormatBool (Force cmd)) e), u)
                | Some (r, u) \<Rightarrow> Some (r, u))))"

text \<open>
  The executor as the consumer of package cdb takes it, and what the consumer is created with;
  the consumer itself (topics, offsets, transactions) is code of that package.
\<close>

record 'w CommandObjectExecutorTx =
  ExecOperation :: string
  SendResultEnabled :: bool
  HandleCommand :: "'w ctx \<Rightarrow> CommandObject \<Rightarrow> 'w sys \<Rightarrow> (poll_result \<times> 'w sys) option"

definition NewTriggerReleaseCheckCommandExecutor ::
    "'w cqrs \<Rightarrow> 'w watcher \<Rightarrow> 'w Dispatcher \<Rightarrow> 'w CommandObjectExecutorTx" where
  "NewTriggerReleaseCheckCommandExecutor q w dispatch =
     \<lparr>ExecOperation = TriggerReleaseCheckCommandOperation, SendResultEnabled = False,
      HandleCommand = runTriggerReleaseCheck q w dispatch\<rparr>"

record 'w consumer =
  ConsumerSchemaID :: string
  ConsumerTopicPrefix :: string
  IgnoreUnsupported :: bool
  Executors :: "'w CommandObjectExecutorTx list"

definition CreateCommandConsumer :: "'w cqrs \<Rightarrow> 'w watcher \<Rightarrow> 'w Dispatcher \<Rightarrow> string \<Rightarrow> 'w consumer" where
  "CreateCommandConsumer q w dispatch topicPrefix =
     \<lparr>ConsumerSchemaID = GithubReleaserV1SchemaID q, ConsumerTopicPrefix = topicPrefix,
      IgnoreUnsupported = False, Executors = [NewTriggerReleaseCheckCommandExecutor q w dispatch]\<rparr>"

section \<open>The poll loop\<close>

text \<open>
  What the loop waits for: a tick, with what happened to the process in between, or the end
  of the context. After the last event of the list the loop is still waiting (\<open>None\<close>).
\<close>

datatype 'w loop_event = Tick "'w sys \<Rightarrow> 'w sys" | CtxDone goerr

datatype loop_result = Waiting | LoopReturned goerr | LoopPanicked

fun pollLoop_from ::
    "('w sys \<Rightarrow> (poll_result \<times> 'w sys) option) \<Rightarrow> 'w loop_event list \<Rightarrow> 'w sys
       \<Rightarrow> (loop_result \<times> 'w sys) option" where
  "pollLoop_from poll [] s = Some (Waiting, s)"
| "pollLoop_from poll (CtxDone e # es) s = Some (LoopReturned e, s)"
| "pollLoop_from poll (Tick f # es) s =
     (case poll (f s) of
        None \<Rightarrow> None
      | Some (PollPanic, t) \<Rightarrow> Some (LoopPanicked, t)
      | Some (_, t) \<Rightarrow> pollLoop_from poll es t)"

text \<open>\<open>time.NewTicker\<close> panics on an interval that is not positive, before the first cycle.\<close>

definition pollLoop ::
    "('w sys \<Rightarrow> (poll_result \<times> 'w sys) option) \<Rightarrow> int \<Rightarrow> 'w loop_event list \<Rightarrow> 'w sys
       \<Rightarrow> (loop_result \<times> 'w sys) option" where
  "pollLoop poll interval es s =
     (if interval \<le> 0 then Some (LoopPanicked, s) else pollLoop_from poll (Tick id # es) s)"

section \<open>The programs\<close>

text \<open>What \<open>application.Run\<close> hands to the service runner once everything was created.\<close>

record 'w service =
  PollLoop :: "'w ctx \<Rightarrow> 'w loop_event list \<Rightarrow> 'w sys \<Rightarrow> (loop_result \<times> 'w sys) option"
  TriggerEndpoint :: "request \<Rightarrow> 'w sys \<Rightarrow> reply res \<times> 'w sys"
  WebhookEndpoint :: "request \<Rightarrow> 'w sys \<Rightarrow> reply res \<times> 'w sys"
  ResetEndpoint :: "string \<Rightarrow> 'w sys \<Rightarrow> string res \<times> 'w sys"
  SetEndpoint :: "string \<Rightarrow> string \<Rightarrow> 'w sys \<Rightarrow> string res \<times> 'w sys"
  CommandConsumer :: "'w consumer"

definition app_service ::
    "'w platform \<Rightarrow> application \<Rightarrow> 'w gogithub \<Rightarrow> 'w cluster \<Rightarrow> int \<Rightarrow> int \<Rightarrow> 'w service" where
  "app_service p a api cl pollInterval webhookMinInterval =
     (let dispatcher = app_dispatcher p api cl; w = app_watcher p a api (Some dispatcher);
          sender = SendCommand (Cqrs p) (CreateTriggerReleaseCheckCommandSender (Cqrs p) (AppTopicPrefix a))
      in \<lparr>PollLoop = (\<lambda>ctx. pollLoop (Poll w ctx False '''') pollInterval),
          TriggerEndpoint = CreateTriggerReleaseCheckHandler (ParseBoolDefault p) sender,
          WebhookEndpoint = Webhook_ServeHTTP (CreateWebhookHandler sender (AppWebhookSecret a)
             (Clock p) webhookMinInterval),
          ResetEndpoint = ResetCursorHandler (AppCursorPath a),
          SetEndpoint = SetCursorHandler (AppCursorPath a),
          CommandConsumer = CreateCommandConsumer (Cqrs p) w dispatcher (AppTopicPrefix a)\<rparr>)"

definition application_Run :: "'w platform \<Rightarrow> application \<Rightarrow> 'w sys \<Rightarrow> 'w service res \<times> 'w sys" where
  "application_Run p a s =
     (case ParseDuration (FloatFraction p) (AppPollInterval a) of
        Inl e \<Rightarrow> (Inl (Wrapf ''parse poll interval'' e), s)
      | Inr pollInterval \<Rightarrow>
     (case ParseDuration (FloatFraction p) (AppWebhookMinInterval a) of
        Inl e \<Rightarrow> (Inl (Wrapf ''parse webhook min interval'' e), s)
      | Inr webhookMinInterval \<Rightarrow>
     (case ResolveGitHubClient (NewGithubApp p) (AppCredentials a) of
        Inl e \<Rightarrow> (Inl (Wrapf ''resolve auth'' e), s)
      | Inr api \<Rightarrow>
     (case world_call (NewSyncProducer p (AppKafkaBrokers a) ''maintainer-watcher-github-release'') s of
        (Some e, t) \<Rightarrow> (Inl (Wrapf ''create sync producer'' e), t)
      | (None, t) \<Rightarrow>
     (case world_call (CreateClientset p) t of
        (Inl e, u) \<Rightarrow> (Inl (Wrapf ''create kubernetes clientset'' e), u)
      | (Inr cl, u) \<Rightarrow> (Inr (app_service p a api cl pollInterval webhookMinInterval), u))))))"

text \<open>
  The run-once program: its two collaborators are fields, so that a test can replace them. A
  watcher is known to it only through the interface, whose one method is \<open>Poll\<close>.
\<close>

type_synonym 'w Watcher = "'w ctx \<Rightarrow> bool \<Rightarrow> string \<Rightarrow> 'w sys \<Rightarrow> (poll_result \<times> 'w sys) option"

type_synonym 'w WatcherFactory =
  "'w GitHubClient \<Rightarrow> 'w CreateCommandSender \<Rightarrow> string \<Rightarrow> string \<Rightarrow> filter \<Rightarrow> string \<Rightarrow> string \<Rightarrow> int
     \<Rightarrow> 'w Dispatcher option \<Rightarrow> 'w Watcher"

type_synonym 'w ProducerFactory = "string \<Rightarrow> string \<Rightarrow> 'w \<Rightarrow> goerr option \<times> 'w"

record 'w Application =
  OnceStage :: string
  OnceTargetVault :: string
  OnceOwner :: string
  OnceRepoAllowlist :: string
  OnceCursorPath :: string
  OnceKafkaBrokers :: string
  OnceCredentials :: AuthCredentials
  OnceTopicPrefix :: string
  OnceQuotaMinRemaining :: int
  OnceCreateWatcher :: "'w WatcherFactory"
  OnceCreateProducer :: "'w ProducerFactory"

definition NewApplication :: "'w platform \<Rightarrow> 'w Application" where
  "NewApplication p =
     \<lparr>OnceStage = '''', OnceTargetVault = '''', OnceOwner = '''', OnceRepoAllowlist = '''',
      OnceCursorPath = '''', OnceKafkaBrokers = '''',
      OnceCredentials = \<lparr>AppID = 0, InstallationID = 0, PEMKey = ''''\<rparr>, OnceTopicPrefix = '''',
      OnceQuotaMinRemaining = 0,
      OnceCreateWatcher = (\<lambda>gh sender cursorPath own flt stage targetVault quotaMin dispatcher.
         Poll (CreateWatcher (NewSHA1 p) gh sender cursorPath own flt stage targetVault quotaMin dispatcher)),
      OnceCreateProducer = (\<lambda>brokers name. NewSyncProducer p brokers name)\<rparr>"

definition Application_Run ::
    "'w platform \<Rightarrow> 'w Application \<Rightarrow> 'w ctx \<Rightarrow> 'w sys \<Rightarrow> (poll_result \<times> 'w sys) option" where
  "Application_Run p a ctx s =
     (if OnceRepoAllowlist a = '''' then Some (PollErr (Errorf ''REPO_ALLOWLIST must be non-empty: set at least one host/owner/repo entry''), s)
      else (case ResolveGitHubClient (NewGithubApp p) (OnceCredentials a) of
        Inl e \<Rightarrow> Some (PollErr (Wrapf ''resolve auth'' e), s)
      | Inr api \<Rightarrow>
          (case world_call (OnceCreateProducer a (OnceKafkaBrokers a) ''maintainer-watcher-github-release-run-once'') s of
             (Some e, t) \<Rightarrow> Some (PollErr (Wrapf ''create sync producer'' e), t)
           | (None, t) \<Rightarrow>
               (let w = OnceCreateWatcher a (NewGitHubClient api) (CreateKafkaSender p (OnceTopicPrefix a))
                     (OnceCursorPath a) (OnceOwner a)
                     (CreateStaticFilters (IsAllowed p) (ParseRepoAllowlist (OnceRepoAllowlist a)))
                     (OnceStage a) (OnceTargetVault a) (OnceQuotaMinRemaining a) None
                in case w ctx False '''' t of
                  None \<Rightarrow> None
                | Some (PollErr e, u) \<Rightarrow> Some (PollErr (Wrapf ''poll failed'' e), u)
                | Some (r, u) \<Rightarrow> Some (r, u)))))"

section \<open>The production watcher keeps the loop's contract\<close>

lemma app_watcher_sel:
  "WGh (app_watcher p a api d) = NewGitHubClient api"
  "WPublish (app_watcher p a api d) =
     PublishCreate (NewSHA1 p) (CreateKafkaSender p (AppTopicPrefix a)) \<lparr>Stage = AppStage a, TargetVault = AppTargetVault a\<rparr>"
  "WBackstop (app_watcher p a api d) = NewTagBackstop (NewGitHubClient api) d"
  "WCursorPath (app_watcher p a api d) = AppCursorPath a"
  "WOwner (app_watcher p a api d) = AppOwner a"
  "WQuotaMin (app_watcher p a api d) = AppQuotaMinRemaining a"
  "WFilter (app_watcher p a api d) =
     CreateStaticFilters (IsAllowed p) (ParseRepoAllowlist (AppRepoAllowlist a))"
  by (simp_all add: app_watcher_def CreateWatcher_def NewWatcher_def)

lemma watcher_env_production:
  assumes "\<And>dispatch. d = Some dispatch \<Longrightarrow> build_dispatcher dispatch"
  shows "watcher_env (app_watcher p a api d) (app_command p a) (dispatched d) (dispatch_action d)"
proof -
  have "github_client (WGh (app_watcher p a api d))"
    unfolding app_watcher_sel by (rule client.github_client_axioms)
  moreover have "task_publisher (WPublish (app_watcher p a api d)) (app_command p a)"
    unfolding app_watcher_sel app_command_def by (rule publisher.task_publisher_axioms)
  moreover have "tag_backstop (WBackstop (app_watcher p a api d)) (dispatched d) (dispatch_action d)"
    unfolding app_watcher_sel by (rule client.backstop_production [OF assms])
  ultimately show ?thesis by (rule watcher_env.intro)
qed

interpretation app: watcher_env "app_watcher p a api (Some (app_dispatcher p api cl))" "app_command p a"
    "dispatched (Some (app_dispatcher p api cl))" "dispatch_action (Some (app_dispatcher p api cl))"
    for p a api cl
  by (rule watcher_env_production) (use build_dispatcher_production in \<open>auto simp: app_dispatcher_def\<close>)

interpretation once: watcher_env "app_watcher p a api None" "app_command p a"
    "dispatched (None :: 'w Dispatcher option)" "dispatch_action (None :: 'w Dispatcher option)"
    for p :: "'w platform" and a api
  by (rule watcher_env_production) simp

section \<open>What a cycle scans, and that it ends\<close>

lemma scopeRepo_eq:
  assumes "scopeRepo scope own = Some r"
  shows "scope = RepoString r \<and> Owner r = own \<and> Name r \<noteq> '''' \<and> DefaultBranch r = '''' \<and> \<not> Fork r
    \<and> CHR ''/'' \<notin> set (Name r)"
proof -
  have len: "length (Split scope CHR ''/'') = 2"
    using assms by (auto simp: scopeRepo_def Let_def split: if_splits)
  then obtain o' n where sp: "Split scope CHR ''/'' = [o', n]"
    by (auto simp: numeral_2_eq_2 length_Suc_conv)
  have "scope = o' @ ''/'' @ n" using Join_Split [of scope "CHR ''/''"] sp by simp
  moreover have "CHR ''/'' \<notin> set n" using set_Split [of n scope "CHR ''/''"] sp by simp
  ultimately show ?thesis using assms sp by (auto simp: scopeRepo_def RepoString_def Let_def split: if_splits)
qed

text \<open>Only repositories of the configured owner; a scoped cycle scans the named one.\<close>

lemma resolveRepos_owned:
  assumes "resolveRepos (app_watcher p a api d) ctx scope s = Some (Some repos, t)" "r \<in> set repos"
  shows "Owner r = AppOwner a \<and> Name r \<noteq> '''' \<and> (scope \<noteq> '''' \<longrightarrow> RepoString r = scope \<and> \<not> Fork r)"
proof (cases "scope = ''''")
  case True
  then have "gc_ListRepos api ctx (AppOwner a) s = Some (Inr repos, t)"
    using assms(1) by (auto simp: resolveRepos_def app_watcher_sel NewGitHubClient_def
        split: option.splits prod.splits sum.splits if_splits)
  then have "listed api (AppOwner a) r"
    using listRepos_from_listed [of api ctx "AppOwner a" 0 "[]" s] assms(2)
    unfolding gc_ListRepos_def by fastforce
  then show ?thesis using True by (auto simp: listed_def)
next
  case False
  then have "scopeRepo scope (AppOwner a) = Some r"
    using assms by (auto simp: resolveRepos_def app_watcher_sel split: option.splits)
  then show ?thesis using scopeRepo_eq by blast
qed

lemma Poll_returns:
  assumes "\<And>page w xs gs nx w'. Apps_ListRepos api page w = (xs, Inr (gs, Some nx), w') \<Longrightarrow>
      nx = 0 \<or> (page < nx \<and> nx \<le> bound)"
  shows "\<exists>r t. Poll (app_watcher p a api d) ctx skipSHA scope s = Some (r, t)"
proof -
  let ?w = "app_watcher p a api d"
  have l: "\<exists>res. ListRepos (WGh ?w) ctx (WOwner ?w) u = Some res" for u
    using listRepos_from_returns [OF assms] by (simp add: app_watcher_sel NewGitHubClient_def gc_ListRepos_def)
  obtain rs u where res: "resolveRepos ?w ctx scope s = Some (rs, u)"
  proof -
    obtain x v where "ListRepos (WGh ?w) ctx (WOwner ?w) s = Some (x, v)" using l [of s] by fastforce
    then have "resolveRepos ?w ctx scope s \<noteq> None"
      by (cases x) (simp_all add: resolveRepos_def split: option.split)
    then show thesis using that by auto
  qed
  show ?thesis
  proof (cases "LoadCursor (WCursorPath ?w) s")
    case (Inr c)
    then show ?thesis
      using res by (simp add: Poll_def Let_def split: option.split prod.split)
  qed (simp add: Poll_def)
qed

text \<open>With the default factory, the watcher of run-once is the service's without a dispatcher.\<close>

definition once_flags :: "'w Application \<Rightarrow> application" where
  "once_flags a = \<lparr>AppListen = '''', AppStage = OnceStage a, AppTargetVault = OnceTargetVault a, AppOwner = OnceOwner a,
     AppRepoAllowlist = OnceRepoAllowlist a, AppPollInterval = '''', AppCursorPath = OnceCursorPath a,
     AppKafkaBrokers = OnceKafkaBrokers a, AppCredentials = OnceCredentials a, AppTopicPrefix = OnceTopicPrefix a,
     AppWebhookSecret = '''', AppWebhookMinInterval = '''', AppQuotaMinRemaining = OnceQuotaMinRemaining a\<rparr>"

lemma once_watcher:
  "OnceCreateWatcher a = OnceCreateWatcher (NewApplication p) \<Longrightarrow>
   OnceCreateWatcher a (NewGitHubClient api) (CreateKafkaSender p (OnceTopicPrefix a)) (OnceCursorPath a) (OnceOwner a)
     (CreateStaticFilters (IsAllowed p) (ParseRepoAllowlist (OnceRepoAllowlist a))) (OnceStage a) (OnceTargetVault a)
     (OnceQuotaMinRemaining a) None
   = Poll (app_watcher p (once_flags a) api None)"
  by (simp add: NewApplication_def app_watcher_def once_flags_def)

lemma Application_Run_polls:
  assumes "Application_Run p a ctx s = Some (r, t)" "OnceRepoAllowlist a \<noteq> []"
    and f: "OnceCreateWatcher a = OnceCreateWatcher (NewApplication p)"
  shows "quiet s t \<or> (\<exists>api u r'. quiet s u \<and> Poll (app_watcher p (once_flags a) api None) ctx False [] u = Some (r', t))"
proof -
  obtain x u where call: "world_call (OnceCreateProducer a (OnceKafkaBrokers a)
      ''maintainer-watcher-github-release-run-once'') s = (x, u)" by fastforce
  have q: "quiet s u" by (rule quiet_world_call [OF call])
  show ?thesis
  proof (cases "ResolveGitHubClient (NewGithubApp p) (OnceCredentials a)")
    case (Inl e)
    then show ?thesis using assms by (auto simp: Application_Run_def)
  next
    case (Inr api)
    show ?thesis
    proof (cases x)
      case (Some e)
      then show ?thesis using assms Inr call q by (auto simp: Application_Run_def)
    next
      case None
      note run = assms(1) [unfolded Application_Run_def once_watcher [OF f]]
      obtain r' t' where p: "Poll (app_watcher p (once_flags a) api None) ctx False [] u = Some (r', t')"
        using run assms(2) Inr call None
        by (cases "Poll (app_watcher p (once_flags a) api None) ctx False [] u") auto
      then have "t' = t" using run assms(2) Inr call None by (cases r') auto
      with p q show ?thesis by blast
    qed
  qed
qed

lemma once_poll_no_build:
  fixes p :: "'w platform"
  assumes poll: "Poll (app_watcher p a api None) ctx skipSHA scope u = Some (r, t)"
    and x: "x \<in> set (new_acts u t)"
  shows "x \<noteq> CreateJob job \<and> x \<noteq> IncBuildDispatched l"
proof (cases "LoadCursor (WCursorPath (app_watcher p a api None)) u")
  case (Inl e)
  then show ?thesis using poll x by (simp add: Poll_def)
next
  case (Inr c0)
  let ?w = "app_watcher p a api (None :: 'w Dispatcher option)"
  show ?thesis
  proof (cases "ended_early ?w scope u r t")
    case True
    then show ?thesis using x by (auto simp: ended_early_def gauge_def dest!: new_acts_eq)
  next
    case False
    then obtain repos body c post where
      sc: "scanned ?w (app_command p a) (dispatched (None :: 'w Dispatcher option)) (dispatch_action (None :: 'w Dispatcher option))
        ctx skipSHA scope c0 u r t repos body c post"
      using once.Poll_cases [OF poll Inr] by blast
    have "y \<noteq> CreateJob job \<and> y \<noteq> IncBuildDispatched l"
      if "repo_action (WFilter ?w) (dispatch_action (None :: 'w Dispatcher option)) y" for y
      using that by (cases y) (auto simp: dispatch_action_def)
    then show ?thesis
      using x scanned_acts(2,3) [OF sc] unfolding scanned_acts(1) [OF sc]
      by (auto simp: list_all_iff gauge_def)
  qed
qed

section \<open>Properties\<close>

text \<open>A client is created exactly for complete App credentials that the App library accepts;
  incomplete credentials are refused without asking it, and a partial set is reported with the
  names of what is missing.\<close>

theorem ResolveGitHubClient_complete:
  "((\<exists>c. ResolveGitHubClient newClient creds = Inr c) \<longleftrightarrow>
      AppID creds \<noteq> 0 \<and> InstallationID creds \<noteq> 0 \<and> PEMKey creds \<noteq> [] \<and> (\<exists>c. newClient creds = Inr c))
   \<and> (AppID creds = 0 \<or> InstallationID creds = 0 \<or> PEMKey creds = [] \<longrightarrow>
      (\<forall>other. ResolveGitHubClient newClient creds = ResolveGitHubClient other creds)
      \<and> (AppID creds \<noteq> 0 \<and> InstallationID creds \<noteq> 0 \<longrightarrow> ResolveGitHubClient newClient creds
           = Inl (Errorf ''watcher auth: partial GitHub App config, missing PEM_KEY'')))"
  by (auto simp: ResolveGitHubClient_def Let_def split: sum.split)

theorem ResolveGitHubClient_complete_witness:
  "ResolveGitHubClient (\<lambda>_. Inr ()) \<lparr>AppID = 1, InstallationID = 2, PEMKey = ''''\<rparr>
     = Inl (Errorf ''watcher auth: partial GitHub App config, missing PEM_KEY'')"
  using ResolveGitHubClient_complete [of "\<lambda>_. Inr ()" "\<lparr>AppID = 1, InstallationID = 2, PEMKey = ''''\<rparr>"]
  by simp

text \<open>The states a loop goes through when its poll always returns.\<close>

definition run_ticks :: "('w sys \<Rightarrow> (poll_result \<times> 'w sys) option) \<Rightarrow> ('w sys \<Rightarrow> 'w sys) list \<Rightarrow> 'w sys \<Rightarrow> 'w sys" where
  "run_ticks poll fs s = foldl (\<lambda>s f. snd (the (poll (f s)))) s fs"

lemma pollLoop_from_ticks:
  assumes "\<And>u. \<exists>r t. poll u = Some (r, t) \<and> r \<noteq> PollPanic"
  shows "pollLoop_from poll (map Tick fs @ es) s = pollLoop_from poll es (run_ticks poll fs s)"
proof (induction fs arbitrary: s)
  case (Cons f fs)
  obtain r t where "poll (f s) = Some (r, t)" "r \<noteq> PollPanic" using assms by blast
  then show ?case using Cons.IH [of t] by (cases r) (simp_all add: run_ticks_def)
qed (simp add: run_ticks_def)

text \<open>C26: the loop outlives failing cycles. With a positive interval, and cycles that return
  without a panic, it runs one cycle at once and one per tick, each in the state the one before
  left, errors included; it is then still waiting, and it ends only with the error of its
  context. An interval that is not positive ends the program before the first cycle.\<close>

theorem pollLoop_survives_errors:
  assumes "\<And>u. \<exists>r t. poll u = Some (r, t) \<and> r \<noteq> PollPanic"
  shows "(0 < interval \<longrightarrow>
      pollLoop poll interval (map Tick fs) s = Some (Waiting, run_ticks poll (id # fs) s)
      \<and> pollLoop poll interval (map Tick fs @ CtxDone e # es) s = Some (LoopReturned e, run_ticks poll (id # fs) s))
    \<and> (interval \<le> 0 \<longrightarrow> pollLoop poll interval es s = Some (LoopPanicked, s))"
  using pollLoop_from_ticks [OF assms, where fs = "id # fs" and es = "[]" and s = s]
    pollLoop_from_ticks [OF assms, where fs = "id # fs" and es = "CtxDone e # es" and s = s]
  by (simp add: pollLoop_def del: pollLoop_from.simps(3))

theorem pollLoop_survives_errors_witness:
  "pollLoop (\<lambda>s. Some (PollErr NotExist, act (IncReposScanned 1) s)) 60 [Tick id, CtxDone NotExist]
      (initial_sys () empty_fs)
     = Some (LoopReturned NotExist, act (IncReposScanned 1) (act (IncReposScanned 1) (initial_sys () empty_fs)))"
  using pollLoop_survives_errors [of "\<lambda>s. Some (PollErr NotExist, act (IncReposScanned 1) s)" 60 "[id]"
      "initial_sys () empty_fs" NotExist "[]"]
  by (simp add: run_ticks_def)

end
