(* ===== verification/Service.thy ===== *)
theory Service
  imports Factory
begin

text \<open>
  A sequential abstraction of the running service: a state machine on the process state in which
  a step is one whole operation, namely one poll cycle, one consumed command, one request, or
  something outside (services, the disk's health, a restart), and a run is any sequence of such
  steps. This is a specification of what the operations do one after the other, not a model of
  how \<open>main.go\<close> runs them: the poll loop, the command consumer and the HTTP server are concurrent
  there, and what is different when cycles and operator requests overlap is the subject of theory
  Concurrent. The invariants of the cursor file over all runs are proved by rule induction, and
  the cursor's purpose, not to announce a commit twice, for any two cycles around a saved cursor.
\<close>

abbreviation polling :: "'w platform \<Rightarrow> application \<Rightarrow> 'w gogithub \<Rightarrow> 'w cluster \<Rightarrow> 'w watcher" where
  "polling p a api cl \<equiv> app_watcher p a api (Some (app_dispatcher p api cl))"

datatype 'w event =
    TickEvent "'w ctx"
  | CommandEvent "'w ctx" CommandObject
  | WebhookEvent request
  | TriggerEvent request
  | ResetEvent string
  | SetEvent string string
  | OutsideEvent

text \<open>
  A restart is an outside step: it keeps the files, and the actions already taken; the
  debouncer and the rate reading start afresh.
\<close>

inductive serves ::
    "'w platform \<Rightarrow> application \<Rightarrow> 'w gogithub \<Rightarrow> 'w cluster \<Rightarrow> int \<Rightarrow> int \<Rightarrow> 'w event \<Rightarrow> 'w sys \<Rightarrow> 'w sys \<Rightarrow> bool"
  for p a api cl interval minInterval where
  tick: "Poll (polling p a api cl) ctx False '''' s = Some (r, t) \<Longrightarrow>
    serves p a api cl interval minInterval (TickEvent ctx) s t"
| command: "executor \<in> set (Executors (CommandConsumer (app_service p a api cl interval minInterval))) \<Longrightarrow>
    HandleCommand executor ctx obj s = Some (r, t) \<Longrightarrow>
    serves p a api cl interval minInterval (CommandEvent ctx obj) s t"
| webhook: "WebhookEndpoint (app_service p a api cl interval minInterval) req s = (reply, t) \<Longrightarrow>
    serves p a api cl interval minInterval (WebhookEvent req) s t"
| trigger: "TriggerEndpoint (app_service p a api cl interval minInterval) req s = (reply, t) \<Longrightarrow>
    serves p a api cl interval minInterval (TriggerEvent req) s t"
| reset: "ResetEndpoint (app_service p a api cl interval minInterval) key s = (body, t) \<Longrightarrow>
    serves p a api cl interval minInterval (ResetEvent key) s t"
| set: "SetEndpoint (app_service p a api cl interval minInterval) key sha s = (body, t) \<Longrightarrow>
    serves p a api cl interval minInterval (SetEvent key sha) s t"
| outside: "Acts t = Acts s \<Longrightarrow> files (Fs t) = files (Fs s) \<Longrightarrow>
    serves p a api cl interval minInterval OutsideEvent s t"

inductive runs ::
    "'w platform \<Rightarrow> application \<Rightarrow> 'w gogithub \<Rightarrow> 'w cluster \<Rightarrow> int \<Rightarrow> int \<Rightarrow> 'w event list \<Rightarrow> 'w sys \<Rightarrow> 'w sys \<Rightarrow> bool"
  for p a api cl interval minInterval where
  start: "runs p a api cl interval minInterval [] s s"
| step: "runs p a api cl interval minInterval es s t \<Longrightarrow> serves p a api cl interval minInterval e t u \<Longrightarrow>
    runs p a api cl interval minInterval (es @ [e]) s u"

inductive_cases serves_cases: "serves p a api cl interval minInterval e s t"

inductive_simps runs_Nil: "runs p a api cl interval minInterval [] s t"

section \<open>What one step does to the actions and the cursor file\<close>

text \<open>The commands of the service name the repository and the commit.\<close>

definition command_key :: "CreateCommand \<Rightarrow> string" where
  "command_key cmd = ''github.com/'' @ (case Frontmatter cmd ''repo'' of None \<Rightarrow> '''' | Some r \<Rightarrow> r)"

definition command_sha :: "CreateCommand \<Rightarrow> string" where
  "command_sha cmd = (case Frontmatter cmd ''ref'' of None \<Rightarrow> '''' | Some r \<Rightarrow> r)"

lemma command_key [simp]: "command_key (app_command p a release) = Key (RelRepo release)"
  by (simp add: command_key_def app_command_def BuildCreateCommand_def buildFrontmatter_def Key_def Let_def)

lemma command_sha [simp]: "command_sha (app_command p a release) = HeadSHA release"
  by (simp add: command_sha_def app_command_def BuildCreateCommand_def buildFrontmatter_def Let_def)

interpretation app: addressed_watcher "polling p a api cl" "app_command p a"
    "dispatched (Some (app_dispatcher p api cl))" "dispatch_action (Some (app_dispatcher p api cl))"
    command_key command_sha for p a api cl
  by unfold_locales simp_all

text \<open>
  A change of the cursor's text: it is the encoding of a cursor whose commits are those of the
  cursor that was loaded, announced by a command that went out, or set by an operator.
\<close>

definition announced :: "action list \<Rightarrow> string \<Rightarrow> string \<Rightarrow> bool" where
  "announced as key sha \<longleftrightarrow> (\<exists>cmd. SendCreate cmd True \<in> set as \<and> command_key cmd = key \<and> command_sha cmd = sha)"

definition cursor_step :: "string \<Rightarrow> 'w event \<Rightarrow> 'w sys \<Rightarrow> 'w sys \<Rightarrow> bool" where
  "cursor_step path e s t \<longleftrightarrow> prefix (Acts s) (Acts t) \<and> (files (Fs t) path = files (Fs s) path
     \<or> (\<exists>c c0 (s' :: 'w sys). files (Fs t) path = Some (json_print (encode_cursor c))
          \<and> LoadCursor path s' = Inr c0 \<and> files (Fs s') path = files (Fs s) path
          \<and> (\<forall>k. LastSeenSHA c k = [] \<or> LastSeenSHA c k = LastSeenSHA c0 k
               \<or> announced (new_acts s t) k (LastSeenSHA c k) \<or> e = SetEvent k (LastSeenSHA c k))))"

lemma announced_sent: "sent (app_command p a) as k sha \<Longrightarrow> announced as k sha"
  unfolding sent_def announced_def using command_key command_sha by blast

lemma announced_mono: "announced as k sha \<Longrightarrow> set as \<subseteq> set bs \<Longrightarrow> announced bs k sha"
  unfolding announced_def by blast

lemma cursor_step_same:
  "prefix (Acts s) (Acts t) \<Longrightarrow> files (Fs t) path = files (Fs s) path \<Longrightarrow> cursor_step path e s t"
  by (simp add: cursor_step_def)

lemma cursor_step_save:
  fixes s u :: "'w sys"
  assumes "prefix (Acts s) (Acts t)" "SaveCursor path c u = (x, y)" "Fs t = Fs y" "Fs u = Fs s"
    "LoadCursor path u = Inr c0"
    and k: "\<And>k. LastSeenSHA c k = [] \<or> LastSeenSHA c k = LastSeenSHA c0 k
      \<or> announced (new_acts s t) k (LastSeenSHA c k) \<or> e = SetEvent k (LastSeenSHA c k)"
  shows "cursor_step path e s t"
proof (cases x)
  case None
  then have "files (Fs t) path = Some (json_print (encode_cursor c))"
    using SaveCursor_content [OF assms(2)] assms(3) by simp
  then show ?thesis using assms(1,4,5) k unfolding cursor_step_def by (metis (no_types, lifting))
next
  case (Some err)
  then show ?thesis using SaveCursor_content [OF assms(2)] assms by (intro cursor_step_same) simp_all
qed

lemma Poll_step:
  assumes poll: "Poll (polling p a api cl) ctx skipSHA scope u = Some (r, t)"
    and u: "extends s u"
  shows "cursor_step (AppCursorPath a) e s t"
proof (cases "LoadCursor (AppCursorPath a) u")
  case (Inl err)
  then have "t = u" using poll by (simp add: Poll_def app_watcher_sel)
  then show ?thesis using u by (simp add: extends_def cursor_step_same)
next
  case (Inr c0)
  let ?w = "polling p a api cl"
  have load: "LoadCursor (WCursorPath ?w) u = Inr c0" using Inr by (simp add: app_watcher_sel)
  have pre: "prefix (Acts u) (Acts t)"
    using app.Poll_cases [OF poll load] by (auto simp: ended_early_def scanned_def)
  have acts: "prefix (Acts s) (Acts t)" using u pre unfolding extends_def by (meson prefix_order.trans)
  have new: "set (new_acts u t) \<subseteq> set (new_acts s t)"
    using u pre by (auto simp: extends_def new_acts_def elim!: prefixE)
  have fs: "Fs u = Fs s" using u by (simp add: extends_def)
  show ?thesis
  proof (rule app.Poll_files [OF poll load])
    assume "Fs t = Fs u"
    then show ?thesis using acts fs by (simp add: cursor_step_same)
  next
    fix c repos v
    assume t: "Fs t = Fs (snd (SaveCursor (WCursorPath ?w) c u))"
      and m: "cursor_moves (app_command p a) (dispatched (Some (app_dispatcher p api cl))) repos (new_acts u t) c0 c"
    obtain x y where save: "SaveCursor (AppCursorPath a) c u = (x, y)" by fastforce
    have "LastSeenSHA c k = LastSeenSHA c0 k \<or> announced (new_acts s t) k (LastSeenSHA c k)" for k
      using cursor_moves_seen [OF m, of k] announced_sent announced_mono [OF _ new] by blast
    then show ?thesis
      using t save by (intro cursor_step_save [OF acts save _ fs Inr]) (auto simp: app_watcher_sel)
  qed
qed

lemma executor_step:
  assumes "runTriggerReleaseCheck q w d ctx obj s = Some (r, t)" "build_dispatcher d"
  shows "\<exists>u. extends s u \<and> list_all (dispatch_action (Some d)) (new_acts s u) \<and> (t = u \<or> (\<exists>r' force scope. Poll w ctx force scope u = Some (r', t)))"
proof (cases "unmarshalAndValidate q obj")
  case (Inl e)
  then have "t = s" using assms(1) by (simp add: runTriggerReleaseCheck_def)
  then show ?thesis using extends_refl by (intro exI [of _ s]) simp
next
  case (Inr cmd)
  obtain x u where gate: "(if Tag cmd \<noteq> [] then d \<lparr>ReqRepo = Scope cmd, ReqTag = Tag cmd\<rparr> TriggerWebhook s
      else (None, s)) = (x, u)" by fastforce
  have ext: "extends s u \<and> list_all (dispatch_action (Some d)) (new_acts s u)"
    using gate dispatch_actions [OF assms(2)] by (auto split: if_splits)
  have "t = u \<or> (\<exists>r'. Poll w ctx (Force cmd) (Scope cmd) u = Some (r', t))"
  proof (cases x)
    case None
    obtain r' t' where p: "Poll w ctx (Force cmd) (Scope cmd) u = Some (r', t')"
      using assms(1) Inr gate None
      by (cases "Poll w ctx (Force cmd) (Scope cmd) u") (auto simp: runTriggerReleaseCheck_def)
    then have "t' = t" using assms(1) Inr gate None by (cases r') (auto simp: runTriggerReleaseCheck_def)
    with p show ?thesis by blast
  qed (use assms(1) Inr gate in \<open>auto simp: runTriggerReleaseCheck_def\<close>)
  with ext show ?thesis by blast
qed

lemma Webhook_step:
  assumes "WhSender h = SendCommand q sd" "Webhook_ServeHTTP h req s = (r, t)"
  shows "prefix (Acts s) (Acts t) \<and> Fs t = Fs s"
proof (cases "\<exists>p. delivered h req p")
  case True
  then obtain p where "delivered h req p" ..
  from Webhook_delivered [OF assms(2) this] show ?thesis
  proof (elim disjE exE conjE bexE, goal_cases)
    case (1 reason)
    then show ?case by simp
  next
    case (2 tag u v x)
    have "extends u v" using trigger.send_acts 2(2) unfolding assms(1) by blast
    then show ?case using classify_spec(1) [OF 2(1)] 2(3) by (cases x) (auto simp: extends_def)
  qed
next
  case False
  from Webhook_not_delivered [OF assms(2) False] show ?thesis by auto
qed

lemma Reset_step:
  assumes "ResetCursorHandler path key s = (r, t)"
  shows "cursor_step path e s t"
proof (cases "t = s")
  case False
  obtain c0 m where load: "LoadCursor path s = Inr c0" "Repos c0 = Some m"
    and save: "snd (SaveCursor path (c0\<lparr>Repos := Some (fmdrop key m)\<rparr>) s) = t"
    using assms False
    by (auto simp: ResetCursorHandler_def split: if_splits sum.splits option.splits prod.splits)
  obtain x where x: "SaveCursor path (c0\<lparr>Repos := Some (fmdrop key m)\<rparr>) s = (x, t)"
    using save by (metis prod.collapse)
  show ?thesis
    by (rule cursor_step_save [OF _ x _ _ load(1)])
      (use SaveCursor_frame(1) [OF x] load(2) in \<open>auto simp: LastSeenSHA_def repo_entry_def split: option.split\<close>)
qed (simp add: cursor_step_same)

lemma Set_step:
  assumes "SetCursorHandler path key sha s = (r, t)"
  shows "cursor_step path (SetEvent key sha) s t"
proof (cases "t = s")
  case False
  let ?c = "\<lambda>c0 m. c0\<lparr>Repos := Some (fmupd key (Some (emptyRepoState\<lparr>LastSeenMasterSHA := sha\<rparr>)) m)\<rparr>"
  obtain c0 where load: "LoadCursor path s = Inr c0"
    using assms False by (auto simp: SetCursorHandler_def split: if_splits sum.splits)
  obtain m where m: "Repos c0 = Some m" using LoadCursor_map [OF load] by auto
  have "snd (SaveCursor path (?c c0 m) s) = t"
    using assms False load m
    by (auto simp: SetCursorHandler_def Let_def split: if_splits option.splits prod.splits)
  then obtain x where x: "SaveCursor path (?c c0 m) s = (x, t)" by (metis prod.collapse)
  show ?thesis
    by (rule cursor_step_save [OF _ x _ _ load])
      (use SaveCursor_frame(1) [OF x] m in \<open>auto simp: LastSeenSHA_def repo_entry_def split: option.split\<close>)
qed (simp add: cursor_step_same)

abbreviation app_sender :: "'w platform \<Rightarrow> application \<Rightarrow> 'w TriggerSender" where
  "app_sender p a \<equiv> SendCommand (Cqrs p) (CreateTriggerReleaseCheckCommandSender (Cqrs p) (AppTopicPrefix a))"

lemma service_sel [simp]:
  "Executors (CommandConsumer (app_service p a api cl i wi)) =
     [NewTriggerReleaseCheckCommandExecutor (Cqrs p) (polling p a api cl) (app_dispatcher p api cl)]"
  "WebhookEndpoint (app_service p a api cl i wi) = Webhook_ServeHTTP
     (CreateWebhookHandler (app_sender p a) (AppWebhookSecret a) (Clock p) wi)"
  "TriggerEndpoint (app_service p a api cl i wi) = Trigger_ServeHTTP (ParseBoolDefault p) (app_sender p a)"
  "ResetEndpoint (app_service p a api cl i wi) = ResetCursorHandler (AppCursorPath a)"
  "SetEndpoint (app_service p a api cl i wi) = SetCursorHandler (AppCursorPath a)"
  by (simp_all add: app_service_def Let_def CreateCommandConsumer_def CreateTriggerReleaseCheckHandler_def)

lemma app_builds: "build_dispatcher (app_dispatcher p api cl)"
  unfolding app_dispatcher_def by (rule build_dispatcher_production)

lemma Trigger_step:
  assumes "Trigger_ServeHTTP pb (SendCommand q sd) req s = (r, t)"
  shows "extends s t \<and> set (new_acts s t) \<subseteq> range (case_prod SendTrigger)"
proof -
  obtain e where "SendCommand q sd \<lparr>Scope = '''', Force = pb (QueryGet req ''force'') False, Tag = ''''\<rparr> s = (e, t)"
    using assms by (auto simp: Trigger_ServeHTTP_def Let_def split: prod.splits option.splits)
  from SendCommand_acts [OF this] show ?thesis by (auto intro: image_eqI [of _ _ "(_, _)"])
qed

lemma serves_cursor: "serves p a api cl i wi e s t \<Longrightarrow> cursor_step (AppCursorPath a) e s t"
proof (induction rule: serves.induct)
  case (tick ctx s r t)
  then show ?case using Poll_step extends_refl by blast
next
  case (command executor ctx obj s r t)
  then have "runTriggerReleaseCheck (Cqrs p) (polling p a api cl) (app_dispatcher p api cl) ctx obj s = Some (r, t)"
    by (simp add: NewTriggerReleaseCheckCommandExecutor_def)
  from executor_step [OF this app_builds] obtain u where u: "extends s u" "t = u \<or> (\<exists>r' force scope.
      Poll (polling p a api cl) ctx force scope u = Some (r', t))"
    by blast
  then show ?case
    using Poll_step cursor_step_same [of s u] unfolding extends_def by metis
next
  case (webhook req s reply t)
  then show ?case using Webhook_step [OF _ webhook [unfolded service_sel]]
    by (auto simp: CreateWebhookHandler_def NewWebhookHandler_def intro: cursor_step_same)
next
  case (trigger req s reply t)
  then show ?case using Trigger_step [OF trigger [unfolded service_sel]]
    by (auto simp: extends_def intro: cursor_step_same)
next
  case (reset key s body t)
  then show ?case using Reset_step by simp
next
  case (set key sha s body t)
  then show ?case using Set_step by simp
next
  case (outside t s)
  then show ?case by (simp add: cursor_step_same)
qed

section \<open>Invariants of a run\<close>

text \<open>
  The cursor file can be decoded, and each commit in it was announced in the run or set by an
  operator (up to the replacement of invalid bytes that writing JSON implies).
\<close>

definition traced :: "'w event list \<Rightarrow> action list \<Rightarrow> Cursor \<Rightarrow> bool" where
  "traced es as c \<longleftrightarrow> (\<forall>key. LastSeenSHA c key \<noteq> [] \<longrightarrow> (\<exists>k sha. clean k = key \<and> clean sha = LastSeenSHA c key
     \<and> (announced as k sha \<or> SetEvent k sha \<in> set es)))"

definition file_traced :: "string \<Rightarrow> 'w event list \<Rightarrow> 'w sys \<Rightarrow> 'w sys \<Rightarrow> bool" where
  "file_traced path es s t \<longleftrightarrow> prefix (Acts s) (Acts t) \<and>
     (\<forall>d. files (Fs t) path = Some d \<longrightarrow> (\<exists>c. unmarshal_cursor d = Inr c \<and> traced es (new_acts s t) c))"

lemma traced_mono:
  "traced es as c \<Longrightarrow> set es \<subseteq> set es' \<Longrightarrow> set as \<subseteq> set bs \<Longrightarrow> traced es' bs c"
  unfolding traced_def using announced_mono by (meson subsetD)

lemma LoadCursor_source:
  assumes "LoadCursor path s = Inr c" "LastSeenSHA c k \<noteq> []"
  obtains d c1 where "files (Fs s) path = Some d" "unmarshal_cursor d = Inr c1" "LastSeenSHA c1 k = LastSeenSHA c k"
  using assms
  by (auto simp: LoadCursor_def ReadFile_def LastSeenSHA_def repo_entry_def
      split: sum.splits option.splits if_splits)

lemma cursor_step_traced:
  fixes s t u :: "'w sys"
  assumes inv: "file_traced path es s t" and step: "cursor_step path e t u"
  shows "file_traced path (es @ [e]) s u"
proof -
  have pre: "prefix (Acts s) (Acts u)" and pre2: "prefix (Acts t) (Acts u)" and pre1: "prefix (Acts s) (Acts t)"
    using inv step unfolding file_traced_def cursor_step_def by (auto intro: prefix_order.trans)
  have new: "set (new_acts s t) \<subseteq> set (new_acts s u)" "set (new_acts t u) \<subseteq> set (new_acts s u)"
    using pre1 pre2 by (auto simp: new_acts_def elim!: prefixE)
  have old: "traced (es @ [e]) (new_acts s u) c" if "traced es (new_acts s t) c" for c
    by (rule traced_mono [OF that]) (use new in auto)
  show ?thesis
  proof (cases "files (Fs u) path = files (Fs t) path")
    case True
    then show ?thesis using inv old pre unfolding file_traced_def by metis
  next
    case False
    then obtain c c0 and s' :: "'w sys" where c: "files (Fs u) path = Some (json_print (encode_cursor c))"
      "LoadCursor path s' = Inr c0" "files (Fs s') path = files (Fs t) path"
      "\<forall>k. LastSeenSHA c k = [] \<or> LastSeenSHA c k = LastSeenSHA c0 k
               \<or> announced (new_acts t u) k (LastSeenSHA c k) \<or> e = SetEvent k (LastSeenSHA c k)"
      using step unfolding cursor_step_def by blast
    have "traced (es @ [e]) (new_acts s u) (clean_cursor c)"
      unfolding traced_def
    proof (intro allI impI)
      fix key assume "LastSeenSHA (clean_cursor c) key \<noteq> []"
      then obtain k where k: "clean k = key" "LastSeenSHA (clean_cursor c) key = clean (LastSeenSHA c k)"
        "LastSeenSHA c k \<noteq> []" using LastSeenSHA_clean_origin [of c key] by (metis clean_names(2))
      consider "announced (new_acts t u) k (LastSeenSHA c k)" | "e = SetEvent k (LastSeenSHA c k)"
        | "LastSeenSHA c0 k = LastSeenSHA c k" using c(4) k(3) by metis
      then show "\<exists>k sha. clean k = key \<and> clean sha = LastSeenSHA (clean_cursor c) key
          \<and> (announced (new_acts s u) k sha \<or> SetEvent k sha \<in> set (es @ [e]))"
      proof cases
        case 1
        then show ?thesis using k announced_mono new(2) by metis
      next
        case 2
        then show ?thesis using k by auto
      next
        case 3
        then have "LastSeenSHA c0 k \<noteq> []" using k(3) by simp
        with c(2) obtain d c1 where "files (Fs s') path = Some d" "unmarshal_cursor d = Inr c1"
          "LastSeenSHA c1 k = LastSeenSHA c0 k" by (rule LoadCursor_source)
        then have "traced es (new_acts s t) c1"
          using inv c(3) unfolding file_traced_def by auto
        then obtain k' sha where o': "clean k' = k" "clean sha = LastSeenSHA c k"
          "announced (new_acts s t) k' sha \<or> SetEvent k' sha \<in> set es"
          using k(3) 3 \<open>LastSeenSHA c1 k = LastSeenSHA c0 k\<close> unfolding traced_def by metis
        moreover have "clean k = k" "clean (LastSeenSHA c k) = LastSeenSHA c k"
          using o'(1,2) clean_valid valid_utf8_clean by metis+
        ultimately show ?thesis using k(1,2) announced_mono [OF _ new(1)] by (metis in_set_conv_decomp
              Un_iff set_append)
      qed
    qed
    then show ?thesis using c(1) pre by (simp add: file_traced_def unmarshal_marshal_cursor)
  qed
qed

lemma runs_traced:
  "runs p a api cl i wi es s t \<Longrightarrow> files (Fs s) (AppCursorPath a) = None \<Longrightarrow> file_traced (AppCursorPath a) es s t"
proof (induction rule: runs.induct)
  case (start s)
  then show ?case by (simp add: file_traced_def)
next
  case (step es s t e u)
  then show ?case using cursor_step_traced serves_cursor by blast
qed

lemma traced_load:
  assumes "file_traced path es s t" "readFault (Fs t) path = None"
  obtains c where "LoadCursor path t = Inr c" "traced es (new_acts s t) c"
proof (cases "files (Fs t) path")
  case None
  have "traced es (new_acts s t) \<lparr>Repos = Some fmempty\<rparr>" by (simp add: traced_def LastSeenSHA_def repo_entry_def)
  then show thesis using that None assms(2) by (simp add: LoadCursor_def ReadFile_def)
next
  case (Some d)
  then obtain c where c: "unmarshal_cursor d = Inr c" "traced es (new_acts s t) c"
    using assms(1) by (auto simp: file_traced_def)
  let ?c = "if Repos c = None then c\<lparr>Repos := Some fmempty\<rparr> else c"
  have "LastSeenSHA ?c k = LastSeenSHA c k" for k by (simp add: LastSeenSHA_def repo_entry_def)
  then have "traced es (new_acts s t) ?c" using c(2) by (simp add: traced_def)
  moreover have "LoadCursor path t = Inr ?c"
    using Some c(1) assms(2) by (simp add: LoadCursor_def ReadFile_def)
  ultimately show thesis using that by blast
qed

section \<open>The label values and the Jobs of a run\<close>

text \<open>A label value that exists at start, or the one that does not; a Job of the dispatcher.\<close>

definition known :: "'w Dispatcher \<Rightarrow> action \<Rightarrow> bool" where
  "known d x \<longleftrightarrow> (initialised x \<or> x = IncBuildDispatched ''deferred'')
     \<and> (\<forall>job. x = CreateJob job \<longrightarrow> job_dispatched d job)"

definition known_step :: "'w Dispatcher \<Rightarrow> 'w sys \<Rightarrow> 'w sys \<Rightarrow> bool" where
  "known_step d s t \<longleftrightarrow> Acts t = Acts s @ new_acts s t \<and> list_all (known d) (new_acts s t)"

lemma known_refl [simp]: "known_step d s s"
  by (simp add: known_step_def)

lemma known_trans:
  assumes "known_step d s t" "known_step d t u"
  shows "known_step d s u"
proof -
  have a: "Acts u = Acts s @ new_acts s t @ new_acts t u"
    using assms unfolding known_step_def by (metis append.assoc)
  have "list_all (known d) (new_acts s u)" using assms unfolding new_acts_eq [OF a] by (simp add: known_step_def)
  then show ?thesis using a new_acts_eq [OF a] by (simp add: known_step_def)
qed

lemma known_build: "dispatch_action (Some d) x \<Longrightarrow> known d x"
  by (cases x) (auto simp: known_def dispatch_action_def)

lemma known_simps [simp]:
  "known d (IncReposScanned n)" "known d (SetRateLimitRemaining m)" "known d (SendCreate cmd ok)"
  "known d (IncPollCycle result) \<longleftrightarrow> initialised (IncPollCycle result)"
  "known d (IncPublished status) \<longleftrightarrow> initialised (IncPublished status)"
  "known d (IncFilterSkipped reason) \<longleftrightarrow> initialised (IncFilterSkipped reason)"
  by (auto simp: known_def)

lemma repo_known:
  assumes "\<And>x. flt x \<in> {[], ''scope'', ''empty_unreleased'', ''auto_release'', ''fork''}"
    and "repo_action flt (dispatch_action (Some d)) y"
  shows "known d y"
proof (cases "dispatch_action (Some d) y")
  case True
  then show ?thesis by (rule known_build)
next
  case False
  show ?thesis
  proof (cases y)
    case (IncFilterSkipped reason)
    then have "reason \<in> insert ''sha_unchanged'' (range flt) - {[]}" using assms(2) False by simp
    then consider "reason = ''sha_unchanged''" | x where "reason = flt x" "flt x \<noteq> []" by auto
    then show ?thesis
    proof cases
      case 1
      then show ?thesis by (simp add: IncFilterSkipped)
    next
      case (2 x)
      then have "reason = ''scope'' \<or> reason = ''empty_unreleased'' \<or> reason = ''auto_release'' \<or> reason = ''fork''"
        using assms(1) [of x] by simp
      then show ?thesis unfolding IncFilterSkipped known_simps(6) by (elim disjE) simp_all
    qed
  qed (use assms(2) False in auto)
qed

lemma Poll_known:
  assumes poll: "Poll (polling p a api cl) ctx skipSHA scope s = Some (r, t)"
  shows "known_step (app_dispatcher p api cl) s t"
proof (cases "LoadCursor (AppCursorPath a) s")
  case (Inl e)
  then have "t = s" using poll by (auto simp: Poll_def app_watcher_sel)
  then show ?thesis by simp
next
  case (Inr c0)
  let ?w = "polling p a api cl"
  let ?b = "dispatch_action (Some (app_dispatcher p api cl))"
  have load: "LoadCursor (WCursorPath ?w) s = Inr c0" using Inr by (simp add: app_watcher_sel)
  have acts: "Acts t = Acts s @ new_acts s t"
    using app.Poll_cases [OF poll load] by (auto simp: ended_early_def scanned_def new_acts_def)
  have reasons: "WFilter ?w x \<in> {[], ''scope'', ''empty_unreleased'', ''auto_release'', ''fork''}" for x
    using static_filters_reasons by (simp add: app_watcher_sel)
  have rep: "known (app_dispatcher p api cl) x" if "repo_action (WFilter ?w) ?b x" for x
    by (rule repo_known [OF reasons that])
  have g: "known (app_dispatcher p api cl) (gauge ?w s)" by (simp add: gauge_def)
  show ?thesis
  proof (cases "ended_early ?w scope s r t")
    case True
    then show ?thesis using g acts by (auto simp: ended_early_def known_step_def dest!: new_acts_eq)
  next
    case False
    then obtain repos body c post where
      sc: "scanned ?w (app_command p a) (dispatched (Some (app_dispatcher p api cl))) ?b ctx skipSHA scope
        c0 s r t repos body c post"
      using app.Poll_cases [OF poll load] by blast
    then show ?thesis
      using scanned_acts [OF sc] rep g acts by (auto simp: list_all_iff known_step_def)
  qed
qed

lemma known_extends:
  "extends s t \<Longrightarrow> list_all (known d) (new_acts s t) \<Longrightarrow> known_step d s t"
  using Acts_extends by (simp add: known_step_def)

lemma executor_known:
  assumes "runTriggerReleaseCheck q (polling p a api cl)
      (app_dispatcher p api cl) ctx obj s = Some (r, t)"
  shows "known_step (app_dispatcher p api cl) s t"
proof -
  obtain u where u: "extends s u" "list_all (dispatch_action (Some (app_dispatcher p api cl))) (new_acts s u)" "t = u \<or> (\<exists>r' force scope.
      Poll (polling p a api cl) ctx force scope u = Some (r', t))"
    using executor_step [OF assms app_builds] by blast
  have "known_step (app_dispatcher p api cl) s u" using u(1,2) known_build by (intro known_extends) (auto simp: list_all_iff)
  then show ?thesis using u(3) Poll_known known_trans by blast
qed

lemma Webhook_known:
  assumes "WhSender h = SendCommand q sd" "Webhook_ServeHTTP h req s = (r, t)"
  shows "known_step d s t"
proof -
  have acts: "Acts t = Acts s @ new_acts s t"
    using Webhook_step [OF assms] by (auto simp: new_acts_def prefix_def)
  have "list_all (known d) (new_acts s t)"
  proof (cases "\<exists>p. delivered h req p")
    case True
    then obtain p where "delivered h req p" ..
    from trigger.webhook_actions [OF assms this] show ?thesis by (auto simp: known_def)
  next
    case False
    from Webhook_not_delivered [OF assms(2) False] show ?thesis by (auto simp: known_def)
  qed
  with acts show ?thesis by (simp add: known_step_def)
qed

lemma serves_known: "serves p a api cl i wi e s t \<Longrightarrow> known_step (app_dispatcher p api cl) s t"
proof (induction rule: serves.induct)
  case (tick ctx s r t)
  then show ?case by (rule Poll_known)
next
  case (command executor ctx obj s r t)
  then show ?case using executor_known by (simp add: NewTriggerReleaseCheckCommandExecutor_def)
next
  case (webhook req s reply t)
  then show ?case using Webhook_known [OF _ webhook [unfolded service_sel]] by (simp add: CreateWebhookHandler_def NewWebhookHandler_def)
next
  case (trigger req s reply t)
  from Trigger_step [OF trigger [unfolded service_sel]] show ?case
    by (intro known_extends) (auto simp: list_all_iff known_def)
next
  case (reset key s body t)
  then have "Acts t = Acts s"
    by (auto simp: ResetCursorHandler_def dest: SaveCursor_frame(1)
        split: if_splits sum.splits option.splits prod.splits)
  then show ?case by (simp add: known_step_def new_acts_def)
next
  case (set key sha s body t)
  then have "Acts t = Acts s"
    by (auto simp: SetCursorHandler_def Let_def dest: SaveCursor_frame(1)
        split: if_splits sum.splits option.splits prod.splits)
  then show ?case by (simp add: known_step_def new_acts_def)
next
  case (outside t s)
  then show ?case by (simp add: known_step_def new_acts_def)
qed

lemma runs_known: "runs p a api cl i wi es s t \<Longrightarrow> known_step (app_dispatcher p api cl) s t"
  by (induction rule: runs.induct) (auto intro: known_trans serves_known)


text \<open>Every Job of a run was created by a call of the dispatcher, which admitted it.\<close>

lemma runs_admitted:
  assumes "runs p a api cl i wi es s t" "CreateJob job \<in> set (new_acts s t)"
  shows "\<exists>req trigger u r v. app_dispatcher p api cl req trigger u = (r, v) \<and> CreateJob job \<in> set (new_acts u v)
    \<and> job_admitted (BuildEnv p) (BuildYaml p) (RegistryHttp p) api cl req u job"
proof -
  have "job_dispatched (app_dispatcher p api cl) job"
    using runs_known [OF assms(1)] assms(2) by (auto simp: known_step_def list_all_iff known_def)
  then show ?thesis unfolding job_dispatched_def app_dispatcher_def using Dispatch_admitted by blast
qed


section \<open>The cursor between two cycles\<close>

lemma last_sent_same:
  assumes "\<forall>cmd'. SendCreate cmd' True \<in> set as \<and> key_of cmd' = k \<longrightarrow> sha_of cmd' = sha"
    and "(\<exists>cmd. SendCreate cmd True \<in> set as \<and> key_of cmd = k) \<or> d = sha"
  shows "last_sent key_of sha_of k as d = sha"
  using assms
proof (induction as arbitrary: d)
  case (Cons x as)
  have prem: "\<forall>cmd'. SendCreate cmd' True \<in> set as \<and> key_of cmd' = k \<longrightarrow> sha_of cmd' = sha"
    using Cons.prems(1) by simp
  show ?case
  proof (cases "\<exists>cmd. x = SendCreate cmd True")
    case True
    then obtain cmd where x: "x = SendCreate cmd True" by blast
    show ?thesis unfolding x last_sent.simps
      by (rule Cons.IH [OF prem]) (use Cons.prems x in auto)
  next
    case False
    then have "last_sent key_of sha_of k (x # as) d = last_sent key_of sha_of k as d"
      using last_sent_append [of key_of sha_of k "[x]" as d] last_sent_none [of "[x]"]
      by (metis append_Cons append_Nil list.set_cases set_ConsD list.distinct(1))
    then show ?thesis using Cons.IH [OF prem, of d] Cons.prems(2) False by auto
  qed
qed simp

text \<open>What a successful cycle saved on a healthy disk is what the next load finds.\<close>

lemma Poll_saved_load:
  assumes poll: "Poll (polling p a api cl) ctx skipSHA scope s = Some (r, t)"
      "LoadCursor (AppCursorPath a) s = Inr c0" "IncPollCycle ''success'' \<in> set (new_acts s t)"
    and disk: "writeFault (Fs s) (tmp_path (AppCursorPath a)) = None"
      "renameFault (Fs s) (tmp_path (AppCursorPath a)) = None"
    and names: "\<And>repos u. resolveRepos (polling p a api cl) ctx scope s = Some (Some repos, u) \<Longrightarrow>
      \<forall>repo\<in>set repos. valid_utf8 (Key repo)"
    and s': "files (Fs s') (AppCursorPath a) = files (Fs t) (AppCursorPath a)"
      "readFault (Fs s') (AppCursorPath a) = None"
  obtains c1 where "LoadCursor (AppCursorPath a) s' = Inr c1"
    "\<And>k. valid_utf8 k \<Longrightarrow> LastSeenSHA c1 k =
       clean (last_sent command_key command_sha k (new_acts s t) (LastSeenSHA c0 k))"
proof -
  let ?w = "polling p a api cl"
  have path [simp]: "WCursorPath ?w = AppCursorPath a" by (simp add: app_watcher_sel)
  have load: "LoadCursor (WCursorPath ?w) s = Inr c0" using poll(2) by simp
  obtain c repos u where res: "resolveRepos ?w ctx scope s = Some (Some repos, u)"
    and fs: "Fs t = Fs (snd (SaveCursor (AppCursorPath a) c s))"
    and seen: "\<And>k. LastSeenSHA c k = last_sent command_key command_sha k (new_acts s t) (LastSeenSHA c0 k)"
    and keys: "cursor_keys c \<subseteq> Key ` set repos \<union> cursor_keys c0"
    by (rule app.Poll_saved [OF poll(1) load poll(3), unfolded path]) (rule that; assumption)
  have "valid_utf8 k" if "k \<in> cursor_keys c0" for k
    using that LoadCursor_valid [OF poll(2)]
    by (auto simp: cursor_keys_def cursor_valid_def fmlookup_dom'_iff split: option.splits)
  then have utf8: "\<forall>k\<in>cursor_keys c. valid_utf8 k" using keys names [OF res] by blast
  have "files (Fs s') (AppCursorPath a) = Some (json_print (encode_cursor c))"
    using SaveCursor_healthy [OF disk] s'(1) fs by simp
  from LoadCursor_saved [OF this s'(2)] obtain c1 where c1: "LoadCursor (AppCursorPath a) s' = Inr c1"
    "\<And>k. LastSeenSHA c1 k = LastSeenSHA (clean_cursor c) k" by blast
  show thesis
    by (rule that [OF c1(1)]) (simp add: c1(2) LastSeenSHA_clean_unique [OF utf8] seen)
qed


lemma Poll_sent_command:
  assumes "Poll (polling p a api cl) ctx skipSHA scope s = Some (r, t)" "LoadCursor (AppCursorPath a) s = Inr c"
    and "SendCreate cmd ok \<in> set (new_acts s t)"
  obtains repos u rel where "resolveRepos (polling p a api cl) ctx scope s = Some (Some repos, u)"
    "cmd = app_command p a rel" "RelRepo rel \<in> set repos" "gathered_as (NewGitHubClient api) rel"
    "skipSHA \<or> LastSeenSHA c (Key (RelRepo rel)) \<noteq> HeadSHA rel
      \<or> (\<exists>sha. sha \<noteq> HeadSHA rel \<and> sent (app_command p a) (new_acts s t) (Key (RelRepo rel)) sha)"
proof -
  have load: "LoadCursor (WCursorPath (polling p a api cl)) s = Inr c" using assms(2) by (simp add: app_watcher_sel)
  have gh: "WGh (polling p a api cl) = NewGitHubClient api" by (simp add: app_watcher_sel)
  show thesis
  proof (rule app.Poll_sends [OF assms(1) load assms(3)])
    fix repos u
    assume res: "resolveRepos (polling p a api cl) ctx scope s = Some (Some repos, u)"
      and "send_justified (polling p a api cl) (app_command p a) skipSHA repos c (new_acts s t) cmd"
    then show thesis unfolding send_justified_def gh using that [OF res] by blast
  qed
qed

lemma same_command:
  "app_command p a x = app_command p a y \<Longrightarrow> Key (RelRepo x) = Key (RelRepo y) \<and> HeadSHA x = HeadSHA y"
  using command_key [of p a x] command_key [of p a y] command_sha [of p a x] command_sha [of p a y] by simp

lemma Poll_resends:
  assumes "Poll (polling p a api cl) ctx False scope s = Some (r, t)" "LoadCursor (AppCursorPath a) s = Inr c"
    and "SendCreate (app_command p a again) ok \<in> set (new_acts s t)"
    and "LastSeenSHA c (Key (RelRepo again)) = HeadSHA again"
  shows "\<exists>other. SendCreate (app_command p a other) True \<in> set (new_acts s t)
    \<and> Key (RelRepo other) = Key (RelRepo again) \<and> HeadSHA other \<noteq> HeadSHA again"
proof (rule Poll_sent_command [OF assms(1-3)])
  fix rel
  assume "app_command p a again = app_command p a rel"
    and due: "False \<or> LastSeenSHA c (Key (RelRepo rel)) \<noteq> HeadSHA rel
      \<or> (\<exists>sha. sha \<noteq> HeadSHA rel \<and> sent (app_command p a) (new_acts s t) (Key (RelRepo rel)) sha)"
  then have "Key (RelRepo rel) = Key (RelRepo again)" "HeadSHA rel = HeadSHA again"
    using same_command by metis+
  then show ?thesis using due assms(4) unfolding sent_def by auto
qed

lemma last_announced:
  assumes "Poll (polling p a api cl) ctx skipSHA scope s = Some (r, t)" "LoadCursor (AppCursorPath a) s = Inr c"
    and "SendCreate (app_command p a release) True \<in> set (new_acts s t)"
    and only: "\<forall>rel. SendCreate (app_command p a rel) True \<in> set (new_acts s t) \<and> Key (RelRepo rel) = Key (RelRepo release)
        \<longrightarrow> HeadSHA rel = HeadSHA release"
  shows "last_sent command_key command_sha (Key (RelRepo release)) (new_acts s t) d = HeadSHA release"
proof (rule last_sent_same)
  show "\<forall>cmd. SendCreate cmd True \<in> set (new_acts s t) \<and> command_key cmd = Key (RelRepo release)
      \<longrightarrow> command_sha cmd = HeadSHA release"
  proof (intro allI impI, elim conjE)
    fix cmd assume cmd: "SendCreate cmd True \<in> set (new_acts s t)" "command_key cmd = Key (RelRepo release)"
    show "command_sha cmd = HeadSHA release"
      by (rule Poll_sent_command [OF assms(1,2) cmd(1)]) (use only cmd in simp)
  qed
  show "(\<exists>cmd. SendCreate cmd True \<in> set (new_acts s t) \<and> command_key cmd = Key (RelRepo release)) \<or> d = HeadSHA release"
    using assms(3) command_key by blast
qed

end
