(* ===== verification/Server.thy ===== *)
theory Server
  imports Service
begin

text \<open>
  How \<open>main.go\<close> puts the state machine of theory Service to work: the routes of the HTTP
  server, and the poll loop. The router and the handler wrappers are code of other packages;
  what is used of their documented behaviour is the predicate \<open>web_ok\<close>. With it, everything
  a request does is one step of the state machine, and everything the loop does is a run.
\<close>

section \<open>The routes\<close>

text \<open>A handler gets the variables of its route, the request and the state.\<close>

type_synonym 'w http_handler = "(string \<Rightarrow> string) \<Rightarrow> request \<Rightarrow> 'w sys \<Rightarrow> reply \<times> 'w sys"

type_synonym 'w with_error = "(string \<Rightarrow> string) \<Rightarrow> request \<Rightarrow> 'w sys \<Rightarrow> reply res \<times> 'w sys"

record 'w web =
  MuxMatch :: "string \<Rightarrow> string \<Rightarrow> (string \<Rightarrow> string) option"
  NewRouter :: "(string \<times> 'w http_handler) list \<Rightarrow> 'w http_handler"
  NewPrintHandler :: "string \<Rightarrow> 'w http_handler"
  PromHandler :: "'w http_handler"
  NewErrorHandler :: "'w with_error \<Rightarrow> 'w http_handler"
  NewJSONErrorHandler :: "'w with_error \<Rightarrow> 'w http_handler"
  NewDangerousHandlerWrapper :: "'w http_handler \<Rightarrow> 'w http_handler"

definition text_reply :: "string res \<times> 'w sys \<Rightarrow> reply res \<times> 'w sys" where
  "text_reply = map_prod (map_sum id (\<lambda>body. \<lparr>ReplyStatus = StatusOK, ReplyHeader = [], ReplyBody = body\<rparr>)) id"

definition NewResetCursorHandler :: "'w web \<Rightarrow> string \<Rightarrow> 'w http_handler" where
  "NewResetCursorHandler web cursorPath = NewErrorHandler web (\<lambda>vars req s.
     text_reply (ResetCursorHandler cursorPath (vars ''repo'') s))"

definition NewSetCursorHandler :: "'w web \<Rightarrow> string \<Rightarrow> 'w http_handler" where
  "NewSetCursorHandler web cursorPath = NewErrorHandler web (\<lambda>vars req s.
     text_reply (SetCursorHandler cursorPath (vars ''repo'') (QueryGet req ''sha'') s))"

definition createHTTPServer ::
    "'w web \<Rightarrow> application \<Rightarrow> 'w http_handler \<Rightarrow> 'w http_handler \<Rightarrow> 'w http_handler" where
  "createHTTPServer web a triggerHandler webhookHandler = NewRouter web
     [(''/healthz'', NewPrintHandler web ''OK''),
      (''/readiness'', NewPrintHandler web ''OK''),
      (''/metrics'', PromHandler web),
      (''/trigger'', triggerHandler),
      (''/webhook/github-release'', webhookHandler),
      (''/resetcursor/{repo:.+}'', NewDangerousHandlerWrapper web (NewResetCursorHandler web (AppCursorPath a))),
      (''/setcursor/{repo:.+}'', NewDangerousHandlerWrapper web (NewSetCursorHandler web (AppCursorPath a)))]"

text \<open>The server of the running service, with the two handlers that \<open>Run\<close> stored.\<close>

definition app_server ::
    "'w web \<Rightarrow> 'w platform \<Rightarrow> application \<Rightarrow> 'w gogithub \<Rightarrow> 'w cluster \<Rightarrow> int \<Rightarrow> int \<Rightarrow> 'w http_handler" where
  "app_server web p a api cl interval minInterval =
     (let svc = app_service p a api cl interval minInterval
      in createHTTPServer web a (NewJSONErrorHandler web (\<lambda>vars. TriggerEndpoint svc))
           (NewJSONErrorHandler web (\<lambda>vars. WebhookEndpoint svc)))"

section \<open>The contract of the router and the wrappers\<close>

text \<open>
  The first route whose template matches the path handles the request, with the variables of
  the match; without one the router answers by itself. An error handler calls the wrapped
  handler once; the guard of the dangerous routes calls it or refuses. Answering by themselves,
  they send no command and write no file.
\<close>

definition apart :: "'w sys \<Rightarrow> 'w sys \<Rightarrow> bool" where
  "apart s t \<longleftrightarrow> Acts t = Acts s \<and> files (Fs t) = files (Fs s)"

definition router_ok :: "'w web \<Rightarrow> bool" where
  "router_ok web \<longleftrightarrow> (\<forall>routes v req s.
     case List.find (\<lambda>(tpl, h). MuxMatch web tpl (UrlPath req) \<noteq> None) routes of
       None \<Rightarrow> apart s (snd (NewRouter web routes v req s))
     | Some (tpl, h) \<Rightarrow> NewRouter web routes v req s = h (the (MuxMatch web tpl (UrlPath req))) req s)"

definition web_ok :: "'w web \<Rightarrow> bool" where
  "web_ok web \<longleftrightarrow> router_ok web
   \<and> (\<forall>x v req s. apart s (snd (NewPrintHandler web x v req s)))
   \<and> (\<forall>v req s. apart s (snd (PromHandler web v req s)))
   \<and> (\<forall>h v req s. snd (NewErrorHandler web h v req s) = snd (h v req s))
   \<and> (\<forall>h v req s. snd (NewJSONErrorHandler web h v req s) = snd (h v req s))
   \<and> (\<forall>h v req s. snd (NewDangerousHandlerWrapper web h v req s) = snd (h v req s)
        \<or> apart s (snd (NewDangerousHandlerWrapper web h v req s)))"

lemma web_ok_handlers:
  assumes "web_ok web"
  shows "router_ok web" "apart s (snd (NewPrintHandler web x v req s))" "apart s (snd (PromHandler web v req s))"
    "snd (NewErrorHandler web w v req s) = snd (w v req s)"
    "snd (NewJSONErrorHandler web w v req s) = snd (w v req s)"
    "snd (NewDangerousHandlerWrapper web h v req s) = snd (h v req s)
      \<or> apart s (snd (NewDangerousHandlerWrapper web h v req s))"
  using assms unfolding web_ok_def by blast+

section \<open>Every request is a step\<close>

text \<open>What a request may have caused, given the template that matches its path.\<close>

definition request_event :: "'w web \<Rightarrow> request \<Rightarrow> 'w event \<Rightarrow> bool" where
  "request_event web req e \<longleftrightarrow> e = OutsideEvent
     \<or> e = TriggerEvent req \<and> MuxMatch web ''/trigger'' (UrlPath req) \<noteq> None
     \<or> e = WebhookEvent req \<and> MuxMatch web ''/webhook/github-release'' (UrlPath req) \<noteq> None
     \<or> (\<exists>vars. MuxMatch web ''/resetcursor/{repo:.+}'' (UrlPath req) = Some vars \<and> e = ResetEvent (vars ''repo''))
     \<or> (\<exists>vars. MuxMatch web ''/setcursor/{repo:.+}'' (UrlPath req) = Some vars
          \<and> e = SetEvent (vars ''repo'') (QueryGet req ''sha''))"

lemma request_eventI:
  "request_event web req OutsideEvent"
  "MuxMatch web ''/trigger'' (UrlPath req) = Some vars \<Longrightarrow> request_event web req (TriggerEvent req)"
  "MuxMatch web ''/webhook/github-release'' (UrlPath req) = Some vars \<Longrightarrow> request_event web req (WebhookEvent req)"
  "MuxMatch web ''/resetcursor/{repo:.+}'' (UrlPath req) = Some vars \<Longrightarrow> request_event web req (ResetEvent (vars ''repo''))"
  "MuxMatch web ''/setcursor/{repo:.+}'' (UrlPath req) = Some vars \<Longrightarrow>
     request_event web req (SetEvent (vars ''repo'') (QueryGet req ''sha''))"
  by (simp_all add: request_event_def)

lemma serves_apart: "apart s t \<Longrightarrow> serves p a api cl i wi OutsideEvent s t"
  unfolding apart_def by (rule serves.outside) simp_all

lemma find_member: "List.find P xs = Some x \<Longrightarrow> x \<in> set xs \<and> P x"
  by (induction xs) (auto split: if_splits)

lemma snd_text_reply [simp]: "snd (text_reply x) = snd x"
  by (simp add: text_reply_def)

lemma dangerous_step:
  assumes "web_ok web" "serves p a api cl i wi e s (snd (h v req s))"
  shows "serves p a api cl i wi e s (snd (NewDangerousHandlerWrapper web h v req s))
    \<or> serves p a api cl i wi OutsideEvent s (snd (NewDangerousHandlerWrapper web h v req s))"
  using web_ok_handlers(6) [OF assms(1), of h v req s] assms(2) serves_apart by metis

lemma endpoint_steps:
  assumes "web_ok web"
  shows "serves p a api cl i wi (TriggerEvent req) s
      (snd (NewJSONErrorHandler web (\<lambda>vars. TriggerEndpoint (app_service p a api cl i wi)) v req s))"
    "serves p a api cl i wi (WebhookEvent req) s
      (snd (NewJSONErrorHandler web (\<lambda>vars. WebhookEndpoint (app_service p a api cl i wi)) v req s))"
    "serves p a api cl i wi (ResetEvent (v ''repo'')) s (snd (NewResetCursorHandler web (AppCursorPath a) v req s))"
    "serves p a api cl i wi (SetEvent (v ''repo'') (QueryGet req ''sha'')) s
      (snd (NewSetCursorHandler web (AppCursorPath a) v req s))"
  unfolding NewResetCursorHandler_def NewSetCursorHandler_def web_ok_handlers(4,5) [OF assms] snd_text_reply
  by (rule serves.intros, simp add: prod_eq_iff)+

lemma router_dispatch:
  assumes "router_ok web"
  obtains "apart s (snd (NewRouter web routes v req s))"
  | tpl h vars where "(tpl, h) \<in> set routes" "MuxMatch web tpl (UrlPath req) = Some vars"
    "NewRouter web routes v req s = h vars req s"
proof -
  let ?find = "List.find (\<lambda>(tpl, h). MuxMatch web tpl (UrlPath req) \<noteq> None) routes"
  have router: "case ?find of None \<Rightarrow> apart s (snd (NewRouter web routes v req s))
      | Some (tpl, h) \<Rightarrow> NewRouter web routes v req s = h (the (MuxMatch web tpl (UrlPath req))) req s"
    using assms unfolding router_ok_def by blast
  show thesis
  proof (cases ?find)
    case None
    then show thesis using router that(1) by simp
  next
    case (Some route)
    then obtain tpl h where "(tpl, h) \<in> set routes" "MuxMatch web tpl (UrlPath req) \<noteq> None" "route = (tpl, h)"
      using find_member [OF Some] by (cases route) auto
    then show thesis using router Some that(2) by auto
  qed
qed

lemma guarded_steps:
  assumes web: "web_ok web"
  shows "serves p a api cl i wi (ResetEvent (vars ''repo'')) s
        (snd (NewDangerousHandlerWrapper web (NewResetCursorHandler web (AppCursorPath a)) vars req s))
      \<or> serves p a api cl i wi OutsideEvent s
        (snd (NewDangerousHandlerWrapper web (NewResetCursorHandler web (AppCursorPath a)) vars req s))"
    and "serves p a api cl i wi (SetEvent (vars ''repo'') (QueryGet req ''sha'')) s
        (snd (NewDangerousHandlerWrapper web (NewSetCursorHandler web (AppCursorPath a)) vars req s))
      \<or> serves p a api cl i wi OutsideEvent s
        (snd (NewDangerousHandlerWrapper web (NewSetCursorHandler web (AppCursorPath a)) vars req s))"
  by (rule dangerous_step [OF web], rule endpoint_steps(3) [OF web])
    (rule dangerous_step [OF web], rule endpoint_steps(4) [OF web])

lemma request_step:
  assumes web: "web_ok web" and req: "app_server web p a api cl i wi v req s = (reply, t)"
  shows "\<exists>e. request_event web req e \<and> serves p a api cl i wi e s t"
proof -
  let ?json = "NewJSONErrorHandler web"
  let ?svc = "app_service p a api cl i wi"
  define routes where "routes = [(''/healthz'', NewPrintHandler web ''OK''), (''/readiness'', NewPrintHandler web ''OK''),
      (''/metrics'', PromHandler web), (''/trigger'', ?json (\<lambda>vars. TriggerEndpoint ?svc)),
      (''/webhook/github-release'', ?json (\<lambda>vars. WebhookEndpoint ?svc)),
      (''/resetcursor/{repo:.+}'', NewDangerousHandlerWrapper web (NewResetCursorHandler web (AppCursorPath a))),
      (''/setcursor/{repo:.+}'', NewDangerousHandlerWrapper web (NewSetCursorHandler web (AppCursorPath a)))]"
  have t: "t = snd (NewRouter web routes v req s)"
    using req by (simp add: app_server_def createHTTPServer_def Let_def routes_def)
  show ?thesis
  proof (rule router_dispatch [OF web_ok_handlers(1) [OF web], of s routes v req])
    assume "apart s (snd (NewRouter web routes v req s))"
    then have "apart s t" by (simp add: t)
    then show ?thesis using serves_apart request_eventI(1) by blast
  next
    fix tpl h vars
    assume mem: "(tpl, h) \<in> set routes" and vars: "MuxMatch web tpl (UrlPath req) = Some vars"
      and "NewRouter web routes v req s = h vars req s"
    then have t: "t = snd (h vars req s)" using t by simp
    note steps = endpoint_steps [OF web, where s = s]
    note guarded = guarded_steps [OF web, where vars = vars and s = s and req = req]
    have apart: ?thesis if "apart s (snd (h vars req s))"
      using that serves_apart request_eventI(1) t by blast
    from mem show ?thesis unfolding routes_def list.set insert_iff prod.inject empty_iff
    proof (elim disjE conjE FalseE, goal_cases)
      case 1
      then show ?case using apart web_ok_handlers(2) [OF web] by simp
    next
      case 2
      then show ?case using apart web_ok_handlers(2) [OF web] by simp
    next
      case 3
      then show ?case using apart web_ok_handlers(3) [OF web] by simp
    next
      case 4
      show ?case unfolding t 4(2) by (intro exI conjI, rule request_eventI(2) [OF vars [unfolded 4(1)]], rule steps(1))
    next
      case 5
      show ?case unfolding t 5(2) by (intro exI conjI, rule request_eventI(3) [OF vars [unfolded 5(1)]], rule steps(2))
    next
      case 6
      show ?case unfolding t 6(2)
        using guarded(1) request_eventI(1) request_eventI(4) [OF vars [unfolded 6(1)]] by blast
    next
      case 7
      show ?case unfolding t 7(2)
        using guarded(2) request_eventI(1) request_eventI(5) [OF vars [unfolded 7(1)]] by blast
    qed
  qed
qed

section \<open>The loop is a run\<close>

lemma runs_trans: "runs p a api cl i wi fs t u \<Longrightarrow> runs p a api cl i wi es s t \<Longrightarrow> runs p a api cl i wi (es @ fs) s u"
proof (induction rule: runs.induct)
  case (step fs t u e v)
  then show ?case using runs.step [of p a api cl i wi "es @ fs" s u e v] by simp
qed simp

text \<open>The loop's states are those of the run that alternates what happens between ticks with a tick.\<close>

lemma run_ticks_runs:
  assumes "\<And>u. \<exists>r v. Poll (polling p a api cl) ctx False [] u = Some (r, v) \<and> r \<noteq> PollPanic"
    and "list_all2 (\<lambda>es f. \<forall>u. runs p a api cl i wi es u (f u)) ess fs"
  shows "runs p a api cl i wi (concat (map (\<lambda>es. es @ [TickEvent ctx]) ess)) s
    (run_ticks (Poll (polling p a api cl) ctx False []) fs s)"
  using assms(2)
proof (induction ess fs arbitrary: s rule: list_all2_induct)
  case Nil
  then show ?case by (simp add: run_ticks_def runs.start)
next
  case (Cons es ess f fs)
  obtain r v where poll: "Poll (polling p a api cl) ctx False [] (f s) = Some (r, v)" using assms(1) by blast
  have "runs p a api cl i wi (es @ [TickEvent ctx]) s v"
    using Cons.hyps(1) by (intro runs.step [OF _ serves.tick [OF poll]]) simp
  from runs_trans [OF Cons.IH this] show ?case using poll by (simp add: run_ticks_def)
qed

end
