(* ===== verification/Concurrent.thy ===== *)
theory Concurrent
  imports Server
begin

text \<open>
  Cycles that overlap. The poll loop, the command consumer and the operator endpoints of one
  process run concurrently and \<open>Poll\<close> takes no lock, so here a cycle is a thread that moves in
  small steps, from one statement of \<open>watcher.Poll\<close> that touches shared state to the next, and
  the steps of several threads interleave. A thread's cursor is its own; shared are the files
  (the temporary file of \<open>SaveCursor\<close> too), the services and the metrics. One turn of the loop
  over the repositories is one step. A save is not: it opens and truncates the temporary file,
  writes it byte by byte, and renames it, and other threads move in between.
\<close>

section \<open>A save in small steps\<close>

text \<open>
  The file a save has open is an inode. It is found under the temporary path at first; when some
  thread renames the temporary file meanwhile it is the cursor file, and after a further rename
  it has no name any more.
\<close>

datatype handle = AtTmp | AtCursor | Unlinked

datatype save = SaveOpen string | SaveWrite string nat handle | SaveRename | SaveDone

text \<open>One byte written at an offset; a file that was truncated meanwhile is filled up with zeros.\<close>

definition put_byte :: "nat \<Rightarrow> char \<Rightarrow> string \<Rightarrow> string" where
  "put_byte n b old = (if n < length old then old[n := b] else old @ replicate (n - length old) (CHR 0x00) @ [b])"

fun write_byte :: "string \<Rightarrow> handle \<Rightarrow> nat \<Rightarrow> char \<Rightarrow> fs \<Rightarrow> fs" where
  "write_byte path AtTmp n b f =
     f\<lparr>files := (files f)(tmp_path path := map_option (put_byte n b) (files f (tmp_path path)))\<rparr>"
| "write_byte path AtCursor n b f = f\<lparr>files := (files f)(path := map_option (put_byte n b) (files f path))\<rparr>"
| "write_byte path Unlinked n b f = f"

text \<open>How far a write gets, and whether it then fails.\<close>

definition write_limit :: "string \<Rightarrow> string \<Rightarrow> fs \<Rightarrow> nat" where
  "write_limit path d f = (case writeFault f (tmp_path path) of
      Some (WriteFails m _) \<Rightarrow> min m (length d) | _ \<Rightarrow> length d)"

definition write_broken :: "string \<Rightarrow> fs \<Rightarrow> bool" where
  "write_broken path f = (case writeFault f (tmp_path path) of Some (WriteFails _ _) \<Rightarrow> True | _ \<Rightarrow> False)"

definition open_broken :: "string \<Rightarrow> fs \<Rightarrow> bool" where
  "open_broken path f = (case writeFault f (tmp_path path) of Some (OpenFails _) \<Rightarrow> True | _ \<Rightarrow> False)"

inductive save_step :: "string \<Rightarrow> save \<times> fs \<Rightarrow> save \<times> fs \<Rightarrow> bool" for path where
  open_fails: "open_broken path f \<Longrightarrow> save_step path (SaveOpen d, f) (SaveDone, f)"
| opened: "\<not> open_broken path f \<Longrightarrow> save_step path (SaveOpen d, f)
    (SaveWrite d 0 AtTmp, f\<lparr>files := (files f)(tmp_path path := Some [])\<rparr>)"
| wrote: "n < write_limit path d f \<Longrightarrow>
    save_step path (SaveWrite d n h, f) (SaveWrite d (Suc n) h, write_byte path h n (d ! n) f)"
| write_fails: "write_limit path d f \<le> n \<Longrightarrow> write_broken path f \<Longrightarrow>
    save_step path (SaveWrite d n h, f) (SaveDone, f)"
| written: "write_limit path d f \<le> n \<Longrightarrow> \<not> write_broken path f \<Longrightarrow>
    save_step path (SaveWrite d n h, f) (SaveRename, f)"
| renamed: "save_step path (SaveRename, f) (SaveDone, snd (Rename (tmp_path path) path f))"

code_pred (modes: i \<Rightarrow> i \<Rightarrow> o \<Rightarrow> bool as save_next) save_step .

inductive_simps save_step_simps:
  "save_step path (SaveOpen d, f) (v', f')"
  "save_step path (SaveWrite d n h, f) (v', f')"
  "save_step path (SaveRename, f) (v', f')"

inductive_simps save_step_done [simp]: "save_step path (SaveDone, f) x"

lemma save_step_det: "save_step path x y \<Longrightarrow> save_step path x z \<Longrightarrow> y = z"
  by (auto elim!: save_step.cases)

lemma write_byte_faults [simp]:
  "readFault (write_byte path h n b f) = readFault f" "writeFault (write_byte path h n b f) = writeFault f"
  "renameFault (write_byte path h n b f) = renameFault f"
  by (cases h; simp)+

lemma write_byte_fits [simp]:
  "write_limit path d (write_byte path h n b f) = write_limit path d f"
  "write_broken path (write_byte path h n b f) = write_broken path f"
  by (simp_all add: write_limit_def write_broken_def)

lemma put_next_byte: "n < length d \<Longrightarrow> put_byte n (d ! n) (take n d) = take (Suc n) d"
  by (simp add: put_byte_def take_Suc_conv_app_nth)

lemma write_limit_le: "write_limit path d f \<le> length d"
  by (simp add: write_limit_def split: option.split write_fault.split)

text \<open>A save that is left alone writes its text from the first byte to the last.\<close>

lemma save_writes:
  assumes "n \<le> write_limit path d f" "files f (tmp_path path) = Some []"
  shows "(save_step path)\<^sup>*\<^sup>* (SaveWrite d 0 AtTmp, f)
    (SaveWrite d n AtTmp, f\<lparr>files := (files f)(tmp_path path := Some (take n d))\<rparr>)"
  using assms(1)
proof (induction n)
  case 0
  have "f\<lparr>files := (files f)(tmp_path path := Some (take 0 d))\<rparr> = f" using assms(2) by (simp add: fun_upd_idem)
  then show ?case by (simp only: rtranclp.rtrancl_refl)
next
  case (Suc n)
  let ?g = "f\<lparr>files := (files f)(tmp_path path := Some (take n d))\<rparr>"
  have lim: "write_limit path d ?g = write_limit path d f" by (simp add: write_limit_def)
  have n: "n < length d" using Suc.prems write_limit_le [of path d f] by simp
  have "save_step path (SaveWrite d n AtTmp, ?g) (SaveWrite d (Suc n) AtTmp, write_byte path AtTmp n (d ! n) ?g)"
    by (rule save_step.wrote) (use Suc.prems lim in simp)
  moreover have "write_byte path AtTmp n (d ! n) ?g = f\<lparr>files := (files f)(tmp_path path := Some (take (Suc n) d))\<rparr>"
    by (simp add: put_next_byte [OF n])
  ultimately show ?case using Suc by (metis (no_types, lifting) Suc_leD rtranclp.rtrancl_into_rtrancl)
qed

definition save_file :: "string \<Rightarrow> string \<Rightarrow> fs \<Rightarrow> fs" where
  "save_file path d f = (case WriteFile (tmp_path path) d f of
      (Some e, g) \<Rightarrow> g | (None, g) \<Rightarrow> snd (Rename (tmp_path path) path g))"

lemma SaveCursor_file: "snd (SaveCursor path c s) = s\<lparr>Fs := save_file path (json_print (encode_cursor c)) (Fs s)\<rparr>"
  by (simp add: SaveCursor_def save_file_def Let_def split: prod.split option.split)

lemma save_ends: "(save_step path)\<^sup>*\<^sup>* (SaveOpen d, f) (SaveDone, save_file path d f)"
proof (cases "open_broken path f")
  case True
  then have "save_file path d f = f"
    by (auto simp: save_file_def WriteFile_def open_broken_def split: option.splits write_fault.splits)
  then show ?thesis using save_step.open_fails [OF True] by (simp add: r_into_rtranclp)
next
  case False
  let ?f0 = "f\<lparr>files := (files f)(tmp_path path := Some [])\<rparr>" and ?n = "write_limit path d f"
  let ?g = "f\<lparr>files := (files f)(tmp_path path := Some (take ?n d))\<rparr>"
  have lim: "write_limit path d ?f0 = ?n" "write_limit path d ?g = ?n" "write_broken path ?g = write_broken path f"
    by (simp_all add: write_limit_def write_broken_def)
  have w: "(save_step path)\<^sup>*\<^sup>* (SaveOpen d, f) (SaveWrite d ?n AtTmp, ?g)"
    using save_writes [of ?n path d ?f0] save_step.opened [OF False, of d] lim(1)
    by (simp add: converse_rtranclp_into_rtranclp)
  show ?thesis
  proof (cases "write_broken path f")
    case True
    then have "save_file path d f = ?g"
      by (auto simp: save_file_def WriteFile_def write_broken_def write_limit_def min_def split: option.splits write_fault.splits)
    then show ?thesis using w save_step.write_fails [of path d ?g ?n AtTmp] lim True
      by (simp add: rtranclp.rtrancl_into_rtrancl)
  next
    case notBroken: False
    then have saved: "save_file path d f = snd (Rename (tmp_path path) path ?g)"
      using False by (auto simp: save_file_def WriteFile_def write_broken_def open_broken_def write_limit_def
          split: option.splits write_fault.splits)
    have "save_step path (SaveWrite d ?n AtTmp, ?g) (SaveRename, ?g)"
      using lim notBroken by (intro save_step.written) simp_all
    then show ?thesis using w save_step.renamed [of path ?g] unfolding saved
      by (meson rtranclp.rtrancl_into_rtrancl)
  qed
qed

section \<open>A cycle in small steps\<close>

datatype cycle =
    Begin
  | Loaded Cursor
  | Armed Cursor int
  | Resolving Cursor int
  | Scanning int "Repo list" Cursor
  | Saving int save
  | Counting int
  | Closing int poll_result
  | Ended poll_result

inductive cycle_step ::
    "'w watcher \<Rightarrow> 'w ctx \<Rightarrow> bool \<Rightarrow> string \<Rightarrow> cycle \<times> 'w sys \<Rightarrow> cycle \<times> 'w sys \<Rightarrow> bool"
  for w ctx skipSHA scope where
  load_fails: "LoadCursor (WCursorPath w) s = Inl e \<Longrightarrow> cycle_step w ctx skipSHA scope (Begin, s)
    (Ended (PollErr (Wrapf (''load cursor path='' @ WCursorPath w) e)), s)"
| loaded: "LoadCursor (WCursorPath w) s = Inr c \<Longrightarrow> cycle_step w ctx skipSHA scope (Begin, s) (Loaded c, s)"
| armed: "cycle_step w ctx skipSHA scope (Loaded c, s) (Armed c (RateLimitRemaining (WGh w) s), s)"
| quota_low: "quota_gate w scope s \<Longrightarrow> cycle_step w ctx skipSHA scope (Armed c g, s)
    (Closing g PollOk, act (IncPollCycle ''quota_low'') s)"
| quota_ok: "\<not> quota_gate w scope s \<Longrightarrow> cycle_step w ctx skipSHA scope (Armed c g, s) (Resolving c g, s)"
| unresolved: "resolveRepos w ctx scope s = Some (None, t) \<Longrightarrow>
    cycle_step w ctx skipSHA scope (Resolving c g, s) (Closing g PollOk, t)"
| resolved: "resolveRepos w ctx scope s = Some (Some repos, t) \<Longrightarrow> cycle_step w ctx skipSHA scope (Resolving c g, s)
    (Scanning g repos c, act (IncReposScanned (length repos)) t)"
| turn: "processRepo w ctx skipSHA repo c s = (Continue, c', t) \<Longrightarrow>
    cycle_step w ctx skipSHA scope (Scanning g (repo # repos) c, s) (Scanning g repos c', t)"
| stopped: "processRepo w ctx skipSHA repo c s = (Return reason, c', t) \<Longrightarrow>
    cycle_step w ctx skipSHA scope (Scanning g (repo # repos) c, s)
      (if reason = '''' then (Saving g (SaveOpen (json_print (encode_cursor c'))), t)
       else (Closing g PollOk, act (IncPollCycle reason) t))"
| panics: "processRepo w ctx skipSHA repo c s = (Panic, c', t) \<Longrightarrow>
    cycle_step w ctx skipSHA scope (Scanning g (repo # repos) c, s) (Closing g PollPanic, t)"
| all_scanned: "cycle_step w ctx skipSHA scope (Scanning g [] c, s)
    (Saving g (SaveOpen (json_print (encode_cursor c))), s)"
| saves: "save_step (WCursorPath w) (v, Fs s) (v', f) \<Longrightarrow>
    cycle_step w ctx skipSHA scope (Saving g v, s) (Saving g v', s\<lparr>Fs := f\<rparr>)"
| saved: "cycle_step w ctx skipSHA scope (Saving g SaveDone, s) (Counting g, s)"
| counted: "cycle_step w ctx skipSHA scope (Counting g, s) (Closing g PollOk, act (IncPollCycle ''success'') s)"
| closed: "cycle_step w ctx skipSHA scope (Closing g r, s) (Ended r, act (SetRateLimitRemaining g) s)"

inductive_cases cycle_step_cases: "cycle_step w ctx skipSHA scope (pc, s) (pc', t)"

inductive_simps cycle_step_ended [simp]: "cycle_step w ctx skipSHA scope (Ended r, s) x"

text \<open>The step relation is executable: from a point and a state it computes the next one.\<close>

code_pred (modes: i \<Rightarrow> i \<Rightarrow> i \<Rightarrow> i \<Rightarrow> i \<Rightarrow> o \<Rightarrow> bool as cycle_next) cycle_step .

text \<open>What is left of \<open>Poll\<close> after each of its parts, as functions.\<close>

definition finish :: "int \<Rightarrow> poll_result \<Rightarrow> 'w sys \<Rightarrow> (poll_result \<times> 'w sys) option" where
  "finish g r s = Some (r, act (SetRateLimitRemaining g) s)"

definition after_scan :: "'w watcher \<Rightarrow> int \<Rightarrow> string option \<times> Cursor \<times> 'w sys \<Rightarrow> (poll_result \<times> 'w sys) option" where
  "after_scan w g x = (case x of
      (None, _, u) \<Rightarrow> finish g PollPanic u
    | (Some reason, c, u) \<Rightarrow>
        (if reason \<noteq> '''' then finish g PollOk (act (IncPollCycle reason) u)
         else finish g PollOk (act (IncPollCycle ''success'') (snd (SaveCursor (WCursorPath w) c u)))))"

definition after_gate ::
    "'w watcher \<Rightarrow> 'w ctx \<Rightarrow> bool \<Rightarrow> string \<Rightarrow> int \<Rightarrow> Cursor \<Rightarrow> 'w sys \<Rightarrow> (poll_result \<times> 'w sys) option" where
  "after_gate w ctx skipSHA scope g c s = (case resolveRepos w ctx scope s of
      None \<Rightarrow> None
    | Some (None, t) \<Rightarrow> finish g PollOk t
    | Some (Some repos, t) \<Rightarrow>
        after_scan w g (processRepos w ctx skipSHA repos c (act (IncReposScanned (length repos)) t)))"

definition after_load ::
    "'w watcher \<Rightarrow> 'w ctx \<Rightarrow> bool \<Rightarrow> string \<Rightarrow> int \<Rightarrow> Cursor \<Rightarrow> 'w sys \<Rightarrow> (poll_result \<times> 'w sys) option" where
  "after_load w ctx skipSHA scope g c s =
     (if quota_gate w scope s then finish g PollOk (act (IncPollCycle ''quota_low'') s)
      else after_gate w ctx skipSHA scope g c s)"

lemma Poll_rest: "Poll w ctx skipSHA scope s = (case LoadCursor (WCursorPath w) s of
    Inl e \<Rightarrow> Some (PollErr (Wrapf (''load cursor path='' @ WCursorPath w) e), s)
  | Inr c \<Rightarrow> after_load w ctx skipSHA scope (RateLimitRemaining (WGh w) s) c s)"
  by (simp add: Poll_def after_load_def after_gate_def after_scan_def finish_def Let_def
      split: sum.split option.split prod.split)

lemma cycle_step_det: "cycle_step w ctx skipSHA scope x y \<Longrightarrow> cycle_step w ctx skipSHA scope x z \<Longrightarrow> y = z"
  by (induction rule: cycle_step.induct) (auto elim!: cycle_step.cases dest: save_step_det)

text \<open>Only listing the repositories may not return: the points at which a cycle still ends.\<close>

fun returns :: "'w watcher \<Rightarrow> 'w ctx \<Rightarrow> bool \<Rightarrow> string \<Rightarrow> cycle \<times> 'w sys \<Rightarrow> bool" where
  "returns w ctx skipSHA scope (Begin, s) = (Poll w ctx skipSHA scope s \<noteq> None)"
| "returns w ctx skipSHA scope (Loaded c, s) = (after_load w ctx skipSHA scope (RateLimitRemaining (WGh w) s) c s \<noteq> None)"
| "returns w ctx skipSHA scope (Armed c g, s) = (after_load w ctx skipSHA scope g c s \<noteq> None)"
| "returns w ctx skipSHA scope (Resolving c g, s) = (after_gate w ctx skipSHA scope g c s \<noteq> None)"
| "returns w ctx skipSHA scope _ = True"

lemma after_scan_returns: "after_scan w g x \<noteq> None"
  by (simp add: after_scan_def finish_def split: prod.split option.split)

lemma step_returns: "cycle_step w ctx skipSHA scope x y \<Longrightarrow> returns w ctx skipSHA scope y \<Longrightarrow> returns w ctx skipSHA scope x"
  by (induction rule: cycle_step.induct)
    (use after_scan_returns in \<open>simp_all add: Poll_rest after_load_def after_gate_def finish_def\<close>)

lemma steps_return: "(cycle_step w ctx skipSHA scope)\<^sup>*\<^sup>* x y \<Longrightarrow> returns w ctx skipSHA scope y \<Longrightarrow>
    returns w ctx skipSHA scope x"
  by (induction rule: converse_rtranclp_induct) (auto dest: step_returns)

text \<open>A cycle that is left alone computes exactly what \<open>Poll\<close> computes.\<close>

lemma step_first: "cycle_step w ctx skipSHA scope x y \<Longrightarrow> (cycle_step w ctx skipSHA scope)\<^sup>*\<^sup>* y z \<Longrightarrow>
    (cycle_step w ctx skipSHA scope)\<^sup>*\<^sup>* x z"
  by (rule converse_rtranclp_into_rtranclp)

lemma closing_ends: "finish g r' s = Some (r, t) \<Longrightarrow> (cycle_step w ctx skipSHA scope)\<^sup>*\<^sup>* (Closing g r', s) (Ended r, t)"
  using cycle_step.closed [of w ctx skipSHA scope g r' s] by (auto simp: finish_def)

lemma counting_ends: "finish g PollOk (act (IncPollCycle ''success'') s) = Some (r, t) \<Longrightarrow>
    (cycle_step w ctx skipSHA scope)\<^sup>*\<^sup>* (Counting g, s) (Ended r, t)"
  by (rule step_first [OF cycle_step.counted closing_ends])

lemma saves_steps: "(save_step (WCursorPath w))\<^sup>*\<^sup>* (v, Fs s) (v', f) \<Longrightarrow>
    (cycle_step w ctx skipSHA scope)\<^sup>*\<^sup>* (Saving g v, s) (Saving g v', s\<lparr>Fs := f\<rparr>)"
proof (induction "(v', f)" arbitrary: v' f rule: rtranclp_induct)
  case base
  have "s\<lparr>Fs := Fs s\<rparr> = s" by simp
  then show ?case by simp
next
  case (step y)
  obtain v1 f1 where y: "y = (v1, f1)" by force
  have "cycle_step w ctx skipSHA scope (Saving g v1, s\<lparr>Fs := f1\<rparr>) (Saving g v', s\<lparr>Fs := f1\<rparr>\<lparr>Fs := f\<rparr>)"
    by (rule cycle_step.saves) (use step(2) y in simp)
  then show ?case using step(3) [OF y] by (simp add: rtranclp.rtrancl_into_rtrancl)
qed

lemma saving_ends:
  assumes "after_scan w g (Some '''', c, s) = Some (r, t)"
  shows "(cycle_step w ctx skipSHA scope)\<^sup>*\<^sup>* (Saving g (SaveOpen (json_print (encode_cursor c))), s) (Ended r, t)"
proof -
  let ?u = "s\<lparr>Fs := save_file (WCursorPath w) (json_print (encode_cursor c)) (Fs s)\<rparr>"
  have "finish g PollOk (act (IncPollCycle ''success'') ?u) = Some (r, t)"
    using assms by (simp add: after_scan_def SaveCursor_file)
  from counting_ends [OF this] show ?thesis
    using saves_steps [OF save_ends] cycle_step.saved by (metis step_first rtranclp_trans)
qed

lemma scanning_ends:
  "after_scan w g (processRepos w ctx skipSHA repos c s) = Some (r, t) \<Longrightarrow>
   (cycle_step w ctx skipSHA scope)\<^sup>*\<^sup>* (Scanning g repos c, s) (Ended r, t)"
proof (induction repos arbitrary: c s)
  case Nil
  then show ?case using saving_ends cycle_step.all_scanned by (metis step_first processRepos.simps(1))
next
  case (Cons repo repos)
  obtain st c' u where p: "processRepo w ctx skipSHA repo c s = (st, c', u)" by (metis prod_cases3)
  show ?case
  proof (cases st)
    case Continue
    then have "(cycle_step w ctx skipSHA scope)\<^sup>*\<^sup>* (Scanning g repos c', u) (Ended r, t)"
      using Cons.IH Cons.prems p by simp
    then show ?thesis using cycle_step.turn [OF p [unfolded Continue]] by (rule step_first [rotated])
  next
    case (Return reason)
    note stop = cycle_step.stopped [OF p [unfolded Return], of scope g repos]
    show ?thesis
    proof (cases "reason = ''''")
      case True
      then have "after_scan w g (Some '''', c', u) = Some (r, t)" using Cons.prems p Return by simp
      from saving_ends [OF this] show ?thesis using stop True by (simp add: step_first)
    next
      case False
      then have "finish g PollOk (act (IncPollCycle reason) u) = Some (r, t)"
        using Cons.prems p Return by (simp add: after_scan_def)
      from closing_ends [OF this] show ?thesis using stop False by (simp add: step_first)
    qed
  next
    case Panic
    then have "finish g PollPanic u = Some (r, t)" using Cons.prems p by (simp add: after_scan_def)
    from closing_ends [OF this] show ?thesis
      using cycle_step.panics [OF p [unfolded Panic]] by (rule step_first [rotated])
  qed
qed

lemma resolving_ends:
  assumes "after_gate w ctx skipSHA scope g c s = Some (r, t)"
  shows "(cycle_step w ctx skipSHA scope)\<^sup>*\<^sup>* (Resolving c g, s) (Ended r, t)"
proof -
  obtain rs u where res: "resolveRepos w ctx scope s = Some (rs, u)"
    using assms by (auto simp: after_gate_def split: option.splits)
  show ?thesis
  proof (cases rs)
    case None
    then have "finish g PollOk u = Some (r, t)" using assms res by (simp add: after_gate_def)
    from closing_ends [OF this] show ?thesis by (rule step_first [OF cycle_step.unresolved [OF res [unfolded None]]])
  next
    case (Some repos)
    have "after_scan w g (processRepos w ctx skipSHA repos c (act (IncReposScanned (length repos)) u)) = Some (r, t)"
      using assms res Some by (simp add: after_gate_def)
    from scanning_ends [OF this] show ?thesis by (rule step_first [OF cycle_step.resolved [OF res [unfolded Some]]])
  qed
qed

lemma loaded_ends:
  assumes "after_load w ctx skipSHA scope (RateLimitRemaining (WGh w) s) c s = Some (r, t)"
  shows "(cycle_step w ctx skipSHA scope)\<^sup>*\<^sup>* (Loaded c, s) (Ended r, t)"
proof -
  let ?g = "RateLimitRemaining (WGh w) s"
  have "(cycle_step w ctx skipSHA scope)\<^sup>*\<^sup>* (Armed c ?g, s) (Ended r, t)"
  proof (cases "quota_gate w scope s")
    case True
    then have "finish ?g PollOk (act (IncPollCycle ''quota_low'') s) = Some (r, t)"
      using assms by (simp add: after_load_def)
    from closing_ends [OF this] show ?thesis
      using cycle_step.quota_low [OF True] by (rule step_first [rotated])
  next
    case False
    then have "after_gate w ctx skipSHA scope ?g c s = Some (r, t)" using assms by (simp add: after_load_def)
    from resolving_ends [OF this] show ?thesis
      using cycle_step.quota_ok [OF False] by (rule step_first [rotated])
  qed
  then show ?thesis by (rule step_first [OF cycle_step.armed])
qed

lemma Poll_steps:
  assumes poll: "Poll w ctx skipSHA scope s = Some (r, t)"
  shows "(cycle_step w ctx skipSHA scope)\<^sup>*\<^sup>* (Begin, s) (Ended r, t)"
proof (cases "LoadCursor (WCursorPath w) s")
  case (Inl e)
  then show ?thesis using poll cycle_step.load_fails [OF Inl, of ctx skipSHA scope] by (simp add: Poll_rest r_into_rtranclp)
next
  case (Inr c)
  then have "after_load w ctx skipSHA scope (RateLimitRemaining (WGh w) s) c s = Some (r, t)"
    using poll by (simp add: Poll_rest)
  from loaded_ends [OF this] show ?thesis
    by (rule step_first [OF cycle_step.loaded [OF Inr]])
qed

lemma Poll_is_steps:
  "Poll w ctx skipSHA scope s = Some (r, t) \<longleftrightarrow> (cycle_step w ctx skipSHA scope)\<^sup>*\<^sup>* (Begin, s) (Ended r, t)"
proof
  assume steps: "(cycle_step w ctx skipSHA scope)\<^sup>*\<^sup>* (Begin, s) (Ended r, t)"
  obtain r' t' where poll: "Poll w ctx skipSHA scope s = Some (r', t')"
    using steps_return [OF steps] by auto
  have "(Ended r, t) = (Ended r', t')"
    by (rule steps_to_final [OF cycle_step_det steps Poll_steps [OF poll]]) simp_all
  then show "Poll w ctx skipSHA scope s = Some (r, t)" using poll by simp
qed (rule Poll_steps)


section \<open>An operator's request in small steps\<close>

text \<open>The reset and set handlers load the cursor, change it, and save it as a cycle does.\<close>

datatype edit = ResetEdit string | SetEdit string string

fun edit_cursor :: "edit \<Rightarrow> Cursor \<Rightarrow> Cursor option" where
  "edit_cursor (ResetEdit key) c = (case Repos c of None \<Rightarrow> None
     | Some m \<Rightarrow> if key = '''' \<or> fmlookup m key = None then None else Some (c\<lparr>Repos := Some (fmdrop key m)\<rparr>))"
| "edit_cursor (SetEdit key sha) c =
     (if key = '''' \<or> sha = '''' then None
      else Some (c\<lparr>Repos := Some (fmupd key (Some (emptyRepoState\<lparr>LastSeenMasterSHA := sha\<rparr>))
        (case Repos c of None \<Rightarrow> fmempty | Some m \<Rightarrow> m))\<rparr>))"

datatype edit_state = EditBegin | EditSaving save | EditDone

inductive edit_step ::
    "string \<Rightarrow> edit \<Rightarrow> edit_state \<times> 'w sys \<Rightarrow> edit_state \<times> 'w sys \<Rightarrow> bool" for path op where
  edit_unread: "LoadCursor path s = Inl e \<Longrightarrow> edit_step path op (EditBegin, s) (EditDone, s)"
| edit_refused: "LoadCursor path s = Inr c \<Longrightarrow> edit_cursor op c = None \<Longrightarrow>
    edit_step path op (EditBegin, s) (EditDone, s)"
| edit_made: "LoadCursor path s = Inr c \<Longrightarrow> edit_cursor op c = Some c' \<Longrightarrow>
    edit_step path op (EditBegin, s) (EditSaving (SaveOpen (json_print (encode_cursor c'))), s)"
| edit_saves: "save_step path (v, Fs s) (v', f) \<Longrightarrow>
    edit_step path op (EditSaving v, s) (EditSaving v', s\<lparr>Fs := f\<rparr>)"
| edit_saved: "edit_step path op (EditSaving SaveDone, s) (EditDone, s)"

code_pred (modes: i \<Rightarrow> i \<Rightarrow> i \<Rightarrow> o \<Rightarrow> bool as edit_next) edit_step .

inductive_simps edit_step_done [simp]: "edit_step path op (EditDone, s) x"

definition handle_edit :: "string \<Rightarrow> edit \<Rightarrow> 'w sys \<Rightarrow> 'w sys" where
  "handle_edit path op s = (case op of ResetEdit key \<Rightarrow> snd (ResetCursorHandler path key s)
     | SetEdit key sha \<Rightarrow> snd (SetCursorHandler path key sha s))"

lemma handle_edit_eq: "handle_edit path op s = (case LoadCursor path s of Inl e \<Rightarrow> s
    | Inr c \<Rightarrow> (case edit_cursor op c of None \<Rightarrow> s | Some c' \<Rightarrow> snd (SaveCursor path c' s)))"
  by (cases op)
    (auto simp: handle_edit_def ResetCursorHandler_def SetCursorHandler_def Let_def
      split: sum.split option.split prod.split)

text \<open>A handler that is left alone ends in the state of the model's handler.\<close>

lemma edit_saves_steps: "(save_step path)\<^sup>*\<^sup>* (v, Fs s) (v', f) \<Longrightarrow>
    (edit_step path op)\<^sup>*\<^sup>* (EditSaving v, s) (EditSaving v', s\<lparr>Fs := f\<rparr>)"
proof (induction "(v', f)" arbitrary: v' f rule: rtranclp_induct)
  case base
  have "s\<lparr>Fs := Fs s\<rparr> = s" by simp
  then show ?case by simp
next
  case (step y)
  obtain v1 f1 where y: "y = (v1, f1)" by force
  have "edit_step path op (EditSaving v1, s\<lparr>Fs := f1\<rparr>) (EditSaving v', s\<lparr>Fs := f1\<rparr>\<lparr>Fs := f\<rparr>)"
    by (rule edit_step.edit_saves) (use step(2) y in simp)
  then show ?case using step(3) [OF y] by (simp add: rtranclp.rtrancl_into_rtrancl)
qed

lemma edit_saving_ends: "(edit_step path op)\<^sup>*\<^sup>* (EditSaving (SaveOpen (json_print (encode_cursor c))), s)
    (EditDone, snd (SaveCursor path c s))"
  unfolding SaveCursor_file
  using edit_saves_steps [OF save_ends, of path op] edit_step.edit_saved
  by (rule rtranclp.rtrancl_into_rtrancl)

lemma edit_ends: "(edit_step path op)\<^sup>*\<^sup>* (EditBegin, s) (EditDone, handle_edit path op s)"
proof (cases "LoadCursor path s")
  case (Inl e)
  then show ?thesis using edit_step.edit_unread [OF Inl, of op] by (simp add: handle_edit_eq)
next
  case (Inr c)
  show ?thesis
  proof (cases "edit_cursor op c")
    case None
    then show ?thesis using edit_step.edit_refused [OF Inr None] Inr by (simp add: handle_edit_eq)
  next
    case (Some c')
    then show ?thesis
      using edit_step.edit_made [OF Inr Some] edit_saving_ends [of path op c' s] Inr
      by (simp add: handle_edit_eq converse_rtranclp_into_rtranclp)
  qed
qed

text \<open>The next step is unique, so this is the only way in which it ends.\<close>

lemma edit_step_det: "edit_step path op x y \<Longrightarrow> edit_step path op x z \<Longrightarrow> y = z"
  by (induction rule: edit_step.induct) (auto elim!: edit_step.cases dest: save_step_det)

lemma edit_is_steps: "(edit_step path op)\<^sup>*\<^sup>* (EditBegin, s) (EditDone, t) \<longleftrightarrow> t = handle_edit path op s"
proof
  assume "(edit_step path op)\<^sup>*\<^sup>* (EditBegin, s) (EditDone, t)"
  then have "(EditDone, t) = (EditDone, handle_edit path op s)"
    by (rule steps_to_final [where R = "edit_step path op" and x = "(EditBegin, s)", rotated])
      (rule edit_ends, simp, simp, erule (1) edit_step_det)
  then show "t = handle_edit path op s" by simp
qed (simp add: edit_ends)

section \<open>Interleavings\<close>

datatype 'w thread =
    CycleThread "'w ctx" bool string cycle
  | EditThread edit edit_state

fun edit_event :: "edit \<Rightarrow> 'w event" where
  "edit_event (ResetEdit key) = ResetEvent key"
| "edit_event (SetEdit key sha) = SetEvent key sha"

text \<open>The save of a thread, and what a rename by another thread does to the file it has open.\<close>

fun thread_save :: "'w thread \<Rightarrow> save option" where
  "thread_save (CycleThread ctx force scope (Saving g v)) = Some v"
| "thread_save (EditThread op (EditSaving v)) = Some v"
| "thread_save _ = None"

fun moved_handle :: "handle \<Rightarrow> handle" where
  "moved_handle AtTmp = AtCursor"
| "moved_handle _ = Unlinked"

fun moved_save :: "save \<Rightarrow> save" where
  "moved_save (SaveWrite d n h) = SaveWrite d n (moved_handle h)"
| "moved_save v = v"

fun moved_thread :: "'w thread \<Rightarrow> 'w thread" where
  "moved_thread (CycleThread ctx force scope (Saving g v)) = CycleThread ctx force scope (Saving g (moved_save v))"
| "moved_thread (EditThread op (EditSaving v)) = EditThread op (EditSaving (moved_save v))"
| "moved_thread th = th"

text \<open>The threads after the next step of the \<open>k\<close>-th one, which becomes \<open>th\<close>.\<close>

definition after_step :: "string \<Rightarrow> fs \<Rightarrow> 'w thread list \<Rightarrow> nat \<Rightarrow> 'w thread \<Rightarrow> 'w thread list" where
  "after_step path f ths k th =
     (if thread_save (ths ! k) = Some SaveRename \<and> fst (Rename (tmp_path path) path f) = None
      then map moved_thread ths else ths)[k := th]"

text \<open>
  The concurrent service: a run with threads, from a state in which there are none. A cycle starts
  at a tick or for a command, after the command's build was dispatched; here it may start at any
  time and with any flags. The webhook and trigger handlers touch no file and are single steps. The
  process may be killed at any moment, and with it all its threads; the files stay, and the next
  start is an \<open>OutsideEvent\<close>. The lists of threads satisfy the predicate \<open>ok\<close> all the time;
  without restrictions it is \<open>\<lambda>_. True\<close>.
\<close>

inductive interleaved ::
    "('w thread list \<Rightarrow> bool) \<Rightarrow> 'w platform \<Rightarrow> application \<Rightarrow> 'w gogithub \<Rightarrow> 'w cluster \<Rightarrow> int \<Rightarrow> int
       \<Rightarrow> 'w event list \<Rightarrow> 'w thread list \<Rightarrow> 'w sys \<Rightarrow> 'w sys \<Rightarrow> bool"
  for ok p a api cl interval minInterval where
  idle: "interleaved ok p a api cl interval minInterval [] [] s s"
| spawn_cycle: "interleaved ok p a api cl interval minInterval es ths s t \<Longrightarrow>
    ok (ths @ [CycleThread ctx force scope Begin]) \<Longrightarrow>
    interleaved ok p a api cl interval minInterval es (ths @ [CycleThread ctx force scope Begin]) s t"
| spawn_edit: "interleaved ok p a api cl interval minInterval es ths s t \<Longrightarrow>
    ok (ths @ [EditThread op EditBegin]) \<Longrightarrow>
    interleaved ok p a api cl interval minInterval (es @ [edit_event op]) (ths @ [EditThread op EditBegin]) s t"
| cycle: "interleaved ok p a api cl interval minInterval es ths s t \<Longrightarrow>
    k < length ths \<Longrightarrow> ths ! k = CycleThread ctx force scope pc \<Longrightarrow>
    cycle_step (polling p a api cl) ctx force scope (pc, t) (pc', u) \<Longrightarrow>
    ths' = after_step (AppCursorPath a) (Fs t) ths k (CycleThread ctx force scope pc') \<Longrightarrow> ok ths' \<Longrightarrow>
    interleaved ok p a api cl interval minInterval es ths' s u"
| edit: "interleaved ok p a api cl interval minInterval es ths s t \<Longrightarrow>
    k < length ths \<Longrightarrow> ths ! k = EditThread op st \<Longrightarrow> edit_step (AppCursorPath a) op (st, t) (st', u) \<Longrightarrow>
    ths' = after_step (AppCursorPath a) (Fs t) ths k (EditThread op st') \<Longrightarrow> ok ths' \<Longrightarrow>
    interleaved ok p a api cl interval minInterval es ths' s u"
| killed: "interleaved ok p a api cl interval minInterval es ths s t \<Longrightarrow>
    interleaved ok p a api cl interval minInterval es [] s t"
| build: "interleaved ok p a api cl interval minInterval es ths s t \<Longrightarrow>
    app_dispatcher p api cl req trigger t = (x, u) \<Longrightarrow>
    interleaved ok p a api cl interval minInterval es ths s u"
| event: "interleaved ok p a api cl interval minInterval es ths s t \<Longrightarrow>
    serves p a api cl interval minInterval e t u \<Longrightarrow> e = OutsideEvent \<or> e \<in> range WebhookEvent \<or> e \<in> range TriggerEvent \<Longrightarrow>
    interleaved ok p a api cl interval minInterval (es @ [e]) ths s u"

text \<open>
  A thread is in its saving window from the opening of the temporary file to its rename. The
  code has no lock that would keep the windows apart; \<open>exclusive\<close> says that they are.
\<close>

fun in_window :: "save option \<Rightarrow> bool" where
  "in_window (Some (SaveWrite d n h)) = True"
| "in_window (Some SaveRename) = True"
| "in_window _ = False"

definition exclusive :: "'w thread list \<Rightarrow> bool" where
  "exclusive ths \<longleftrightarrow> length (filter (\<lambda>th. in_window (thread_save th)) ths) \<le> 1"

lemma exclusive_unique:
  assumes "exclusive ths" "i < length ths" "j < length ths" "i \<noteq> j"
    and "in_window (thread_save (ths ! i))"
  shows "\<not> in_window (thread_save (ths ! j))"
proof
  assume j: "in_window (thread_save (ths ! j))"
  let ?P = "\<lambda>th. in_window (thread_save th)"
  have "card {k. k < length ths \<and> ?P (ths ! k)} \<le> 1"
    using assms(1) by (simp add: exclusive_def length_filter_conv_card)
  moreover have "{i, j} \<subseteq> {k. k < length ths \<and> ?P (ths ! k)}" using assms(2-5) j by simp
  ultimately have "card {i, j} \<le> 1" using card_mono [of "{k. k < length ths \<and> ?P (ths ! k)}" "{i, j}"] by simp
  then show False using assms(4) by simp
qed

section \<open>What a step moves\<close>

text \<open>
  A step takes commits into a thread's cursor from its own cursor, from the file, from an
  announcement or from a request. To the files it does nothing but the next step of its save.
\<close>

definition cursor_from :: "string \<Rightarrow> 'w event set \<Rightarrow> Cursor option \<Rightarrow> 'w sys \<Rightarrow> 'w sys \<Rightarrow> Cursor \<Rightarrow> bool" where
  "cursor_from path E own s t c \<longleftrightarrow> (\<forall>k. LastSeenSHA c k \<noteq> [] \<longrightarrow>
     announced (new_acts s t) k (LastSeenSHA c k) \<or> SetEvent k (LastSeenSHA c k) \<in> E
     \<or> (\<exists>c0. (own = Some c0 \<or> LoadCursor path s = Inr c0) \<and> LastSeenSHA c0 k = LastSeenSHA c k))"

definition save_move ::
    "string \<Rightarrow> 'w event set \<Rightarrow> Cursor option \<Rightarrow> save option \<Rightarrow> save option \<Rightarrow> 'w sys \<Rightarrow> 'w sys \<Rightarrow> bool" where
  "save_move path E own sv sv' s t \<longleftrightarrow>
     (\<exists>v v'. sv = Some v \<and> sv' = Some v' \<and> save_step path (v, Fs s) (v', Fs t))
     \<or> Fs t = Fs s \<and> (sv = None \<or> sv = Some SaveDone) \<and> (sv' = None \<or>
          (\<exists>c. sv' = Some (SaveOpen (json_print (encode_cursor c))) \<and> cursor_from path E own s t c))"

definition step_move :: "string \<Rightarrow> 'w event set \<Rightarrow> Cursor option \<Rightarrow> Cursor option \<Rightarrow> save option \<Rightarrow> save option
    \<Rightarrow> 'w sys \<Rightarrow> 'w sys \<Rightarrow> bool" where
  "step_move path E own own' sv sv' s t \<longleftrightarrow> prefix (Acts s) (Acts t)
     \<and> (\<forall>c. own' = Some c \<longrightarrow> cursor_from path E own s t c) \<and> save_move path E own sv sv' s t"

lemma step_move_quiet:
  assumes "prefix (Acts s) (Acts t)" "Fs t = Fs s" "\<And>c. own' = Some c \<Longrightarrow> cursor_from path E own s t c"
    and "sv = None" "sv' = None"
  shows "step_move path E own own' sv sv' s t"
  using assms by (auto simp: step_move_def save_move_def)

lemma step_move_opens:
  assumes "prefix (Acts s) (Acts t)" "Fs t = Fs s" "cursor_from path E own s t c"
  shows "step_move path E own None None (Some (SaveOpen (json_print (encode_cursor c)))) s t"
  using assms by (auto simp: step_move_def save_move_def)

lemma step_move_saves:
  assumes "save_step path (v, Fs s) (v', f)"
  shows "step_move path E None None (Some v) (Some v') s (s\<lparr>Fs := f\<rparr>)"
  using assms by (auto simp: step_move_def save_move_def)

lemma step_move_saved: "step_move path E None None (Some SaveDone) None s s"
  by (simp add: step_move_def save_move_def)

lemma cursor_from_own: "cursor_from path E (Some c) s t c"
  by (auto simp: cursor_from_def)

lemma cursor_from_load: "LoadCursor path s = Inr c \<Longrightarrow> cursor_from path E own s t c"
  by (auto simp: cursor_from_def)

fun cycle_cursor :: "cycle \<Rightarrow> Cursor option" where
  "cycle_cursor (Loaded c) = Some c"
| "cycle_cursor (Armed c g) = Some c"
| "cycle_cursor (Resolving c g) = Some c"
| "cycle_cursor (Scanning g repos c) = Some c"
| "cycle_cursor _ = None"

fun cycle_save :: "cycle \<Rightarrow> save option" where
  "cycle_save (Saving g v) = Some v"
| "cycle_save _ = None"

fun edit_save :: "edit_state \<Rightarrow> save option" where
  "edit_save (EditSaving v) = Some v"
| "edit_save _ = None"

lemma thread_save_cycle [simp]: "thread_save (CycleThread ctx force scope pc) = cycle_save pc"
  by (cases pc) simp_all

lemma thread_save_edit [simp]: "thread_save (EditThread op st) = edit_save st"
  by (cases st) simp_all

lemma repo_move:
  assumes "processRepo (polling p a api cl) ctx force repo c s = (st, c', t)"
  shows "prefix (Acts s) (Acts t)" "Fs t = Fs s" "cursor_from (AppCursorPath a) E (Some c) s t c'"
proof -
  note m = app.processRepo_moves [OF assms]
  show "prefix (Acts s) (Acts t)" "Fs t = Fs s" using m by (simp_all add: extends_def)
  have "LastSeenSHA c' k = LastSeenSHA c k \<or> announced (new_acts s t) k (LastSeenSHA c' k)" for k
    using m cursor_moves_seen announced_sent by blast
  then show "cursor_from (AppCursorPath a) E (Some c) s t c'" unfolding cursor_from_def by metis
qed

lemma resolve_move:
  assumes "resolveRepos (polling p a api cl) ctx scope s = Some (x, t)"
  shows "prefix (Acts s) (Acts t) \<and> Fs t = Fs s"
proof (cases x)
  case None
  then show ?thesis using app.resolveRepos_none [OF assms [unfolded None]] by (auto simp: prefix_def)
next
  case (Some repos)
  then show ?thesis using app.resolveRepos_some [OF assms [unfolded Some]] by (simp add: quiet_def)
qed

lemma act_move: "prefix (Acts s) (Acts t) \<Longrightarrow> prefix (Acts s) (Acts (act x t)) \<and> Fs (act x t) = Fs t"
  by (auto simp: prefix_def)

lemma cycle_step_moves:
  assumes "cycle_step (polling p a api cl) ctx force scope (pc, s) (pc', t)"
  shows "step_move (AppCursorPath a) E (cycle_cursor pc) (cycle_cursor pc') (cycle_save pc) (cycle_save pc') s t"
proof -
  have path: "WCursorPath (polling p a api cl) = AppCursorPath a" by (simp add: app_watcher_sel)
  show ?thesis
    using assms(1)
  proof (cases rule: cycle_step.cases)
    case (loaded c)
    then show ?thesis using cursor_from_load by (intro step_move_quiet) (auto simp: path)
  next
    case (unresolved c g)
    then show ?thesis using resolve_move [OF unresolved(3)] by (intro step_move_quiet) auto
  next
    case (resolved repos t' c g)
    then show ?thesis
      using resolve_move [OF resolved(4)] act_move [of s t'] cursor_from_own by (intro step_move_quiet) auto
  next
    case (turn repo c c' g repos)
    then show ?thesis using repo_move [OF turn(3)] by (intro step_move_quiet) auto
  next
    case (stopped repo c reason c' t' g repos)
    note m = repo_move [OF stopped(3)]
    show ?thesis
    proof (cases "reason = []")
      case True
      then show ?thesis using stopped step_move_opens [OF m] by simp
    next
      case False
      then show ?thesis using stopped m act_move [OF m(1)] by (intro step_move_quiet) auto
    qed
  next
    case (panics repo c c' g repos)
    then show ?thesis using repo_move [OF panics(3)] by (intro step_move_quiet) auto
  next
    case (all_scanned g c)
    then show ?thesis by (simp add: step_move_opens [OF _ _ cursor_from_own])
  next
    case (saves v v' f g)
    then show ?thesis using step_move_saves by (simp add: path)
  next
    case (saved g)
    then show ?thesis using step_move_saved by simp
  qed (auto intro!: step_move_quiet cursor_from_own)
qed

lemma edit_step_moves:
  assumes "edit_step path op (st, s) (st', t)" "edit_event op \<in> E"
  shows "step_move path E None None (edit_save st) (edit_save st') s t"
  using assms(1)
proof (cases rule: edit_step.cases)
  case (edit_made c c')
  have "cursor_from path E None s t c'"
    using edit_made assms(2)
    by (cases op) (auto simp: cursor_from_def LastSeenSHA_def repo_entry_def split: option.splits if_splits)
  then show ?thesis unfolding edit_made edit_save.simps by (rule step_move_opens [rotated 2]) simp_all
next
  case (edit_saves v v' f)
  then show ?thesis using step_move_saves by simp
next
  case edit_saved
  then show ?thesis using step_move_saved by simp
qed (auto intro!: step_move_quiet)

section \<open>The invariant of an interleaving\<close>

text \<open>Each commit of a cursor was announced or set, as it is or with its invalid bytes replaced.\<close>

definition origin :: "'w event set \<Rightarrow> action list \<Rightarrow> Cursor \<Rightarrow> bool" where
  "origin E as c \<longleftrightarrow> (\<forall>key. LastSeenSHA c key \<noteq> [] \<longrightarrow>
     (\<exists>k sha. (announced as k sha \<or> SetEvent k sha \<in> E)
        \<and> (k = key \<and> sha = LastSeenSHA c key \<or> clean k = key \<and> clean sha = LastSeenSHA c key)))"

lemma origin_mono: "origin E as c \<Longrightarrow> E \<subseteq> E' \<Longrightarrow> set as \<subseteq> set bs \<Longrightarrow> origin E' bs c"
  unfolding origin_def using announced_mono by (metis subsetD)

lemma clean_clean [simp]: "clean (clean x) = clean x"
  by (simp add: clean_valid valid_utf8_clean)

lemma origin_clean:
  assumes "origin E as c" "LastSeenSHA (clean_cursor c) key \<noteq> []"
  shows "\<exists>k sha. clean k = key \<and> clean sha = LastSeenSHA (clean_cursor c) key
    \<and> (announced as k sha \<or> SetEvent k sha \<in> E)"
proof -
  obtain k0 where k0: "clean k0 = key" "LastSeenSHA (clean_cursor c) key = clean (LastSeenSHA c k0)"
    "LastSeenSHA c k0 \<noteq> []" using assms(2) LastSeenSHA_clean_origin [of c key] by (metis clean_names(2))
  then obtain k sha where "announced as k sha \<or> SetEvent k sha \<in> E"
    "k = k0 \<and> sha = LastSeenSHA c k0 \<or> clean k = k0 \<and> clean sha = LastSeenSHA c k0"
    using assms(1) unfolding origin_def by blast
  then show ?thesis using k0(1,2) by (metis clean_clean)
qed

text \<open>
  The text of a good cursor; the cursor file always holds one. The temporary file may hold
  anything, but not while one thread alone is between opening and renaming it.
\<close>

definition text_ok :: "'w event set \<Rightarrow> action list \<Rightarrow> string \<Rightarrow> bool" where
  "text_ok E as d \<longleftrightarrow> (\<exists>c. d = json_print (encode_cursor c) \<and> origin E as c)"

definition good_file :: "string \<Rightarrow> 'w event set \<Rightarrow> action list \<Rightarrow> fs \<Rightarrow> bool" where
  "good_file path E as f \<longleftrightarrow> (\<forall>d. files f path = Some d \<longrightarrow> text_ok E as d)"

fun save_ok :: "string \<Rightarrow> 'w event set \<Rightarrow> action list \<Rightarrow> fs \<Rightarrow> save option \<Rightarrow> bool" where
  "save_ok path E as f (Some (SaveOpen d)) \<longleftrightarrow> text_ok E as d"
| "save_ok path E as f (Some (SaveWrite d n h)) \<longleftrightarrow>
     text_ok E as d \<and> h = AtTmp \<and> n \<le> length d \<and> files f (tmp_path path) = Some (take n d)"
| "save_ok path E as f (Some SaveRename) \<longleftrightarrow> (\<exists>d. text_ok E as d \<and> files f (tmp_path path) = Some d)"
| "save_ok path E as f _ \<longleftrightarrow> True"

lemma text_ok_mono: "text_ok E as d \<Longrightarrow> E \<subseteq> E' \<Longrightarrow> set as \<subseteq> set bs \<Longrightarrow> text_ok E' bs d"
  unfolding text_ok_def using origin_mono by blast

lemma save_ok_mono: "save_ok path E as f v \<Longrightarrow> E \<subseteq> E' \<Longrightarrow> set as \<subseteq> set bs \<Longrightarrow> save_ok path E' bs f v"
  using text_ok_mono by (induction path E as f v rule: save_ok.induct) auto

lemma good_file_mono: "good_file path E as f \<Longrightarrow> E \<subseteq> E' \<Longrightarrow> set as \<subseteq> set bs \<Longrightarrow> good_file path E' bs f"
  unfolding good_file_def using text_ok_mono by blast

text \<open>A save keeps the temporary file a prefix of its text, and installs it complete or not at all.\<close>

lemma save_step_ok:
  assumes "save_step path (v, f) (v', f')" "save_ok path E as f (Some v)" "good_file path E as f"
  shows "save_ok path E as f' (Some v') \<and> good_file path E as f'"
  using assms(1)
proof (cases rule: save_step.cases)
  case (opened d)
  then show ?thesis using assms by (auto simp: good_file_def tmp_path_def)
next
  case (wrote n d h)
  then have "n < length d" using write_limit_le [of path d f] by simp
  then show ?thesis using wrote assms by (auto simp: good_file_def put_next_byte tmp_path_def)
next
  case (written d n h)
  then have "length d \<le> n"
    by (auto simp: write_limit_def write_broken_def split: option.splits write_fault.splits)
  then show ?thesis using written assms by auto
next
  case renamed
  then show ?thesis using assms by (auto simp: good_file_def Rename_def split: option.splits)
qed (use assms in auto)

text \<open>Outside its window a thread leaves the temporary file alone.\<close>

lemma save_step_tmp:
  "save_step path (v, f) (v', f') \<Longrightarrow> \<not> in_window (Some v) \<Longrightarrow> \<not> in_window (Some v') \<Longrightarrow> f' = f"
  by (erule save_step.cases) auto

lemma save_ok_outside: "\<not> in_window v \<Longrightarrow> save_ok path E as f v \<Longrightarrow> save_ok path E as f' v"
  by (cases v rule: in_window.cases) auto

lemma good_load:
  assumes "good_file path E as (Fs t)" "LoadCursor path t = Inr c" "LastSeenSHA c key \<noteq> []"
  shows "\<exists>k sha. clean k = key \<and> clean sha = LastSeenSHA c key \<and> (announced as k sha \<or> SetEvent k sha \<in> E)"
proof -
  obtain d c1 where d: "files (Fs t) path = Some d" "unmarshal_cursor d = Inr c1"
    "LastSeenSHA c1 key = LastSeenSHA c key" using LoadCursor_source [OF assms(2,3)] by blast
  then obtain c2 where "d = json_print (encode_cursor c2)" "origin E as c2"
    using assms(1) unfolding good_file_def text_ok_def by blast
  then show ?thesis using d origin_clean [of E as c2 key] assms(3) by (simp add: unmarshal_marshal_cursor)
qed

lemma good_file_load:
  assumes "good_file path E as (Fs t)" "readFault (Fs t) path = None"
  obtains c where "LoadCursor path t = Inr c"
proof (cases "files (Fs t) path")
  case None
  then show thesis using that assms(2) by (simp add: LoadCursor_def ReadFile_def)
next
  case (Some d)
  then obtain c where "d = json_print (encode_cursor c)" using assms(1) unfolding good_file_def text_ok_def by blast
  then show thesis using Some assms(2) that by (simp add: LoadCursor_def ReadFile_def unmarshal_marshal_cursor)
qed

fun own_cursor :: "'w thread \<Rightarrow> Cursor option" where
  "own_cursor (CycleThread ctx force scope pc) = cycle_cursor pc"
| "own_cursor (EditThread op st) = None"

fun requested :: "'w event set \<Rightarrow> 'w thread \<Rightarrow> bool" where
  "requested E (CycleThread ctx force scope pc) \<longleftrightarrow> True"
| "requested E (EditThread op st) \<longleftrightarrow> edit_event op \<in> E"

definition thread_ok :: "string \<Rightarrow> 'w event set \<Rightarrow> action list \<Rightarrow> fs \<Rightarrow> 'w thread \<Rightarrow> bool" where
  "thread_ok path E as f th \<longleftrightarrow> requested E th \<and> (\<forall>c. own_cursor th = Some c \<longrightarrow> origin E as c)
     \<and> save_ok path E as f (thread_save th)"

lemma thread_ok_mono:
  assumes "thread_ok path E as f th" "E \<subseteq> E'" "set as \<subseteq> set bs"
  shows "thread_ok path E' bs f th"
  using assms origin_mono [OF _ assms(2,3)] save_ok_mono [OF _ assms(2,3)]
  unfolding thread_ok_def by (cases th) auto

definition interleaving_ok :: "string \<Rightarrow> 'w event list \<Rightarrow> 'w thread list \<Rightarrow> 'w sys \<Rightarrow> 'w sys \<Rightarrow> bool" where
  "interleaving_ok path es ths s t \<longleftrightarrow> prefix (Acts s) (Acts t) \<and> exclusive ths
     \<and> good_file path (set es) (new_acts s t) (Fs t)
     \<and> (\<forall>th\<in>set ths. thread_ok path (set es) (new_acts s t) (Fs t) th)"

lemma new_acts_chain:
  assumes "prefix (Acts s) (Acts t)" "prefix (Acts t) (Acts u)"
  shows "set (new_acts s t) \<subseteq> set (new_acts s u)" "set (new_acts t u) \<subseteq> set (new_acts s u)"
  using assms by (auto simp: new_acts_def elim!: prefixE)

text \<open>The commits a cursor took over in one step are accounted for when the ones it came from were.\<close>

lemma cursor_from_origin:
  assumes "cursor_from path E own t u c" "good_file path E as (Fs t)"
    and "\<And>c. own = Some c \<Longrightarrow> origin E as c" "set (new_acts t u) \<subseteq> set as"
  shows "origin E as c"
  unfolding origin_def
proof (intro allI impI)
  fix key assume key: "LastSeenSHA c key \<noteq> []"
  consider "announced (new_acts t u) key (LastSeenSHA c key)" | "SetEvent key (LastSeenSHA c key) \<in> E"
    | c0 where "own = Some c0" "LastSeenSHA c0 key = LastSeenSHA c key"
    | c0 where "LoadCursor path t = Inr c0" "LastSeenSHA c0 key = LastSeenSHA c key"
    using assms(1) key unfolding cursor_from_def by blast
  then show "\<exists>k sha. (announced as k sha \<or> SetEvent k sha \<in> E)
      \<and> (k = key \<and> sha = LastSeenSHA c key \<or> clean k = key \<and> clean sha = LastSeenSHA c key)"
  proof cases
    case 1
    then show ?thesis using announced_mono [OF _ assms(4)] by blast
  next
    case 2
    then show ?thesis by blast
  next
    case (3 c0)
    then show ?thesis using assms(3) [of c0] key unfolding origin_def by metis
  next
    case (4 c0)
    then show ?thesis using good_load [OF assms(2) 4(1), of key] key by metis
  qed
qed

lemma save_ok_same: "files f = files g \<Longrightarrow> save_ok path E as f v = save_ok path E as g v"
  by (cases v rule: in_window.cases) auto

lemma move_keeps:
  assumes own: "thread_ok path E as (Fs t) (ths ! k)" and good: "good_file path E as (Fs t)"
    and move: "step_move path E (own_cursor (ths ! k)) (own_cursor th) (thread_save (ths ! k)) (thread_save th) t u"
    and req: "requested E (ths ! k) \<Longrightarrow> requested E th" and new: "set (new_acts t u) \<subseteq> set as"
  shows "thread_ok path E as (Fs u) th \<and> good_file path E as (Fs u)"
proof -
  let ?sv = "thread_save (ths ! k)" and ?sv' = "thread_save th"
  have orig: "origin E as c" if "cursor_from path E (own_cursor (ths ! k)) t u c" for c
    using cursor_from_origin [OF that good _ new] own unfolding thread_ok_def by blast
  have "save_move path E (own_cursor (ths ! k)) ?sv ?sv' t u" using move by (simp add: step_move_def)
  then have "save_ok path E as (Fs u) ?sv' \<and> good_file path E as (Fs u)"
    unfolding save_move_def
  proof (elim disjE exE conjE)
    fix v v' assume v: "?sv = Some v" "?sv' = Some v'" "save_step path (v, Fs t) (v', Fs u)"
    then show ?thesis using save_step_ok [OF v(3) _ good] own by (simp add: thread_ok_def)
  next
    fix c assume "Fs u = Fs t" "?sv' = Some (SaveOpen (json_print (encode_cursor c)))"
      "cursor_from path E (own_cursor (ths ! k)) t u c"
    then show ?thesis using orig good by (auto simp: text_ok_def)
  qed (use good orig in \<open>auto simp: text_ok_def\<close>)
  then show ?thesis using move req own orig unfolding thread_ok_def step_move_def by blast
qed

lemma moved_thread_window [simp]: "in_window (thread_save (moved_thread th)) = in_window (thread_save th)"
proof -
  have "in_window (Some (moved_save v)) = in_window (Some v)" for v by (cases v) simp_all
  then show ?thesis by (cases th rule: moved_thread.cases) simp_all
qed

lemma moved_thread_outside: "\<not> in_window (thread_save th) \<Longrightarrow> moved_thread th = th"
proof -
  have "\<not> in_window (Some v) \<Longrightarrow> moved_save v = v" for v by (cases v) simp_all
  then show "\<not> in_window (thread_save th) \<Longrightarrow> moved_thread th = th" by (cases th rule: moved_thread.cases) simp_all
qed

lemma after_step_nth: "j < length ths \<Longrightarrow> after_step path f ths k th ! j =
    (if j = k then th
     else if thread_save (ths ! k) = Some SaveRename \<and> fst (Rename (tmp_path path) path f) = None
     then moved_thread (ths ! j) else ths ! j)"
  by (simp add: after_step_def)

lemma length_after_step [simp]: "length (after_step path f ths k th) = length ths"
  by (simp add: after_step_def)

text \<open>Threads other than the one that moves: the one in its window finds its temporary file untouched.\<close>

lemma others_keep:
  assumes ex: "exclusive ths" "exclusive (after_step path (Fs t) ths k th)"
    and k: "k < length ths" and j: "j < length ths" "j \<noteq> k"
    and ok: "thread_ok path E as (Fs t) (ths ! j)"
    and move: "save_move path E own (thread_save (ths ! k)) (thread_save th) t u"
  shows "thread_ok path E as (Fs u) (after_step path (Fs t) ths k th ! j)"
proof (cases "in_window (thread_save (ths ! j))")
  case True
  have out: "\<not> in_window (thread_save (ths ! k))" using exclusive_unique [OF ex(1) j(1) k j(2) True] .
  have "in_window (thread_save (after_step path (Fs t) ths k th ! j))"
    using True j by (simp add: after_step_nth)
  then have "\<not> in_window (thread_save th)"
    using exclusive_unique [OF ex(2), of j k] j k by (simp add: after_step_nth)
  then have "Fs u = Fs t" using move out save_step_tmp unfolding save_move_def by (metis prod.collapse)
  moreover have "thread_save (ths ! k) \<noteq> Some SaveRename" using out by auto
  ultimately show ?thesis using ok j by (simp add: after_step_nth)
next
  case False
  then have "after_step path (Fs t) ths k th ! j = ths ! j"
    using j moved_thread_outside [OF False] by (simp add: after_step_nth)
  then show ?thesis using ok save_ok_outside [OF False, of path E as "Fs t" "Fs u"] unfolding thread_ok_def by simp
qed

lemma thread_step_ok:
  assumes inv: "interleaving_ok path es ths s t" and k: "k < length ths"
    and move: "step_move path (set es) (own_cursor (ths ! k)) (own_cursor th)
      (thread_save (ths ! k)) (thread_save th) t u"
    and req: "requested (set es) (ths ! k) \<Longrightarrow> requested (set es) th"
    and ex: "exclusive (after_step path (Fs t) ths k th)"
  shows "interleaving_ok path es (after_step path (Fs t) ths k th) s u"
proof -
  let ?as = "new_acts s u" and ?ths' = "after_step path (Fs t) ths k th"
  have pre: "prefix (Acts s) (Acts t)" "prefix (Acts t) (Acts u)"
    using inv move by (simp_all add: interleaving_ok_def step_move_def)
  note new = new_acts_chain [OF pre]
  have good: "good_file path (set es) ?as (Fs t)"
    using inv good_file_mono [OF _ _ new(1)] unfolding interleaving_ok_def by blast
  have all: "thread_ok path (set es) ?as (Fs t) (ths ! j)" if "j < length ths" for j
    using inv thread_ok_mono [OF _ _ new(1)] nth_mem [OF that] unfolding interleaving_ok_def by blast
  note keep = move_keeps [OF all [OF k] good move req new(2)]
  have "thread_ok path (set es) ?as (Fs u) (?ths' ! j)" if "j < length ths" for j
  proof (cases "j = k")
    case True
    then show ?thesis using keep k by (simp add: after_step_nth)
  next
    case False
    have "exclusive ths" using inv by (simp add: interleaving_ok_def)
    moreover have "save_move path (set es) (own_cursor (ths ! k)) (thread_save (ths ! k)) (thread_save th) t u"
      using move by (simp add: step_move_def)
    ultimately show ?thesis using others_keep [OF _ ex k that False all [OF that]] by blast
  qed
  then have "\<forall>th'\<in>set ?ths'. thread_ok path (set es) ?as (Fs u) th'"
    by (simp add: all_set_conv_all_nth)
  then show ?thesis
    using keep ex prefix_order.trans [OF pre] unfolding interleaving_ok_def by blast
qed

lemma quiet_step_ok:
  assumes inv: "interleaving_ok path es ths s t" and acts: "prefix (Acts t) (Acts u)"
    and same: "files (Fs u) = files (Fs t)"
  shows "interleaving_ok path (es @ fs) ths s u"
proof -
  have pre: "prefix (Acts s) (Acts t)" using inv by (simp add: interleaving_ok_def)
  note new = new_acts_chain(1) [OF pre acts]
  have sub: "set es \<subseteq> set (es @ fs)" by simp
  have th: "thread_ok path (set (es @ fs)) (new_acts s u) (Fs u) th" if "th \<in> set ths" for th
  proof -
    have "thread_ok path (set es) (new_acts s t) (Fs t) th" using inv that by (simp add: interleaving_ok_def)
    then have "thread_ok path (set (es @ fs)) (new_acts s u) (Fs t) th" by (rule thread_ok_mono [OF _ sub new])
    then show ?thesis by (simp add: thread_ok_def save_ok_same [OF same])
  qed
  have "good_file path (set es) (new_acts s t) (Fs t)" using inv by (simp add: interleaving_ok_def)
  then have "good_file path (set (es @ fs)) (new_acts s u) (Fs t)" by (rule good_file_mono [OF _ sub new])
  then have "good_file path (set (es @ fs)) (new_acts s u) (Fs u)" by (simp add: good_file_def same)
  then show ?thesis
    using inv prefix_order.trans [OF pre acts] th by (simp add: interleaving_ok_def)
qed

lemma spawn_ok:
  assumes "interleaving_ok path es ths s t" "requested (set (es @ fs)) th"
    and "own_cursor th = None" "thread_save th = None" "exclusive (ths @ [th])"
  shows "interleaving_ok path (es @ fs) (ths @ [th]) s t"
  using quiet_step_ok [OF assms(1), of t fs] assms(2-) by (simp add: interleaving_ok_def thread_ok_def)

lemma event_files:
  assumes "serves p a api cl i wi e t u" "e = OutsideEvent \<or> e \<in> range WebhookEvent \<or> e \<in> range TriggerEvent"
  shows "prefix (Acts t) (Acts u) \<and> files (Fs u) = files (Fs t)"
  using assms
proof (induction rule: serves.induct)
  case (webhook req s reply t)
  then show ?case using Webhook_step [OF _ webhook(1) [unfolded service_sel]]
    by (simp add: CreateWebhookHandler_def NewWebhookHandler_def)
next
  case (trigger req s reply t)
  then show ?case using Trigger_step [OF trigger(1) [unfolded service_sel]] by (simp add: extends_def)
qed auto

lemma interleaved_inv:
  assumes "interleaved exclusive p a api cl i wi es ths s t" and "files (Fs s) (AppCursorPath a) = None"
  shows "interleaving_ok (AppCursorPath a) es ths s t"
  using assms
proof (induction rule: interleaved.induct)
  case (idle s)
  then show ?case by (simp add: interleaving_ok_def good_file_def exclusive_def)
next
  case (spawn_cycle es ths s t ctx force scope)
  then show ?case using spawn_ok [of _ es ths s t "[]"] by simp
next
  case (spawn_edit es ths s t op)
  then show ?case using spawn_ok [of _ es ths s t "[edit_event op]"] by simp
next
  case (cycle es ths s t k ctx force scope pc pc' u ths')
  then have inv: "interleaving_ok (AppCursorPath a) es ths s t" by blast
  show ?case
    using thread_step_ok [OF inv cycle(2), of "CycleThread ctx force scope pc'" u]
      cycle_step_moves [OF cycle(4), of "set es"] cycle(3,5,6) by simp
next
  case (edit es ths s t k op st st' u ths')
  then have inv: "interleaving_ok (AppCursorPath a) es ths s t" by blast
  then have "requested (set es) (ths ! k)" using edit(2) by (simp add: interleaving_ok_def thread_ok_def)
  then have op: "edit_event op \<in> set es" by (simp add: edit(3))
  show ?case
    using thread_step_ok [OF inv edit(2), of "EditThread op st'" u]
      edit_step_moves [OF edit(4) op] edit(3,5,6) by simp
next
  case (killed es ths s t)
  then show ?case by (simp add: interleaving_ok_def exclusive_def)
next
  case (build es ths s t req trigger x u)
  have "extends t u" using build_dispatcher.dispatch_acts [OF app_builds build(2)] by blast
  then show ?case using build quiet_step_ok [of _ es ths s t u "[]"] by (simp add: extends_def)
next
  case (event es ths s t e u)
  then show ?case using quiet_step_ok [of _ es ths s t u "[e]"] event_files by blast
qed

end
