(* ===== verification/Delivery.thy ===== *)
theory Delivery
  imports Service
begin

text \<open>
  The way of a command: from a request that was accepted, through the event codec and the
  command object that was handed to Kafka, to what the executor of the consumer does with that
  object. The queue in between is not part of the program; the theory says what the object
  carries and that handling it, in whatever state and at whatever time, does the work.
\<close>

text \<open>
  What the codec and the command creator of the cqrs package promise: a command whose strings are
  valid UTF-8 survives the event, and a new command carries its operation and its event.
\<close>

definition codec_ok :: "'w cqrs \<Rightarrow> bool" where
  "codec_ok q \<longleftrightarrow> (\<forall>cmd event. valid_utf8 (Scope cmd) \<longrightarrow> valid_utf8 (Tag cmd) \<longrightarrow> ParseEvent q cmd = Inr event
       \<longrightarrow> MarshalInto q event = Inr cmd)
     \<and> (\<forall>op initiator x event w c w'. NewCommandCreator q op initiator x event w = (c, w')
       \<longrightarrow> Operation c = op \<and> Data c = event)"

text \<open>
  The object was made from a command created in the world \<open>x\<close>, and the sender for the topics of
  the prefix took it and left the world \<open>y\<close>.
\<close>

definition handed_over :: "'w cqrs \<Rightarrow> string \<Rightarrow> CommandObject \<Rightarrow> 'w \<Rightarrow> 'w \<Rightarrow> bool" where
  "handed_over q topicPrefix obj x y \<longleftrightarrow> (\<exists>initiator event w.
     NewCommandCreator q TriggerReleaseCheckCommandOperation initiator [] event x = (ObjCommand obj, w)
     \<and> NewCommandObjectSender q topicPrefix obj w = (None, y))"

text \<open>
  The work a command stands for, as a relation: a tag is dispatched first; unless that failed, one
  cycle follows for the command's scope and force flag, whose error is the result's.
\<close>

definition work_done ::
    "'w watcher \<Rightarrow> 'w Dispatcher \<Rightarrow> 'w ctx \<Rightarrow> TriggerReleaseCheckCommand \<Rightarrow> 'w sys \<Rightarrow> poll_result \<Rightarrow> 'w sys \<Rightarrow> bool" where
  "work_done w dispatch ctx cmd s r t \<longleftrightarrow> (\<exists>d u.
     (if Tag cmd = '''' then d = None \<and> u = s
      else dispatch \<lparr>ReqRepo = Scope cmd, ReqTag = Tag cmd\<rparr> TriggerWebhook s = (d, u))
     \<and> (case d of
          Some e \<Rightarrow> t = u \<and> (\<exists>e'. r = PollErr e')
        | None \<Rightarrow> \<exists>r'. Poll w ctx (Force cmd) (Scope cmd) u = Some (r', t)
            \<and> ((\<exists>e. r = PollErr e) \<longleftrightarrow> (\<exists>e. r' = PollErr e)) \<and> (r = PollPanic \<longleftrightarrow> r' = PollPanic)))"

section \<open>The sender\<close>

lemma SendCommand_hands_over:
  assumes "codec_ok q" "SendCommand q (CreateTriggerReleaseCheckCommandSender q topicPrefix) cmd s = (None, t)"
    and "valid_utf8 (Scope cmd)" "valid_utf8 (Tag cmd)"
  obtains obj where "handed_over q topicPrefix obj (Ext s) (Ext t)" "SchemaID obj = GithubReleaserV1SchemaID q"
    "Operation (ObjCommand obj) = TriggerReleaseCheckCommandOperation" "unmarshalAndValidate q obj = Inr cmd"
proof -
  let ?sd = "CreateTriggerReleaseCheckCommandSender q topicPrefix"
  have sd: "SndCreator ?sd = NewCommandCreator q" "SndObjectSender ?sd = NewCommandObjectSender q topicPrefix"
    by (simp_all add: CreateTriggerReleaseCheckCommandSender_def NewTriggerReleaseCheckCommandSender_def)
  obtain event where event: "ParseEvent q cmd = Inr event"
    using assms(2) by (auto simp: SendCommand_def Command_Validate_def split: sum.splits)
  obtain c w where c: "NewCommandCreator q TriggerReleaseCheckCommandOperation (SndInitiator ?sd) '''' event (Ext s) = (c, w)"
    by fastforce
  define obj where "obj = \<lparr>ObjCommand = c, SchemaID = GithubReleaserV1SchemaID q\<rparr>"
  obtain x w' where x: "NewCommandObjectSender q topicPrefix obj w = (x, w')" by fastforce
  have "x = None \<and> Ext t = w'"
    using assms(2) x c by (auto simp: SendCommand_def Command_Validate_def event sd world_call_def obj_def split: option.splits)
  then have "handed_over q topicPrefix obj (Ext s) (Ext t)"
    using x c unfolding handed_over_def by (auto simp: obj_def)
  moreover have "Operation c = TriggerReleaseCheckCommandOperation" "Data c = event"
    using assms(1) c unfolding codec_ok_def by blast+
  moreover have "MarshalInto q event = Inr cmd"
    using assms(1,3,4) event unfolding codec_ok_def by blast
  ultimately show thesis
    by (intro that [of obj]) (simp_all add: obj_def unmarshalAndValidate_def Command_Validate_def)
qed

section \<open>The executor\<close>

text \<open>A cycle for one repository always returns: only the listing may not.\<close>

lemma Poll_scoped_returns: "scope \<noteq> '''' \<Longrightarrow> \<exists>r t. Poll w ctx skipSHA scope s = Some (r, t)"
  by (simp add: Poll_def resolveRepos_def Let_def split: sum.split option.split prod.split)

lemma runTriggerReleaseCheck_works:
  assumes "unmarshalAndValidate q obj = Inr cmd" "runTriggerReleaseCheck q w dispatch ctx obj s = Some (r, t)"
  shows "work_done w dispatch ctx cmd s r t"
proof -
  obtain d u where d: "(if Tag cmd \<noteq> '''' then dispatch \<lparr>ReqRepo = Scope cmd, ReqTag = Tag cmd\<rparr> TriggerWebhook s
      else (None, s)) = (d, u)" by fastforce
  have "if Tag cmd = '''' then d = None \<and> u = s
      else dispatch \<lparr>ReqRepo = Scope cmd, ReqTag = Tag cmd\<rparr> TriggerWebhook s = (d, u)"
    using d by (auto split: if_splits)
  moreover have "case d of Some e \<Rightarrow> t = u \<and> (\<exists>e'. r = PollErr e')
        | None \<Rightarrow> \<exists>r'. Poll w ctx (Force cmd) (Scope cmd) u = Some (r', t)
            \<and> ((\<exists>e. r = PollErr e) \<longleftrightarrow> (\<exists>e. r' = PollErr e)) \<and> (r = PollPanic \<longleftrightarrow> r' = PollPanic)"
    using assms(2) unfolding runTriggerReleaseCheck_def assms(1) sum.case d prod.case
    by (auto split: option.splits poll_result.splits)
  ultimately show ?thesis unfolding work_done_def by blast
qed

lemma runTriggerReleaseCheck_returns:
  assumes "unmarshalAndValidate q obj = Inr cmd" "Scope cmd \<noteq> []"
  shows "\<exists>r t. runTriggerReleaseCheck q w dispatch ctx obj s = Some (r, t)"
proof -
  obtain d u where d: "(if Tag cmd \<noteq> [] then dispatch \<lparr>ReqRepo = Scope cmd, ReqTag = Tag cmd\<rparr> TriggerWebhook s
      else (None, s)) = (d, u)" by fastforce
  obtain r t where "Poll w ctx (Force cmd) (Scope cmd) u = Some (r, t)"
    using Poll_scoped_returns [OF assms(2)] by blast
  then show ?thesis
    unfolding runTriggerReleaseCheck_def assms(1) sum.case d prod.case
    by (cases d; cases r) simp_all
qed

section \<open>What the webhook decodes is valid UTF-8\<close>

lemma decode_string_valid:
  "decode_string old v = Inr x \<Longrightarrow> json_valid v \<Longrightarrow> valid_utf8 old \<Longrightarrow> valid_utf8 x"
  by (auto simp: decode_string_def split: json.splits)

lemma decode_repository_valid:
  "decode_repository ms n = Inr x \<Longrightarrow> list_all (\<lambda>(k, v). valid_utf8 k \<and> json_valid v) ms \<Longrightarrow> valid_utf8 n \<Longrightarrow> valid_utf8 x"
  by (induction ms n rule: decode_repository.induct)
    (auto dest: decode_string_valid split: option.splits sum.splits)

lemma decode_push_field_valid:
  assumes "decode_push_field f v p = Inr p'" "json_valid v" "valid_utf8 (FullName p)" "valid_utf8 (PushRef p)"
  shows "valid_utf8 (FullName p') \<and> valid_utf8 (PushRef p')"
proof -
  have ms: "map_sum id g x = Inr y \<longleftrightarrow> (\<exists>z. x = Inr z \<and> y = g z)" for g :: "'c \<Rightarrow> 'd" and x :: "'e + 'c" and y
    by (cases x) auto
  show ?thesis using assms
    by (auto simp: decode_push_field_def ms dest: decode_string_valid decode_repository_valid
        split: if_splits json.splits)
qed

lemma decode_push_fields_valid:
  "decode_push_fields ms p = Inr p' \<Longrightarrow> list_all (\<lambda>(k, v). valid_utf8 k \<and> json_valid v) ms \<Longrightarrow>
     valid_utf8 (FullName p) \<Longrightarrow> valid_utf8 (PushRef p) \<Longrightarrow> valid_utf8 (FullName p') \<and> valid_utf8 (PushRef p')"
proof (induction ms p rule: decode_push_fields.induct)
  case (2 k v ms p)
  show ?case
  proof (cases "field_of [''ref'', ''repository'', ''commits''] k")
    case None
    then show ?thesis using 2 by simp
  next
    case (Some f)
    then obtain q where q: "decode_push_field f v p = Inr q" "decode_push_fields ms q = Inr p'"
      using "2.prems"(1) by (auto split: sum.splits)
    have "valid_utf8 (FullName q) \<and> valid_utf8 (PushRef q)"
      by (rule decode_push_field_valid [OF q(1)]) (use "2.prems" in auto)
    then show ?thesis using "2.IH"(2) [OF Some q(1) q(2)] "2.prems"(2) by simp
  qed
qed simp

lemma unmarshal_push_valid:
  assumes "unmarshal_push body = Inr p"
  shows "valid_utf8 (FullName p) \<and> valid_utf8 (PushRef p)"
proof -
  obtain v where v: "json_parse body = Some v" using assms by (auto simp: unmarshal_push_def Let_def split: option.splits)
  have e: "valid_utf8 ''''" by (simp add: valid_utf8_def)
  have "json_valid v" by (rule json_parse_valid [OF v])
  then show ?thesis using assms e
    by (cases v) (auto simp: unmarshal_push_def v dest: decode_push_fields_valid)
qed

lemma valid_utf8_tag: "valid_utf8 (tagRefPrefix @ tag) \<longleftrightarrow> valid_utf8 tag"
  by (simp add: tagRefPrefix_def valid_utf8_ascii_Cons)

section \<open>From the request to the work\<close>

text \<open>The webhook answered 202: the command of the delivery went out, and both its strings are valid.\<close>

lemma Webhook_dispatched:
  assumes "Webhook_ServeHTTP h req s = (Inr writeWebhookDispatched, t)"
  obtains payload tag u v where "unmarshal_push (BodyBytes (ReqBody req)) = Inr payload" "FullName payload \<noteq> ''''"
    "if tag = '''' then touchesReleaseFiles payload else PushRef payload = tagRefPrefix @ tag"
    "WhSender h \<lparr>Scope = FullName payload, Force = False, Tag = tag\<rparr> u = (None, v)"
    "Ext u = Ext s" "Ext t = Ext v" "valid_utf8 (FullName payload)" "valid_utf8 tag"
proof -
  obtain payload where d: "delivered h req payload"
    using Webhook_not_delivered [OF assms] by fastforce
  from Webhook_delivered [OF assms d] show thesis
  proof (elim disjE exE conjE bexE, goal_cases)
    case (2 tag u v x)
    then have x: "x = None" by (cases x) auto
    have ext: "Ext u = Ext s" "Ext t = Ext v" using classify_spec(1) [OF 2(1)] 2(3) x by simp_all
    have tag: "if tag = '''' then touchesReleaseFiles payload else PushRef payload = tagRefPrefix @ tag"
      using classify_spec(1) [OF 2(1)] by auto
    have p: "unmarshal_push (BodyBytes (ReqBody req)) = Inr payload" "FullName payload \<noteq> ''''"
      using d by (simp_all add: delivered_def)
    have "valid_utf8 tag"
      using unmarshal_push_valid [OF p(1)] tag valid_utf8_tag [of tag] by (auto simp: valid_utf8_def split: if_splits)
    then show thesis using that [OF p tag] 2(2) x ext unmarshal_push_valid [OF p(1)] by blast
  qed simp
qed

end
