(* ===== verification/Retry.thy ===== *)
theory Retry
  imports Factory
begin

text \<open>
  What the tag backstop of the service tries again: which answers of the dispatcher it takes for
  a handled tag, and when a later pass leaves the tag alone.
\<close>

text \<open>A build that was put off: deferred at the concurrency cap, or the registry could not be asked.\<close>

definition put_off :: "action list \<Rightarrow> bool" where
  "put_off as \<longleftrightarrow> IncBuildDispatched ''deferred'' \<in> set as \<or> IncFilterSkipped ''registry_unreachable'' \<in> set as"

lemma put_off_answer:
  assumes "app_dispatcher p api cl req trigger s = (r, t)" "put_off (new_acts s t)"
  shows "r = None \<and> (\<forall>job. CreateJob job \<notin> set (new_acts s t))"
proof -
  have "extends s t \<and>
    (quiet s t \<and> r \<noteq> None
     \<or> (\<exists>a\<in>skip_actions. new_acts s t = [a] \<and> r = None)
     \<or> (\<exists>job result. new_acts s t = [CreateJob job, IncBuildDispatched result]
          \<and> result \<in> {''created'', ''exists'', ''error''} \<and> (r = None \<longleftrightarrow> result \<noteq> ''error'')))"
    using assms(1) unfolding app_dispatcher_def CreateBuildDispatcher_eq by (rule build.Dispatch_outcome)
  then show ?thesis
  proof (elim conjE disjE exE bexE)
    assume "quiet s t"
    then show ?thesis using assms(2) by (simp add: put_off_def new_acts_quiet)
  next
    fix a assume "a \<in> skip_actions" "new_acts s t = [a]" "r = None"
    then show ?thesis by (auto simp: skip_actions_def)
  next
    fix job result
    assume "new_acts s t = [CreateJob job, IncBuildDispatched result]" "result \<in> {''created'', ''exists'', ''error''}"
    then show ?thesis using assms(2) by (auto simp: put_off_def)
  qed
qed

text \<open>A pass of the backstop that did anything asked the dispatcher once.\<close>

lemma backstop_asks:
  assumes "tagBackstop_Poll (NewGitHubClient api) dispatch ctx repo l s = (r, t)" "new_acts s t \<noteq> []"
  obtains tag u d where "tag \<noteq> ''''" "dispatch \<lparr>ReqRepo = RepoString repo, ReqTag = tag\<rparr> TriggerPoll u = (d, t)"
    "new_acts s t = new_acts u t" "d = None \<longrightarrow> r = Inr tag"
proof -
  obtain n u where n: "newestUnbuiltTag (NewGitHubClient api) ctx repo l s = (n, u)" by fastforce
  have q: "quiet s u" by (rule client.quiet_newestUnbuiltTag [OF n])
  then have na: "new_acts s t = new_acts u t" by (simp add: quiet_def new_acts_def)
  have "t \<noteq> u" using assms(2) new_acts_quiet [OF q] by auto
  then obtain tag where tag: "n = Inr tag" "tag \<noteq> ''''"
    using assms(1) n by (cases n) (auto simp: tagBackstop_Poll_def split: if_splits)
  obtain d v where d: "dispatch \<lparr>ReqRepo = RepoString repo, ReqTag = tag\<rparr> TriggerPoll u = (d, v)" by fastforce
  have "v = t" "d = None \<longrightarrow> r = Inr tag"
    using assms(1) n tag d by (cases d; simp add: tagBackstop_Poll_def)+
  then show thesis using that [OF tag(2)] d na by blast
qed

lemma newestUnbuiltTag_settled:
  assumes "ListTags gh repo s = (Inr tags, u)" "tags \<noteq> []" "hd tags = l"
  shows "newestUnbuiltTag gh ctx repo l s = (Inr '''', u)"
  using assms by (simp add: newestUnbuiltTag_def)

lemma put_off_recorded:
  assumes "runBackstop (WBackstop (app_watcher p a api (Some (app_dispatcher p api cl)))) ctx repo c s = (c1, t)"
    and "put_off (new_acts s t)"
  shows "built_tag c1 (Key repo) \<noteq> '''' \<and> (\<forall>job. CreateJob job \<notin> set (new_acts s t))"
proof -
  obtain r u where b: "tagBackstop_Poll (NewGitHubClient api) (app_dispatcher p api cl) ctx repo (built_tag c (Key repo)) s = (r, u)"
    by fastforce
  have u: "u = t" using assms(1) b
    by (auto simp: runBackstop_def app_watcher_sel NewTagBackstop_def split: sum.splits if_splits)
  have "new_acts s t \<noteq> []" using assms(2) by (auto simp: put_off_def)
  then obtain tag v d where d: "tag \<noteq> ''''" "app_dispatcher p api cl \<lparr>ReqRepo = RepoString repo, ReqTag = tag\<rparr> TriggerPoll v = (d, t)"
    "new_acts s t = new_acts v t" "d = None \<longrightarrow> r = Inr tag"
    using backstop_asks [OF b [unfolded u]] by metis
  have "d = None \<and> (\<forall>job. CreateJob job \<notin> set (new_acts v t))"
    using put_off_answer [OF d(2)] assms(2) d(3) by simp
  then show ?thesis using assms(1) b d u
    by (simp add: runBackstop_def app_watcher_sel NewTagBackstop_def) (auto simp: built_tag_update_built)
qed

lemma settled_backstop:
  assumes "runBackstop (WBackstop (app_watcher p a api (Some d))) ctx repo c s = (c1, t)"
    and "ListTags (NewGitHubClient api) repo s = (Inr tags, u)" "tags \<noteq> []" "hd tags = built_tag c (Key repo)"
  shows "c1 = c \<and> new_acts s t = []"
proof -
  have t: "c1 = c" "t = u"
    using assms(1) newestUnbuiltTag_settled [OF assms(2-4)]
    by (simp_all add: runBackstop_def app_watcher_sel NewTagBackstop_def tagBackstop_Poll_def)
  have "quiet s u" by (rule client.quiet_ListTags [OF assms(2)])
  then show ?thesis using t by (simp add: new_acts_quiet)
qed

section \<open>A platform whose registry is down\<close>

definition demo_repository :: Repo where
  "demo_repository = \<lparr>Owner = ''bborbe'', Name = ''kv'', DefaultBranch = '''', Fork = False\<rparr>"

definition demo_down :: "unit TagBackstop" where
  "demo_down = NewTagBackstop (NewGitHubClient demo_build_api)
     (Some (CreateBuildDispatcher demo_build_env demo_build_yaml (demo_registry 500) (NewGitHubClient demo_build_api)
       demo_idle_cluster))"

lemma demo_down_tags: "ListTags (NewGitHubClient demo_build_api) demo_repository s = (Inr [''v1''], s)"
  by (simp add: NewGitHubClient_def gc_ListTags_def demo_build_api_def api_call_def)

lemma demo_down_pass:
  "demo_down (\<lambda>_. None) demo_repository '''' s = (Inr ''v1'', act (IncFilterSkipped ''registry_unreachable'') s)"
proof -
  have "newestUnbuiltTag (NewGitHubClient demo_build_api) (\<lambda>_. None) demo_repository '''' s = (Inr ''v1'', s)"
    using demo_down_tags [of s]
    by (simp add: newestUnbuiltTag_def) (simp add: NewGitHubClient_def gc_GetCommitEpoch_def)
  moreover have "\<lparr>ReqRepo = RepoString demo_repository, ReqTag = ''v1''\<rparr> = demo_request"
    by (simp add: demo_request_def demo_repository_def RepoString_def)
  ultimately show ?thesis
    by (simp add: demo_down_def NewTagBackstop_def tagBackstop_Poll_def demo_unreachable_dispatch)
qed

end
