(* ===== verification/Demo.thy ===== *)
theory Demo
  imports Concurrent Delivery Retry
begin

text \<open>
  A concrete platform and application, one repository with a release that is due, and the
  states the service goes through on it: the inputs at which the properties of the root theory
  are applied.
\<close>

definition demo_cluster :: "'w cluster" where
  "demo_cluster = \<lparr>ListJobs = (\<lambda>ns sel w. (Inr [], w)), GetSecret = (\<lambda>ns nm w. (Inl K8sNotFound, w)),
     Deploy = (\<lambda>job w. (None, w))\<rparr>"

definition demo_env :: "'w build_env" where
  "demo_env = \<lparr>IsValidLabelValue = (\<lambda>_. []),
     YamlJob = (\<lambda>_. Inr \<lparr>JobName = ''b'', JobNamespace = '''', ContainerImages = [], JobRest = ''''\<rparr>),
     NowUTC = (\<lambda>_. demo_time 1), RandRead = (\<lambda>w. (None, w))\<rparr>"

definition demo_platform :: "unit platform" where
  "demo_platform = \<lparr>NewGithubApp = (\<lambda>_. Inr demo_api), NewSyncProducer = (\<lambda>brokers name w. (None, w)),
     CreateClientset = (\<lambda>w. (Inr demo_cluster, w)), NewSHA1 = (\<lambda>ns d. d),
     NewCreateCommandSender = (\<lambda>sender initiator cmd w. (None, w)),
     Cqrs = \<lparr>ParseEvent = (\<lambda>cmd. Inr (Scope cmd)),
       MarshalInto = (\<lambda>d. Inr \<lparr>Scope = d, Force = False, Tag = ''''\<rparr>),
       NewCommandCreator = (\<lambda>op initiator x event w. (\<lparr>Operation = op, Initiator = initiator, Data = event\<rparr>, w)),
       NewCommandObjectSender = (\<lambda>prefix obj w. (None, w)), GithubReleaserV1SchemaID = ''s''\<rparr>,
     BuildEnv = demo_env,
     BuildYaml = (\<lambda>_. Inr \<lparr>DbAutoBuild = False, DbDestinations = [], DbPushSecret = '''',
       DbDeadlineSeconds = 0, DbDockerfile = '''', DbServicePath = '''', DbContextPath = '''',
       DbDockerfilePath = ''''\<rparr>),
     RegistryHttp = \<lparr>NewRequest = (\<lambda>_. None), Do = (\<lambda>rq w. (Inr (404, ''''), w))\<rparr>,
     IsAllowed = (\<lambda>_ _. True), ParseBoolDefault = (\<lambda>v d. v = ''true''), Clock = (\<lambda>_. 0),
     FloatFraction = (\<lambda>f unit scale. f * unit div scale)\<rparr>"

definition demo_app :: application where
  "demo_app = \<lparr>AppListen = '':9090'', AppStage = ''prod'', AppTargetVault = '''', AppOwner = ''bborbe'', AppRepoAllowlist = ''x'',
     AppPollInterval = ''10m'', AppCursorPath = ''c'',
     AppKafkaBrokers = ''kafka:9092'',
     AppCredentials = \<lparr>AppID = 1, InstallationID = 2, PEMKey = ''k''\<rparr>, AppTopicPrefix = ''develop'', AppWebhookSecret = ''s'',
     AppWebhookMinInterval = ''1m'', AppQuotaMinRemaining = 2000\<rparr>"

definition demo_object :: CommandObject where
  "demo_object = \<lparr>ObjCommand = \<lparr>Operation = TriggerReleaseCheckCommandOperation, Initiator = ''i'',
     Data = ''bborbe/kv''\<rparr>, SchemaID = ''s''\<rparr>"

definition demo_repo :: Repo where
  "demo_repo = \<lparr>Owner = ''bborbe'', Name = ''kv'', DefaultBranch = '''', Fork = False\<rparr>"

definition demo_release :: Release where
  "demo_release = \<lparr>RelRepo = demo_repo, HeadSHA = ''abc1234def'', CurrentVersion = ''v1.0.0'',
     UnreleasedBullets = 1, AutoRelease = True, AllowFork = False\<rparr>"

definition demo_watcher :: "unit watcher" where
  "demo_watcher = app_watcher demo_platform demo_app demo_api
     (Some (app_dispatcher demo_platform demo_api demo_cluster))"

lemma demo_sel [simp]:
  "NewSHA1 demo_platform = (\<lambda>ns d. d)" "CreateKafkaSender demo_platform topic = (\<lambda>cmd w. (None, w))"
  "IsAllowed demo_platform = (\<lambda>_ _. True)" "AppOwner demo_app = ''bborbe''" "AppCursorPath demo_app = ''c''"
  "AppQuotaMinRemaining demo_app = 2000" "BuildEnv demo_platform = demo_env"
  "RelRepo demo_release = demo_repo" "HeadSHA demo_release = ''abc1234def''"
  by (simp_all add: demo_platform_def demo_app_def demo_release_def CreateKafkaSender_def)

text \<open>A scoped cycle of this platform: one build skip, one announcement, one cursor write.\<close>

lemma demo_parse: "ParseChangelog demo_changelog =
    Some \<lparr>SumUnreleasedBullets = 1, UnreleasedIsFirst = True, LatestVersion = ''v1.0.0''\<rparr>"
  by (simp add: demo_changelog_def ParseChangelog_def scan_lines.simps max_token_def dropCR_def
      parse_line_def HasPrefix_def parse_init_def TrimRight_def isVersionHeader_def versionHeaderRe_def
      is_number_def is_digit_def Let_def)

lemma demo_gather: "gatherRelease (NewGitHubClient demo_api) demo_repo s = (Gathered demo_release, s)"
  by (simp add: gatherRelease_def NewGitHubClient_def gc_GetMasterSHA_def gc_GetChangelogContent_def
      gc_GetMaintainerConfig_def gc_fileContent_def max_file_size_def demo_parse demo_repo_def
      demo_release_def) (simp add: demo_changelog_def)

lemma demo_dispatch:
  "app_dispatcher demo_platform demo_api demo_cluster \<lparr>ReqRepo = ''bborbe/kv'', ReqTag = tag\<rparr> tr s =
     (if tag = '''' then (Some (Errorf (''build request missing tag for repo=bborbe/kv'')), s)
      else (None, act (IncBuildDispatched ''skipped'') s))"
proof -
  define d where "d = production_deps (BuildYaml demo_platform) (RegistryHttp demo_platform)
    (NewGitHubClient demo_api) (demo_cluster :: unit cluster)"
  have "repoFromKey ''bborbe/kv'' = Some demo_repo" by (simp add: repoFromKey_def demo_repo_def)
  then have "Configs d ''bborbe/kv'' s = (ParseBuildConfig (BuildYaml demo_platform) ''x'' ''bborbe/kv'', s)" for s
    by (simp add: d_def production_deps_def build_deps_of_def configProvider_def BuildGetFileContent_def
        NewGitHubClient_def gc_GetFileContent_def gc_fileContent_def max_file_size_def MaintainerConfigPath_def)
  moreover obtain cfg where "ParseBuildConfig (BuildYaml demo_platform) ''x'' ''bborbe/kv'' = Inr cfg" "\<not> AutoBuild cfg"
    by (simp add: ParseBuildConfig_def demo_platform_def)
  moreover have "IsValidLabelValue (BuildEnv demo_platform) t = []" for t
    by (simp add: demo_platform_def demo_env_def)
  ultimately show ?thesis
    unfolding app_dispatcher_def CreateBuildDispatcher_eq d_def [symmetric]
    by (simp add: Dispatch_def Request_Validate_def prepare_def skip_def)
qed

lemma demo_backstop:
  "WBackstop demo_watcher (\<lambda>_. None) demo_repo '''' s =
     (Inr ''v1.1.0'', act (IncBuildDispatched ''skipped'') s)"
proof -
  have "RepoString demo_repo = ''bborbe/kv''" by (simp add: RepoString_def demo_repo_def)
  moreover have "newestUnbuiltTag (NewGitHubClient demo_api) (\<lambda>_. None) demo_repo '''' s = (Inr ''v1.1.0'', s)"
    by (simp add: newestUnbuiltTag_def NewGitHubClient_def gc_ListTags_def gc_GetCommitEpoch_def)
  ultimately show ?thesis
    by (simp add: demo_watcher_def app_watcher_sel NewTagBackstop_def tagBackstop_Poll_def demo_dispatch)
qed

definition demo_cursor_after :: Cursor where
  "demo_cursor_after = update_state (\<lambda>st. st\<lparr>LastSeenMasterSHA := ''abc1234def''\<rparr>) (Key demo_repo)
     (update_state (\<lambda>st. st\<lparr>LastBuiltTag := ''v1.1.0''\<rparr>) (Key demo_repo) \<lparr>Repos = Some fmempty\<rparr>)"

definition demo_scanned :: "unit sys" where
  "demo_scanned = act (IncPublished ''create'')
     (act (SendCreate (app_command demo_platform demo_app demo_release) True)
       (act (IncBuildDispatched ''skipped'') (act (IncReposScanned 1) (initial_sys () empty_fs))))"

definition demo_done :: "unit sys" where
  "demo_done = act (SetRateLimitRemaining 0) (act (IncPollCycle ''success'')
     (snd (SaveCursor ''c'' demo_cursor_after demo_scanned)))"

lemma demo_filter: "cycle_filter (WFilter demo_watcher) False (update_state (\<lambda>st. st\<lparr>LastBuiltTag := x\<rparr>) k
    \<lparr>Repos = Some fmempty\<rparr>) (filter_input demo_repo demo_release) = ''''"
proof -
  have "LastSeenSHA \<lparr>Repos = Some fmempty\<rparr> k' = ''''" for k' by (simp add: LastSeenSHA_def repo_entry_def)
  then show ?thesis
    by (simp add: cycle_filter_pass demo_watcher_def app_watcher_sel static_filters_pass_iff
        LastSeenSHA_update_built filter_input_def demo_release_def demo_repo_def)
qed

lemma demo_process: "processRepos demo_watcher (\<lambda>_. None) False [demo_repo] \<lparr>Repos = Some fmempty\<rparr>
    (act (IncReposScanned 1) (initial_sys () empty_fs)) = (Some '''', demo_cursor_after, demo_scanned)"
proof -
  have gh: "WGh demo_watcher = NewGitHubClient demo_api" by (simp add: demo_watcher_def app_watcher_sel)
  have pub: "WPublish demo_watcher r s = (True, act (IncPublished ''create'')
      (act (SendCreate (app_command demo_platform demo_app r) True) s))" for r s
    by (simp add: demo_watcher_def app_watcher_sel PublishCreate_def SendCreateCommand_def world_call_def
        app_command_def Let_def)
  have "built_tag \<lparr>Repos = Some fmempty\<rparr> k = ''''" for k by (simp add: built_tag_def repo_entry_def)
  then show ?thesis
    by (simp add: processRepo_def runBackstop_def demo_backstop gh demo_gather demo_filter pub Let_def
        demo_cursor_after_def demo_scanned_def)
qed

lemma demo_load_start: "LoadCursor (AppCursorPath demo_app) (initial_sys () empty_fs) = Inr \<lparr>Repos = Some fmempty\<rparr>"
  by (simp add: LoadCursor_def ReadFile_def empty_fs_def)

lemma demo_poll: "Poll demo_watcher (\<lambda>_. None) False ''bborbe/kv'' (initial_sys () empty_fs) = Some (PollOk, demo_done)"
proof -
  have "scopeRepo ''bborbe/kv'' ''bborbe'' = Some demo_repo" by (simp add: scopeRepo_def demo_repo_def)
  then have "resolveRepos demo_watcher (\<lambda>_. None) ''bborbe/kv'' s = Some (Some [demo_repo], s)" for s
    by (simp add: resolveRepos_def demo_watcher_def app_watcher_sel)
  moreover have "WCursorPath demo_watcher = ''c''" by (simp add: demo_watcher_def app_watcher_sel)
  moreover have "RateLimitRemaining (WGh demo_watcher) (initial_sys () empty_fs) = 0"
    by (simp add: demo_watcher_def app_watcher_sel NewGitHubClient_def gc_RateLimitRemaining_def)
  ultimately show ?thesis
    using demo_load_start demo_process by (simp add: Poll_def quota_gate_def demo_done_def del: processRepos.simps)
qed

lemma demo_done_acts: "Acts demo_done = [IncReposScanned 1, IncBuildDispatched ''skipped'',
    SendCreate (app_command demo_platform demo_app demo_release) True, IncPublished ''create'',
    IncPollCycle ''success'', SetRateLimitRemaining 0]"
  by (simp add: demo_done_def SaveCursor_Acts demo_scanned_def)

definition demo_bad :: "unit sys" where
  "demo_bad = initial_sys () (empty_fs\<lparr>readFault := [''c'' \<mapsto> Foreign ''input/output error'']\<rparr>)"

lemma demo_returns: "\<exists>r t. Poll demo_watcher ctx skipSHA scope s = Some (r, t)"
  unfolding demo_watcher_def
  by (rule Poll_returns [where bound = 2]) (auto simp: demo_api_def split: if_splits)

lemma demo_no_panic: "\<exists>r t. Poll demo_watcher ctx skipSHA scope s = Some (r, t) \<and> r \<noteq> PollPanic"
proof -
  have "fst (gatherRelease (NewGitHubClient demo_api) repo u) \<noteq> GatherPanic" for repo :: Repo and u :: "unit sys"
    by (simp add: gatherRelease_def NewGitHubClient_def gc_GetMasterSHA_def gc_GetChangelogContent_def
        gc_GetMaintainerConfig_def gc_fileContent_def max_file_size_def demo_parse) (simp add: demo_changelog_def)
  then have gather: "gatherRelease (WGh demo_watcher) repo u \<noteq> (GatherPanic, v)" for repo u v
    by (metis demo_watcher_def app_watcher_sel(1) fst_conv)
  have turn: "fst (processRepo demo_watcher ctx skipSHA repo c u) \<noteq> Panic" for repo c u
    using gather by (auto simp: processRepo_def Let_def split: prod.split gathered.split)
  have "fst (processRepos demo_watcher ctx skipSHA repos c u) \<noteq> None" for repos c u
  proof (induction repos arbitrary: c u)
    case (Cons repo repos)
    obtain st c' v where p: "processRepo demo_watcher ctx skipSHA repo c u = (st, c', v)" by (metis prod_cases3)
    then show ?case using turn [of repo c u] Cons.IH [of c' v] by (cases st) simp_all
  qed simp
  then have scan: "processRepos demo_watcher ctx skipSHA repos c u \<noteq> (None, x)" for repos c u x by (metis fst_conv)
  obtain r t where "Poll demo_watcher ctx skipSHA scope s = Some (r, t)" using demo_returns by blast
  moreover from this have "r \<noteq> PollPanic"
    using scan by (auto simp: Poll_def Let_def split: sum.splits if_splits option.splits prod.splits)
  ultimately show ?thesis by blast
qed

lemma demo_set_endpoint: "snd (SetEndpoint (app_service demo_platform demo_app demo_api demo_cluster i wi) key sha s)
    = snd (SetCursorHandler ''c'' key sha s)"
  by (simp add: app_service_def Let_def)

lemma demo_resolve: "resolveRepos demo_watcher ctx ''bborbe/kv'' s = Some (Some repos, u) \<Longrightarrow> repos = [demo_repo]"
  by (auto simp: resolveRepos_def demo_watcher_def app_watcher_sel scopeRepo_def demo_repo_def)

lemma demo_writes: "files (Fs demo_done) ''c'' = Some (json_print (encode_cursor demo_cursor_after))"
    "readFault (Fs demo_done) = Map.empty"
  by (simp_all add: demo_done_def SaveCursor_def WriteFile_def Rename_def demo_scanned_def empty_fs_def)

lemma demo_send:
  assumes "Poll demo_watcher ctx skipSHA ''bborbe/kv'' s = Some (r, t)" "LoadCursor ''c'' s = Inr c"
    and "SendCreate (app_command demo_platform demo_app rel) ok \<in> set (new_acts s t)"
  shows "HeadSHA rel = HeadSHA demo_release"
proof (rule Poll_sent_command [OF assms(1) [unfolded demo_watcher_def] _ assms(3)])
  show "LoadCursor (AppCursorPath demo_app) s = Inr c" using assms(2) by simp
  fix repos u rel'
  assume rel': "resolveRepos (polling demo_platform demo_app demo_api demo_cluster) ctx ''bborbe/kv'' s = Some (Some repos, u)"
    "app_command demo_platform demo_app rel = app_command demo_platform demo_app rel'"
    "RelRepo rel' \<in> set repos" "gathered_as (NewGitHubClient demo_api) rel'"
  have "RelRepo rel' = demo_repo" using demo_resolve rel'(1,3) by (fastforce simp: demo_watcher_def)
  then have "rel' = demo_release" using rel'(4) by (auto simp: gathered_as_def demo_gather)
  then show ?thesis using same_command [OF rel'(2)] by simp
qed

lemma demo_command: "serves demo_platform demo_app demo_api demo_cluster i wi (CommandEvent (\<lambda>_. None) demo_object)
    (initial_sys () empty_fs) demo_done"
proof -
  let ?obj = "demo_object"
  have "unmarshalAndValidate (Cqrs demo_platform) ?obj = Inr \<lparr>Scope = ''bborbe/kv'', Force = False, Tag = ''''\<rparr>"
    by (simp add: unmarshalAndValidate_def demo_platform_def Command_Validate_def demo_object_def)
  then have "HandleCommand (NewTriggerReleaseCheckCommandExecutor (Cqrs demo_platform) demo_watcher
      (app_dispatcher demo_platform demo_api demo_cluster)) (\<lambda>_. None) ?obj (initial_sys () empty_fs) = Some (PollOk, demo_done)"
    using demo_poll by (simp add: runTriggerReleaseCheck_def demo_watcher_def NewTriggerReleaseCheckCommandExecutor_def)
  then show ?thesis by (rule serves.command [rotated]) (simp add: demo_watcher_def)
qed

lemmas demo_run = runs.step [OF runs.start demo_command, simplified]

definition demo_web :: "'w web" where
  "demo_web = \<lparr>MuxMatch = (\<lambda>tpl path. if tpl = path then Some (\<lambda>_. '''') else None),
     NewRouter = (\<lambda>routes v req s. case List.find (\<lambda>(tpl, h). tpl = UrlPath req) routes of
         None \<Rightarrow> (\<lparr>ReplyStatus = 404, ReplyHeader = [], ReplyBody = ''''\<rparr>, s)
       | Some (tpl, h) \<Rightarrow> h (\<lambda>_. '''') req s),
     NewPrintHandler = (\<lambda>x v req s. (\<lparr>ReplyStatus = 200, ReplyHeader = [], ReplyBody = x\<rparr>, s)),
     PromHandler = (\<lambda>v req s. (\<lparr>ReplyStatus = 200, ReplyHeader = [], ReplyBody = ''''\<rparr>, s)),
     NewErrorHandler = (\<lambda>h v req s. (writeWebhookAck, snd (h v req s))),
     NewJSONErrorHandler = (\<lambda>h v req s. (writeWebhookAck, snd (h v req s))),
     NewDangerousHandlerWrapper = (\<lambda>h. h)\<rparr>"

definition demo_force :: request where
  "demo_force = \<lparr>UrlPath = ''/trigger'', HeaderGet = (\<lambda>_. []), QueryGet = (\<lambda>_. ''true''),
     ReqBody = \<lparr>BodyBytes = [], BodyError = None\<rparr>\<rparr>"

lemma demo_web_ok: "web_ok demo_web"
proof -
  have m: "(\<lambda>(tpl, h). (if tpl = path then Some (\<lambda>_ :: string. '''' :: string) else None) \<noteq> None)
      = (\<lambda>(tpl :: string, h :: 'w http_handler). tpl = path)" for path
    by (intro ext) (simp split: prod.split)
  have "router_ok (demo_web :: 'w web)"
    unfolding router_ok_def demo_web_def web.select_convs m
    by (auto simp: apart_def split: option.splits dest!: find_member)
  then show ?thesis by (simp add: web_ok_def demo_web_def apart_def)
qed

text \<open>Two operators who each set a commit in an empty cursor, on a disk with chosen files and faults.\<close>

definition demo_baseline :: "string \<Rightarrow> string \<Rightarrow> Cursor" where
  "demo_baseline key sha = \<lparr>Repos = Some (fmupd key (Some (emptyRepoState\<lparr>LastSeenMasterSHA := sha\<rparr>)) fmempty)\<rparr>"

definition demo_text :: "string \<Rightarrow> string \<Rightarrow> string" where
  "demo_text key sha = json_print (encode_cursor (demo_baseline key sha))"

definition demo_fs :: "(string \<Rightarrow> string option) \<Rightarrow> (string \<Rightarrow> write_fault option) \<Rightarrow> fs" where
  "demo_fs m faults = empty_fs\<lparr>files := m, writeFault := faults\<rparr>"

definition demo_disk :: "(string \<Rightarrow> string option) \<Rightarrow> (string \<Rightarrow> write_fault option) \<Rightarrow> unit sys" where
  "demo_disk m faults = initial_sys () (demo_fs m faults)"

lemma demo_fs_sel [simp]:
  "files (demo_fs m faults) = m" "writeFault (demo_fs m faults) = faults"
  "readFault (demo_fs m faults) = Map.empty" "renameFault (demo_fs m faults) = Map.empty"
  "(demo_fs m faults)\<lparr>files := m'\<rparr> = demo_fs m' faults"
  by (simp_all add: demo_fs_def empty_fs_def)

lemma demo_disk_sel [simp]:
  "Fs (demo_disk m faults) = demo_fs m faults" "Acts (demo_disk m faults) = []"
  "(demo_disk m faults)\<lparr>Fs := demo_fs m' faults'\<rparr> = demo_disk m' faults'"
  by (simp_all add: demo_disk_def initial_sys_def)

abbreviation demo_interleaved ::
    "(unit thread list \<Rightarrow> bool) \<Rightarrow> unit event list \<Rightarrow> unit thread list \<Rightarrow> unit sys \<Rightarrow> unit sys \<Rightarrow> bool" where
  "demo_interleaved ok \<equiv> interleaved ok demo_platform demo_app demo_api demo_cluster 60 60"

lemma demo_made:
  assumes "demo_interleaved ok es ths s (demo_disk m faults)" "k < length ths"
    and "ths ! k = EditThread (SetEdit key sha) EditBegin" "m ''c'' = None" "key \<noteq> ''''" "sha \<noteq> ''''"
    and "ok (ths[k := EditThread (SetEdit key sha) (EditSaving (SaveOpen (demo_text key sha)))])"
  shows "demo_interleaved ok es (ths[k := EditThread (SetEdit key sha) (EditSaving (SaveOpen (demo_text key sha)))])
    s (demo_disk m faults)"
proof -
  have "edit_step (AppCursorPath demo_app) (SetEdit key sha) (EditBegin, demo_disk m faults)
      (EditSaving (SaveOpen (demo_text key sha)), demo_disk m faults)"
    unfolding demo_text_def
    by (rule edit_step.edit_made [of _ _ "\<lparr>Repos = Some fmempty\<rparr>"])
      (use assms(4-6) in \<open>simp_all add: LoadCursor_def ReadFile_def demo_baseline_def\<close>)
  from interleaved.edit [OF assms(1-3) this refl] show ?thesis
    using assms(3,7) by (simp add: after_step_def)
qed

lemma demo_save_move:
  assumes "demo_interleaved ok es ths s (demo_disk m faults)" "k < length ths" "ths ! k = EditThread op (EditSaving v)"
    and "save_step ''c'' (v, demo_fs m faults) (v', demo_fs m' faults)"
    and "ths' = after_step ''c'' (demo_fs m faults) ths k (EditThread op (EditSaving v'))" "ok ths'"
  shows "demo_interleaved ok es ths' s (demo_disk m' faults)"
proof -
  have "edit_step (AppCursorPath demo_app) op (EditSaving v, demo_disk m faults)
      (EditSaving v', (demo_disk m faults)\<lparr>Fs := demo_fs m' faults\<rparr>)"
    by (rule edit_step.edit_saves) (use assms(4) in simp)
  from interleaved.edit [OF assms(1-3) this, of ths'] show ?thesis using assms(5,6) by simp
qed

lemma demo_opened:
  assumes "demo_interleaved ok es ths s (demo_disk m faults)" "k < length ths"
    and "ths ! k = EditThread op (EditSaving (SaveOpen d))" "\<not> open_broken ''c'' (demo_fs m faults)"
    and "ok (ths[k := EditThread op (EditSaving (SaveWrite d 0 AtTmp))])"
  shows "demo_interleaved ok es (ths[k := EditThread op (EditSaving (SaveWrite d 0 AtTmp))])
    s (demo_disk (m(tmp_path ''c'' := Some [])) faults)"
proof (rule demo_save_move [OF assms(1-3)])
  show "save_step ''c'' (SaveOpen d, demo_fs m faults) (SaveWrite d 0 AtTmp, demo_fs (m(tmp_path ''c'' := Some [])) faults)"
    using save_step.opened [OF assms(4), of d] by simp
qed (use assms in \<open>simp_all add: after_step_def\<close>)

lemma demo_wrote:
  assumes "demo_interleaved ok es ths s (demo_disk m faults)" "k < length ths"
    and "ths ! k = EditThread op (EditSaving (SaveWrite d 0 AtTmp))" "m (tmp_path ''c'') = Some []"
    and "n \<le> write_limit ''c'' d (demo_fs m faults)"
    and "\<And>i. ok (ths[k := EditThread op (EditSaving (SaveWrite d i AtTmp))])"
  shows "demo_interleaved ok es (ths[k := EditThread op (EditSaving (SaveWrite d n AtTmp))])
    s (demo_disk (m(tmp_path ''c'' := Some (take n d))) faults)"
  using assms(5)
proof (induction n)
  case 0
  have "m(tmp_path ''c'' := Some (take 0 d)) = m" using assms(4) by (simp add: fun_upd_idem)
  moreover have "ths[k := EditThread op (EditSaving (SaveWrite d 0 AtTmp))] = ths"
    using assms(3) by (metis list_update_id)
  ultimately show ?case using assms(1) by (simp only:)
next
  case (Suc n)
  let ?m = "m(tmp_path ''c'' := Some (take n d))"
  have lim: "write_limit ''c'' d (demo_fs ?m faults) = write_limit ''c'' d (demo_fs m faults)"
    by (simp add: write_limit_def)
  have n: "n < length d" using Suc.prems write_limit_le [of "''c''" d "demo_fs m faults"] by simp
  have "write_byte ''c'' AtTmp n (d ! n) (demo_fs ?m faults) = demo_fs (m(tmp_path ''c'' := Some (take (Suc n) d))) faults"
    by (simp add: put_next_byte [OF n])
  then have "save_step ''c'' (SaveWrite d n AtTmp, demo_fs ?m faults)
      (SaveWrite d (Suc n) AtTmp, demo_fs (m(tmp_path ''c'' := Some (take (Suc n) d))) faults)"
    using save_step.wrote [of n "''c''" d "demo_fs ?m faults" AtTmp] Suc.prems lim by simp
  note step = this
  show ?case
  proof (rule demo_save_move [OF Suc.IH _ _ step])
    show "n \<le> write_limit ''c'' d (demo_fs m faults)" using Suc.prems by simp
    show "k < length (ths[k := EditThread op (EditSaving (SaveWrite d n AtTmp))])" using assms(2) by simp
  qed (use assms(2,6) in \<open>simp_all add: after_step_def\<close>)
qed

text \<open>A whole save on a healthy disk: up to its rename, and to its end while no other thread is in its window.\<close>

lemma demo_written:
  assumes "demo_interleaved ok es ths s (demo_disk m Map.empty)" "k < length ths"
    and "ths ! k = EditThread op (EditSaving (SaveOpen d))" "\<And>v. ok (ths[k := EditThread op (EditSaving v)])"
  shows "demo_interleaved ok es (ths[k := EditThread op (EditSaving SaveRename)])
    s (demo_disk (m(tmp_path ''c'' := Some d)) Map.empty)"
proof -
  have free: "\<not> open_broken ''c'' (demo_fs m' Map.empty)" "\<not> write_broken ''c'' (demo_fs m' Map.empty)"
    "write_limit ''c'' d (demo_fs m' Map.empty) = length d" for m'
    by (simp_all add: open_broken_def write_broken_def write_limit_def)
  note o = demo_opened [OF assms(1-3) free(1) assms(4)]
  from demo_wrote [OF o, of k op d "length d"]
  have w: "demo_interleaved ok es (ths[k := EditThread op (EditSaving (SaveWrite d (length d) AtTmp))])
      s (demo_disk (m(tmp_path ''c'' := Some d)) Map.empty)"
    using assms(2,4) free(3) by simp
  show ?thesis
  proof (rule demo_save_move [OF w, where k = k and op = op])
    show "save_step ''c'' (SaveWrite d (length d) AtTmp, demo_fs (m(tmp_path ''c'' := Some d)) Map.empty)
        (SaveRename, demo_fs (m(tmp_path ''c'' := Some d)) Map.empty)"
      by (rule save_step.written) (simp_all add: free)
  qed (use assms in \<open>simp_all add: after_step_def\<close>)
qed

lemma demo_renamed:
  assumes "demo_interleaved ok es ths s (demo_disk m faults)" "k < length ths"
    and "ths ! k = EditThread op (EditSaving SaveRename)" "m (tmp_path ''c'') = Some d"
    and "ok ((map moved_thread ths)[k := EditThread op (EditSaving SaveDone)])"
  shows "demo_interleaved ok es ((map moved_thread ths)[k := EditThread op (EditSaving SaveDone)])
    s (demo_disk (m(tmp_path ''c'' := None, ''c'' := Some d)) faults)"
proof (rule demo_save_move [OF assms(1-3)])
  have ren: "Rename (tmp_path ''c'') ''c'' (demo_fs m faults) = (None, demo_fs (m(tmp_path ''c'' := None, ''c'' := Some d)) faults)"
    using assms(4) by (simp add: Rename_def)
  then show "save_step ''c'' (SaveRename, demo_fs m faults)
      (SaveDone, demo_fs (m(tmp_path ''c'' := None, ''c'' := Some d)) faults)"
    using save_step.renamed [of "''c''" "demo_fs m faults"] by simp
  show "(map moved_thread ths)[k := EditThread op (EditSaving SaveDone)]
      = after_step ''c'' (demo_fs m faults) ths k (EditThread op (EditSaving SaveDone))"
    using assms(3) ren by (simp add: after_step_def)
qed (rule assms(5))

text \<open>Both have read the empty cursor before either of them saves; then the first one saves.\<close>

abbreviation demo_two :: "string \<Rightarrow> edit_state \<Rightarrow> edit_state \<Rightarrow> unit thread list" where
  "demo_two key v w \<equiv> [EditThread (SetEdit ''k'' ''a'') v, EditThread (SetEdit key ''b'') w]"

abbreviation demo_sets :: "string \<Rightarrow> unit event list" where
  "demo_sets key \<equiv> [SetEvent ''k'' ''a'', SetEvent key ''b'']"

definition demo_allows :: "(unit thread list \<Rightarrow> bool) \<Rightarrow> string \<Rightarrow> bool" where
  "demo_allows ok key \<longleftrightarrow> (\<forall>v w. \<not> in_window (edit_save v) \<or> \<not> in_window (edit_save w) \<longrightarrow> ok (demo_two key v w))
     \<and> ok [EditThread (SetEdit ''k'' ''a'') EditBegin]"

lemma demo_exclusive: "demo_allows exclusive key"
  by (auto simp: demo_allows_def exclusive_def)

lemma demo_both_made:
  assumes "demo_allows ok key" "key \<noteq> ''''"
  shows "demo_interleaved ok (demo_sets key) (demo_two key (EditSaving (SaveOpen (demo_text ''k'' ''a'')))
     (EditSaving (SaveOpen (demo_text key ''b'')))) (demo_disk Map.empty Map.empty) (demo_disk Map.empty Map.empty)"
proof -
  let ?one = "SetEdit ''k'' ''a''" and ?two = "SetEdit key ''b''" and ?s = "demo_disk Map.empty Map.empty"
  have "demo_interleaved ok [SetEvent ''k'' ''a''] [EditThread ?one EditBegin] ?s ?s"
    using interleaved.spawn_edit [OF interleaved.idle, of ok ?one] assms(1) by (simp add: demo_allows_def)
  from interleaved.spawn_edit [OF this, where op = ?two]
  have "demo_interleaved ok (demo_sets key) (demo_two key EditBegin EditBegin) ?s ?s"
    using assms(1) by (simp add: demo_allows_def)
  from demo_made [OF this, of 0]
  have "demo_interleaved ok (demo_sets key) (demo_two key (EditSaving (SaveOpen (demo_text ''k'' ''a''))) EditBegin) ?s ?s"
    using assms(1) by (simp add: demo_allows_def)
  from demo_made [OF this, of 1] show ?thesis using assms by (simp add: demo_allows_def)
qed

lemma demo_first_written:
  assumes "demo_allows ok key" "key \<noteq> ''''"
  shows "demo_interleaved ok (demo_sets key) (demo_two key (EditSaving SaveRename)
     (EditSaving (SaveOpen (demo_text key ''b''))))
     (demo_disk Map.empty Map.empty) (demo_disk [tmp_path ''c'' \<mapsto> demo_text ''k'' ''a''] Map.empty)"
  using demo_written [OF demo_both_made [OF assms], of 0] assms(1) by (simp add: demo_allows_def)

lemma demo_first_saved:
  assumes "demo_allows ok key" "key \<noteq> ''''"
  shows "demo_interleaved ok (demo_sets key) (demo_two key (EditSaving SaveDone)
     (EditSaving (SaveOpen (demo_text key ''b''))))
     (demo_disk Map.empty Map.empty) (demo_disk [''c'' \<mapsto> demo_text ''k'' ''a''] Map.empty)"
proof -
  have "[tmp_path ''c'' \<mapsto> d](tmp_path ''c'' := None, ''c'' := Some d) = [''c'' \<mapsto> d]" for d :: string
    by (auto simp: fun_eq_iff)
  then show ?thesis
    using demo_renamed [OF demo_first_written [OF assms], of 0] assms(1) by (simp add: demo_allows_def)
qed

lemma demo_load_text:
  assumes "m ''c'' = Some (demo_text key sha)" "key \<in> {''k'', ''j''}" "sha \<in> {''a'', ''b''}"
  shows "LoadCursor ''c'' (demo_disk m faults) = Inr (demo_baseline key sha)"
proof -
  have "cursor_valid (demo_baseline key sha)"
    using assms(2,3) by (auto simp: demo_baseline_def cursor_valid_def emptyRepoState_def valid_utf8_ascii split: if_splits)
  then have "unmarshal_cursor (demo_text key sha) = Inr (demo_baseline key sha)"
    by (simp add: demo_text_def unmarshal_marshal_cursor clean_cursor_valid)
  then show ?thesis
    using assms(1) by (simp add: LoadCursor_def ReadFile_def demo_baseline_def)
qed

text \<open>The platform of Retry, whose registry is down, as a platform of the service.\<close>

definition demo_offline :: "unit platform" where
  "demo_offline = demo_platform\<lparr>BuildEnv := demo_build_env, BuildYaml := demo_build_yaml,
     RegistryHttp := demo_registry 500\<rparr>"

lemma demo_offline_backstop: "WBackstop (polling demo_offline demo_app demo_build_api demo_idle_cluster) = demo_down"
  by (simp add: app_watcher_sel demo_down_def app_dispatcher_def demo_offline_def)

text \<open>A platform whose event codec keeps every field: the scope's length in unary, the force flag, the rest.\<close>

definition demo_encode :: "TriggerReleaseCheckCommand \<Rightarrow> string" where
  "demo_encode cmd = replicate (length (Scope cmd)) CHR ''1''
     @ (if Force cmd then CHR ''t'' else CHR ''f'') # Scope cmd @ Tag cmd"

definition demo_decode :: "string \<Rightarrow> TriggerReleaseCheckCommand" where
  "demo_decode e = (let n = length (takeWhile (\<lambda>c. c = CHR ''1'') e); rest = drop n e
     in \<lparr>Scope = take n (tl rest), Force = hd rest = CHR ''t'', Tag = drop n (tl rest)\<rparr>)"

lemma demo_decode_encode: "demo_decode (demo_encode cmd) = cmd"
proof -
  have "takeWhile (\<lambda>c. c = CHR ''1'') (demo_encode cmd) = replicate (length (Scope cmd)) CHR ''1''"
    unfolding demo_encode_def by (subst takeWhile_append2) auto
  then show ?thesis by (simp add: demo_decode_def demo_encode_def)
qed

definition demo_relay :: "unit platform" where
  "demo_relay = demo_platform\<lparr>Cqrs := (Cqrs demo_platform)\<lparr>ParseEvent := (\<lambda>cmd. Inr (demo_encode cmd)),
     MarshalInto := (\<lambda>e. Inr (demo_decode e))\<rparr>\<rparr>"

lemma demo_codec: "codec_ok (Cqrs demo_relay)"
  by (simp add: codec_ok_def demo_relay_def demo_decode_encode demo_platform_def)

lemma demo_relay_accepted:
  "WebhookEndpoint (app_service demo_relay demo_app demo_api demo_cluster 60 60) (demo_delivery demo_sig)
     (initial_sys () empty_fs) = (Inr writeWebhookDispatched, act (ObserveWebhookDispatchLatency 0)
       (act (IncWebhookDelivery ''success'')
         (act (SendTrigger \<lparr>Scope = ''o/r'', Force = False, Tag = ''v1.2.3''\<rparr> True)
           (initial_sys () empty_fs\<lparr>DebounceLast := [''o/r@v1.2.3'' \<mapsto> 0]\<rparr>))))"
proof -
  let ?sender = "app_sender demo_relay demo_app"
  have h: "CreateWebhookHandler ?sender (AppWebhookSecret demo_app) (Clock demo_relay) 60 = demo_hook ?sender"
    by (simp add: CreateWebhookHandler_def NewWebhookHandler_def demo_hook_def demo_app_def demo_relay_def demo_platform_def)
  have "?sender cmd s = (None, act (SendTrigger cmd True) s)" for cmd s
    by (simp add: SendCommand_def Command_Validate_def demo_relay_def demo_platform_def world_call_def
        CreateTriggerReleaseCheckCommandSender_def NewTriggerReleaseCheckCommandSender_def)
  then show ?thesis
    using demo_push_delivered [of ?sender] unfolding service_sel h
    by (simp add: Webhook_ServeHTTP_def Let_def delivered_def demo_classify Allow_def) (simp add: demo_hook_def)
qed

end
