(* ===== verification/Fleet.thy ===== *)
theory Fleet
  imports Factory
begin

text \<open>
  The whole work of a cycle when its collaborators are steady: the context stays alive, every
  repository gives the same answer whenever it is read, and every command is accepted. The
  actions of the loop, but for those of the tag backstop, are then a function of the cursor and
  the answers, and so is the cursor that is saved.
\<close>

definition visible :: "action list \<Rightarrow> action list" where
  "visible as = filter (\<lambda>x. \<not> build_action x) as"

text \<open>
  The decision about one release, as a list of reasons not to announce it: the allowlist, the
  changelog, the opt-in, the fork rule and, unless the cycle is forced, the commit the cursor
  names.
\<close>

definition skip_reason :: "(string \<Rightarrow> bool) \<Rightarrow> bool \<Rightarrow> (string \<Rightarrow> string) \<Rightarrow> Repo \<Rightarrow> Release \<Rightarrow> string" where
  "skip_reason allowed forced seen repo release =
     (if \<not> allowed (Key repo) then ''scope''
      else if UnreleasedBullets release = 0 then ''empty_unreleased''
      else if \<not> AutoRelease release then ''auto_release''
      else if Fork repo \<and> \<not> AllowFork release then ''fork''
      else if \<not> forced \<and> seen (Key repo) = HeadSHA release then ''sha_unchanged''
      else '''')"

text \<open>What one repository leaves behind, and which commit its entry names afterwards.\<close>

definition repo_trace ::
    "(Repo \<Rightarrow> Release \<Rightarrow> string) \<Rightarrow> (Release \<Rightarrow> CreateCommand) \<Rightarrow> (Repo \<Rightarrow> gathered) \<Rightarrow> Repo \<Rightarrow> action list" where
  "repo_trace reason command_of answer repo =
     (case answer repo of
        Gathered release \<Rightarrow>
          (if reason repo release = '''' then [SendCreate (command_of release) True, IncPublished ''create'']
           else [IncFilterSkipped (reason repo release)])
      | _ \<Rightarrow> [])"

definition repo_seen :: "(Repo \<Rightarrow> Release \<Rightarrow> string) \<Rightarrow> (string \<Rightarrow> string) \<Rightarrow> (Repo \<Rightarrow> gathered) \<Rightarrow> Repo \<Rightarrow> string" where
  "repo_seen reason seen answer repo =
     (case answer repo of
        Gathered release \<Rightarrow> (if reason repo release = '''' then HeadSHA release else seen (Key repo))
      | _ \<Rightarrow> seen (Key repo))"

abbreviation cycle_reason :: "'w watcher \<Rightarrow> bool \<Rightarrow> Cursor \<Rightarrow> Repo \<Rightarrow> Release \<Rightarrow> string" where
  "cycle_reason w skipSHA c repo release \<equiv> cycle_filter (WFilter w) skipSHA c (filter_input repo release)"

text \<open>A repository answers steadily: whatever the state, with a release or by being dropped.\<close>

definition steady :: "'w GitHubClient \<Rightarrow> (Repo \<Rightarrow> gathered) \<Rightarrow> Repo \<Rightarrow> bool" where
  "steady gh answer repo \<longleftrightarrow> (\<forall>u. \<exists>v. gatherRelease gh repo u = (answer repo, v))
     \<and> (answer repo = Dropped \<or> (\<exists>release. answer repo = Gathered release))"

lemma visible_append [simp]: "visible (as @ bs) = visible as @ visible bs"
  by (simp add: visible_def)

lemma visible_build: "list_all build_action as \<Longrightarrow> visible as = []"
  by (simp add: visible_def list_all_iff filter_empty_conv)

lemma cycle_filter_cong:
  "LastSeenSHA c (RepoKey x) = LastSeenSHA c' (RepoKey x) \<Longrightarrow> cycle_filter flt skipSHA c x = cycle_filter flt skipSHA c' x"
  by (simp add: cycle_filter_def SHAUnchangedFilter_def Let_def)

lemma repo_cong:
  assumes "LastSeenSHA c (Key repo) = LastSeenSHA c' (Key repo)"
  shows "repo_trace (cycle_reason w skipSHA c) f answer repo = repo_trace (cycle_reason w skipSHA c') f answer repo"
    "repo_seen (cycle_reason w skipSHA c) (LastSeenSHA c) answer repo
      = repo_seen (cycle_reason w skipSHA c') (LastSeenSHA c') answer repo"
proof -
  have "cycle_reason w skipSHA c repo x = cycle_reason w skipSHA c' repo x" for x
    by (rule cycle_filter_cong) (simp add: filter_input_def assms)
  then show "repo_trace (cycle_reason w skipSHA c) f answer repo = repo_trace (cycle_reason w skipSHA c') f answer repo"
    "repo_seen (cycle_reason w skipSHA c) (LastSeenSHA c) answer repo
      = repo_seen (cycle_reason w skipSHA c') (LastSeenSHA c') answer repo"
    using assms by (simp_all add: repo_trace_def repo_seen_def split: gathered.split)
qed

context watcher_env
begin

lemma cycle_skip_visible:
  assumes "\<And>x. \<not> build_action (IncFilterSkipped (WFilter w x))" "cycle_filter (WFilter w) skipSHA c x \<noteq> []"
  shows "\<not> build_action (IncFilterSkipped (cycle_filter (WFilter w) skipSHA c x))"
proof -
  have "cycle_filter (WFilter w) skipSHA c x = ''sha_unchanged'' \<or> (\<exists>y. cycle_filter (WFilter w) skipSHA c x = WFilter w y)"
    using cycle_filter_reason [OF assms(2)] by blast
  then show ?thesis
  proof
    assume "\<exists>y. cycle_filter (WFilter w) skipSHA c x = WFilter w y"
    then show ?thesis using assms(1) by metis
  qed simp
qed

text \<open>Backstop and gathering are invisible and leave the commits of the cursor alone.\<close>

lemma gathered_visible:
  assumes b: "runBackstop (WBackstop w) ctx repo c s = (c1, s1)" and g: "gatherRelease (WGh w) repo s1 = (g, s2)"
  shows "extends s s2" "visible (new_acts s s2) = []"
proof -
  have q: "extends s1 s2" "new_acts s1 s2 = []"
    using quiet_gatherRelease [OF g] quiet_extends new_acts_quiet by blast+
  show "extends s s2" using runBackstop_spec(1) [OF b] q(1) by (rule extends_trans)
  have "list_all build_action (new_acts s s1)"
    using runBackstop_spec(2) [OF b] back_build by (auto simp: list_all_iff)
  then show "visible (new_acts s s2) = []"
    using new_acts_trans [OF runBackstop_spec(1) [OF b] q(1)] q(2) by (simp add: visible_build)
qed

lemma processRepo_exact:
  assumes "ctx s = None" "steady (WGh w) answer repo" "\<And>release u. fst (WPublish w release u)"
    "\<And>x. \<not> build_action (IncFilterSkipped (WFilter w x))"
  obtains c' t where "processRepo w ctx skipSHA repo c s = (Continue, c', t)" "extends s t"
    "visible (new_acts s t) = repo_trace (cycle_reason w skipSHA c) command_of answer repo"
    "\<And>k. LastSeenSHA c' k = (if k = Key repo then repo_seen (cycle_reason w skipSHA c) (LastSeenSHA c) answer repo else LastSeenSHA c k)"
proof -
  obtain c1 s1 where b: "runBackstop (WBackstop w) ctx repo c s = (c1, s1)" by fastforce
  obtain s2 where g: "gatherRelease (WGh w) repo s1 = (answer repo, s2)"
    using assms(2) unfolding steady_def by blast
  note seen = runBackstop_spec(3) [OF b]
  note e = gathered_visible(1) [OF b g] and na = gathered_visible(2) [OF b g]
  have later: "extends s v" "visible (new_acts s v) = visible (new_acts s2 v)" if "extends s2 v" for v
    using extends_trans [OF e that] new_acts_trans [OF e that] na by auto
  show thesis
  proof (cases "answer repo")
    case (Gathered release)
    define reason where "reason = cycle_filter (WFilter w) skipSHA c (filter_input repo release)"
    have reason: "cycle_filter (WFilter w) skipSHA c1 (filter_input repo release) = reason"
      unfolding reason_def by (rule cycle_filter_cong) (rule seen)
    show thesis
    proof (cases "reason = []")
      case True
      obtain u where p: "WPublish w release s2 = (True, u)" using assms(3) [of release s2] by (cases "WPublish w release s2") auto
      show thesis
        by (rule that [of "update_state (\<lambda>st. st\<lparr>LastSeenMasterSHA := HeadSHA release\<rparr>) (Key repo) c1" u])
          (use publish_acts [OF p] later True reason seen in
            \<open>simp_all add: processRepo_def assms(1) b g Gathered p repo_trace_def repo_seen_def
              reason_def [symmetric] LastSeenSHA_update_seen visible_def\<close>)
    next
      case False
      then have "\<not> build_action (IncFilterSkipped reason)"
        using cycle_skip_visible [OF assms(4)] unfolding reason_def by simp
      then show thesis
        by (intro that [of c1 "act (IncFilterSkipped reason) s2"])
          (use later [OF extends_act, of "IncFilterSkipped reason"] False reason seen in
            \<open>simp_all add: new_acts_act processRepo_def assms(1) b g Gathered repo_trace_def repo_seen_def
              reason_def [symmetric] visible_def Let_def\<close>)
    qed
  next
    case Dropped
    show thesis
      by (rule that [of c1 s2]) (use e na seen in
        \<open>simp_all add: processRepo_def assms(1) b g Dropped repo_trace_def repo_seen_def\<close>)
  qed (use assms(2) in \<open>simp_all add: steady_def\<close>)
qed

lemma processRepos_exact:
  assumes env: "\<And>u. ctx u = None" "\<And>release u. fst (WPublish w release u)"
      "\<And>x. \<not> build_action (IncFilterSkipped (WFilter w x))"
    and "\<forall>repo\<in>set repos. steady (WGh w) answer repo" "distinct (map Key repos)"
  shows "\<exists>c' t. processRepos w ctx skipSHA repos c s = (Some [], c', t) \<and> extends s t
    \<and> visible (new_acts s t) = concat (map (repo_trace (cycle_reason w skipSHA c) command_of answer) repos)
    \<and> (\<forall>repo\<in>set repos. LastSeenSHA c' (Key repo) = repo_seen (cycle_reason w skipSHA c) (LastSeenSHA c) answer repo)
    \<and> (\<forall>k. k \<notin> Key ` set repos \<longrightarrow> LastSeenSHA c' k = LastSeenSHA c k)"
  using assms(4,5)
proof (induction repos arbitrary: c s)
  case (Cons repo repos)
  obtain c1 s1 where p: "processRepo w ctx skipSHA repo c s = (Continue, c1, s1)" "extends s s1"
    "visible (new_acts s s1) = repo_trace (cycle_reason w skipSHA c) command_of answer repo"
    "\<And>k. LastSeenSHA c1 k = (if k = Key repo then repo_seen (cycle_reason w skipSHA c) (LastSeenSHA c) answer repo else LastSeenSHA c k)"
    by (rule processRepo_exact [of ctx s answer repo skipSHA c, OF env(1) _ env(2,3)]) (use Cons.prems(1) in simp_all)
  obtain c' t where r: "processRepos w ctx skipSHA repos c1 s1 = (Some [], c', t)" "extends s1 t"
    "visible (new_acts s1 t) = concat (map (repo_trace (cycle_reason w skipSHA c1) command_of answer) repos)"
    "\<forall>repo\<in>set repos. LastSeenSHA c' (Key repo) = repo_seen (cycle_reason w skipSHA c1) (LastSeenSHA c1) answer repo"
    "\<forall>k. k \<notin> Key ` set repos \<longrightarrow> LastSeenSHA c' k = LastSeenSHA c1 k"
    using Cons.IH [of c1 s1] Cons.prems by (simp del: processRepos.simps) blast
  have same: "LastSeenSHA c1 (Key q) = LastSeenSHA c (Key q)" if "q \<in> set repos" for q
  proof -
    have "Key q \<in> Key ` set repos" using that by (rule imageI)
    then have "Key q \<noteq> Key repo" using Cons.prems(2) by (auto simp del: imageE)
    then show ?thesis by (simp add: p(4))
  qed
  have m: "map (repo_trace (cycle_reason w skipSHA c1) command_of answer) repos
      = map (repo_trace (cycle_reason w skipSHA c) command_of answer) repos"
    by (intro map_cong refl repo_cong(1) same)
  have "visible (new_acts s t)
      = concat (map (repo_trace (cycle_reason w skipSHA c) command_of answer) (repo # repos))"
    using new_acts_trans [OF p(2) r(2)] p(3) r(3) [unfolded m] by simp
  moreover have "\<forall>q\<in>set (repo # repos). LastSeenSHA c' (Key q) = repo_seen (cycle_reason w skipSHA c) (LastSeenSHA c) answer q"
    using r(4,5) repo_cong(2) [OF same] p(4) Cons.prems(2) by auto
  moreover have "\<forall>k. k \<notin> Key ` set (repo # repos) \<longrightarrow> LastSeenSHA c' k = LastSeenSHA c k"
    using r(5) p(4) by simp
  ultimately show ?case using extends_trans [OF p(2) r(2)] p(1) r(1) by simp
qed (simp add: visible_def)

lemma Poll_exact:
  assumes env: "\<And>u. ctx u = None" "\<And>release u. fst (WPublish w release u)"
      "\<And>x. \<not> build_action (IncFilterSkipped (WFilter w x))"
    and load: "LoadCursor (WCursorPath w) s = Inr c0" "\<not> quota_gate w scope s"
    and res: "resolveRepos w ctx scope s = Some (Some repos, u)"
    and fleet: "\<forall>repo\<in>set repos. steady (WGh w) answer repo" "distinct (map Key repos)"
    and disk: "writeFault (Fs s) (tmp_path (WCursorPath w)) = None" "renameFault (Fs s) (tmp_path (WCursorPath w)) = None"
  obtains t c where "Poll w ctx skipSHA scope s = Some (PollOk, t)"
    "visible (new_acts s t) = IncReposScanned (length repos)
       # concat (map (repo_trace (cycle_reason w skipSHA c0) command_of answer) repos) @ [IncPollCycle ''success'', gauge w s]"
    "files (Fs t) (WCursorPath w) = Some (json_print (encode_cursor c))"
    "\<And>repo. repo \<in> set repos \<Longrightarrow> LastSeenSHA c (Key repo) = repo_seen (cycle_reason w skipSHA c0) (LastSeenSHA c0) answer repo"
    "\<And>k. k \<notin> Key ` set repos \<Longrightarrow> LastSeenSHA c k = LastSeenSHA c0 k"
proof -
  let ?s1 = "act (IncReposScanned (length repos)) u"
  have q: "quiet s u" by (rule resolveRepos_some [OF res])
  obtain c v where step: "processRepos w ctx skipSHA repos c0 ?s1 = (Some [], c, v)" and ext: "extends ?s1 v"
    and vis: "visible (new_acts ?s1 v) = concat (map (repo_trace (cycle_reason w skipSHA c0) command_of answer) repos)"
    and seen: "\<forall>repo\<in>set repos. LastSeenSHA c (Key repo) = repo_seen (cycle_reason w skipSHA c0) (LastSeenSHA c0) answer repo"
      "\<forall>k. k \<notin> Key ` set repos \<longrightarrow> LastSeenSHA c k = LastSeenSHA c0 k"
    using processRepos_exact [of ctx repos answer skipSHA c0 ?s1, OF env fleet] by blast
  have fs: "Fs v = Fs s" using ext q by (simp add: extends_def quiet_def)
  define t where "t = act (gauge w s) (act (IncPollCycle ''success'') (snd (SaveCursor (WCursorPath w) c v)))"
  have "Acts v = Acts s @ [IncReposScanned (length repos)] @ new_acts ?s1 v"
    using Acts_extends [OF ext] q by (simp add: quiet_def)
  then have "new_acts s t = [IncReposScanned (length repos)] @ new_acts ?s1 v @ [IncPollCycle ''success'', gauge w s]"
    by (intro new_acts_eq) (simp add: t_def SaveCursor_Acts)
  then have "visible (new_acts s t) = IncReposScanned (length repos)
      # visible (new_acts ?s1 v) @ [IncPollCycle ''success'', gauge w s]"
    by (simp add: visible_def gauge_def)
  moreover have "files (Fs t) (WCursorPath w) = Some (json_print (encode_cursor c))"
    using SaveCursor_healthy [OF disk] SaveCursor_Fs [OF fs, of "WCursorPath w" c] by (simp add: t_def)
  moreover have "Poll w ctx skipSHA scope s = Some (PollOk, t)"
    using load res step by (simp add: Poll_def t_def gauge_def Let_def del: processRepos.simps)
  ultimately show thesis using that [of t c] vis seen by simp
qed

end

text \<open>The publisher reports success when the command sender accepts every command.\<close>

lemma app_publishes:
  assumes "\<And>cmd w. fst (CreateKafkaSender p (AppTopicPrefix a) cmd w) = None"
  shows "fst (WPublish (app_watcher p a api d) release u)"
  using assms [of _ "Ext u"]
  by (auto simp: app_watcher_sel PublishCreate_def SendCreateCommand_def world_call_def Let_def
      split: prod.splits option.splits) (metis fst_conv option.distinct(1))

lemma app_filter_visible: "\<not> build_action (IncFilterSkipped (WFilter (app_watcher p a api d) x))"
proof -
  have "WFilter (app_watcher p a api d) x \<in> {[], ''scope'', ''empty_unreleased'', ''auto_release'', ''fork''}"
    using static_filters_reasons by (simp add: app_watcher_sel)
  then show ?thesis by (elim insertE emptyE) simp_all
qed

lemma static_reason:
  "cycle_filter (CreateStaticFilters isAllowed allowlist) skipSHA c (filter_input repo release)
     = skip_reason (isAllowed allowlist) skipSHA (LastSeenSHA c) repo release"
  by (simp add: cycle_filter_def CreateStaticFilters_def filter_defs filter_input_def
      SHAUnchangedFilter_def skip_reason_def Let_def)

end
