(* ===== verification/Spec2Isabelle.thy ===== *)
theory Spec2Isabelle
  imports Demo Fleet
begin

text \<open>
  github-release-watcher polls the repositories of one GitHub owner, decides for each of them
  whether a release task is due (unreleased changelog bullets, an opt-in, a commit it has not
  announced yet), hands such tasks over to Kafka, and starts container builds for new tags. It
  is driven by a timer, by an HTTP trigger and by signed GitHub webhooks. This development
  models the Go code of the repository as functions on an explicit state and proves what the
  parts promise each other.

  \<^bold>\<open>State and effects.\<close> The process is the record \<open>sys\<close> of theory Process: the outside world
  \<open>Ext\<close> (opaque; only the parameters that stand for other packages touch it), the rate reading
  of the transport, the files, the debouncer's map, the log lines the transport writes, and
  \<open>Acts\<close>, the list of everything observable that the process did: commands handed over, Jobs
  handed to the deployer and metric updates, in order. A fallible function returns
  \<open>goerr + 'a\<close>; a panic is \<open>PollPanic\<close> or \<open>None\<close>, a loop that does not return is \<open>None\<close>.

  \<^bold>\<open>Theories and the code they model\<close> (paths under src/):
  \<^item> Prelude, Go_Strings, Json, Sha256, Go_Duration: error values, and what the code uses of Go's
    strings, strconv, utf8, encoding/json, sha256, hmac, hex and time packages. Strings are byte
    strings.
  \<^item> Domain: pkg/repo.go, release.go, taskid.go, filename.go, taskbuilder.go.
  \<^item> Filters: pkg/filter and the chain of pkg/factory. Changelog: pkg/changelog.go.
  \<^item> Process: the state and a file system with injected faults (open, partial write, rename).
  \<^item> Cursor: pkg/cursor.go and cursor_handler.go. Debounce: pkg/debounce.go.
  \<^item> Transport: the HTTP round tripper of pkg/githubclient.go and pkg/non2xx_log.go;
    Github_Client: the client of pkg/githubclient.go over the calls of the go-github package.
  \<^item> Build_Config, Manifest, Image_Ref, Dispatch: pkg/build (configuration and destinations,
    rendering and Job names, registry pre-flight, the dispatcher's gates).
  \<^item> Build_Adapters: pkg/buildadapters.go and the dispatcher that pkg/factory puts together.
  \<^item> Publisher: pkg/taskpublisher.go. Backstop: pkg/backstop.go. Watcher: pkg/watcher.go.
  \<^item> Command: the command of pkg/command and its sender; Webhook: pkg/handler.
  \<^item> Mem_DB: pkg/memdb.go. Metrics: pkg/metrics.go.
  \<^item> Factory: the watcher, senders, handlers, executor and consumer as pkg/factory, main.go and
    cmd/run-once compose them, the poll loop, and the credentials check of pkg/auth.
  \<^item> Service: a sequential abstraction of the service of main.go as a state machine; a step is a
    whole cycle, command or request, or something outside. Server: the routes of main.go and the
    handlers of cursor_handler.go behind them. Concurrent: what main.go really does with them: a
    cycle of watcher.go, a save of cursor.go and an operator request as threads that move in small
    steps and interleave.
  \<^item> Fleet: what a cycle does when its collaborators are steady. Delivery: the way of a command
    from the webhook of pkg/handler through the sender to the executor of pkg/command. Retry:
    what the backstop tries again. Demo: the concrete inputs at which the properties of this
    theory are applied.

  \<^bold>\<open>Interfaces.\<close> Every Go interface that one component consumes is a locale whose laws the
  provider's model discharges by an interpretation: \<open>github_client\<close> (a query moves nothing but
  the world, the reading and the log), \<open>task_publisher\<close>, \<open>build_deps\<close> (the five collaborators
  of the dispatcher), \<open>build_dispatcher\<close>, \<open>tag_backstop\<close>, \<open>trigger_sender\<close>, \<open>kv_bucket\<close>, and
  \<open>watcher_env\<close>, which puts together what a poll cycle relies on, with its extension
  \<open>addressed_watcher\<close> for commands that name their repository and commit. The facts about a
  cycle are proved once in \<open>watcher_env\<close> and used here for the service (\<open>app\<close>) and for the
  run-once program (\<open>once\<close>). What the router and the handler wrappers of other packages are
  relied on for is the predicate \<open>web_ok\<close> of Server.

  \<^bold>\<open>What is shown.\<close> Here: a cycle announces only what is due; with steady collaborators its
  actions and its cursor are those of a decision list over the repositories; it moves the cursor only with the work done, keeps it on every failure,
  reports itself once, respects the quota gate and ends; a later cycle does not announce again
  what a saved one announced; a build that was put off is not tried again; a push answered with
  202 is worked off, and a command builds before it polls; run-once builds nothing; the
  service starts exactly on a sound configuration. Over all sequential runs of the service: the
  cursor names only commits that were announced or set, and no unknown metric label is
  added; every request is one step of such a run and the poll loop is one (Service also has that
  every Job of a run was admitted by the dispatcher). Over all interleavings, whatever the disk
  does and wherever the process is killed: the cursor can be loaded and names only such commits as
  long as no two savers are between opening and renaming the temporary file at once. The code
  does not keep them apart, and when they meet the cursor file is spoilt, on a working disk too;
  and when they do not, the later one still forgets what the earlier one recorded (Concurrent
  also has that a cycle or a request that is left alone does what the sequential one does). In the
  component theories: the cursor's round trip and the atomicity of its
  file; the parser's refinement of a declarative reading; the gates a created Job passed and the
  decision of every gate; what a manifest becomes, without leftovers; the shape and uniqueness of
  Job names, and its limit; the pre-flight that fails closed; the signature check, the replies and the debounce
  of the webhook; the refinement of the store to a map of maps; the round trips of image
  references and registry credentials; the listing's scope and termination; the transparency of
  the transport; the poll loop.

  \<^bold>\<open>Bounds.\<close> JSON values nest at most \<open>max_depth\<close> = 10000 deep as in encoding/json, and the
  parser's fuel, two units per byte, is never the reason for a failure on what the encoder
  wrote. The line scanner stops at 64 KiB.
  Listing repositories follows the page numbers of the server and is a \<open>partial_function\<close>; that
  it returns is proved for page numbers that grow below a bound. Go's \<open>int\<close> and \<open>int64\<close> are
  unbounded \<open>int\<close>: the code counts lines, pages, Jobs and seconds, and never comes near the
  limit. Durations are nanoseconds as \<open>int\<close>, parsed with the 64-bit overflow checks of the time
  package; seconds as floating point numbers only reach a metric and are kept in nanoseconds,
  and the one floating point product of the duration parser is a parameter. SHA-256 is on
  32-bit words.

  \<^bold>\<open>Parameters.\<close> Code that is not in the repository is an argument: the go-github calls, the
  HTTP client of the pre-flight, the YAML decoders, the cluster API and Job deployer, the Kafka
  producer, the command creator, senders and event codec of the cqrs package, the HTTP router and
  the handler wrappers, the allowlist matcher, the label check of
  apimachinery, UUIDv5, clocks and random bytes. What is relied on for them is named where it is
  used: \<open>web_ok\<close> for the router and the wrappers, \<open>codec_ok\<close> for the event codec and the
  command creator, \<open>steady\<close> for a repository that answers the same whenever it is asked.

  \<^bold>\<open>Not modelled.\<close> The glog lines other than the one for a non-2xx answer; how the router matches
  paths and how the wrappers turn an error into a response; failures of writing a response; the
  Kafka consumer and its use of the offset store; \<open>main\<close>, flag parsing, closing of clients,
  signal handling and shutdown; registration with prometheus; the generated mocks. In the
  interleavings, one turn of the loop over the repositories, which shares no file, and one read
  of the cursor file are atomic; a save goes byte by byte. Reading is several system calls in the
  code, but on one open file, which other savers replace and do not change, unless one of them
  still writes into a file that another one renamed. A duplicated member of a
  JSON list of commits is decoded afresh, as documented, not merged into the elements of the
  earlier one.
\<close>

section \<open>The cycle\<close>

text \<open>C1: a task command is only handed over when it is due. It was built from what the
  GitHub client read for a repository of the configured owner (in a scoped cycle, for the named
  repository) that the allowlist lets through, whose changelog has unreleased bullets, which
  opted in, and which is no fork unless it allows forks. Unless the cycle is forced, the
  repository's commit differs from the one in the cursor, or from one announced for the same
  repository earlier in this very cycle.\<close>

theorem Poll_sends_only_due:
  assumes "Poll (app_watcher p a api (Some (app_dispatcher p api cl))) ctx skipSHA scope s = Some (r, t)"
    and "LoadCursor (AppCursorPath a) s = Inr c0"
    and "SendCreate cmd ok \<in> set (new_acts s t)"
  shows "\<exists>release repo u v. cmd = app_command p a release \<and> RelRepo release = repo
    \<and> gatherRelease (NewGitHubClient api) repo u = (Gathered release, v)
    \<and> Owner repo = AppOwner a \<and> (scope \<noteq> [] \<longrightarrow> RepoString repo = scope)
    \<and> IsAllowed p (ParseRepoAllowlist (AppRepoAllowlist a)) (Key repo)
    \<and> UnreleasedBullets release \<noteq> 0 \<and> AutoRelease release \<and> (Fork repo \<longrightarrow> AllowFork release)
    \<and> (skipSHA \<or> LastSeenSHA c0 (Key repo) \<noteq> HeadSHA release
       \<or> (\<exists>earlier. SendCreate (app_command p a earlier) True \<in> set (new_acts s t)
            \<and> Key (RelRepo earlier) = Key repo \<and> HeadSHA earlier \<noteq> HeadSHA release))"
proof -
  let ?w = "app_watcher p a api (Some (app_dispatcher p api cl))"
  have load: "LoadCursor (WCursorPath ?w) s = Inr c0" using assms(2) by (simp add: app_watcher_sel)
  obtain repos u where res: "resolveRepos ?w ctx scope s = Some (Some repos, u)"
    and j: "send_justified ?w (app_command p a) skipSHA repos c0 (new_acts s t) cmd"
    using app.Poll_sends [OF assms(1) load assms(3)] by blast
  obtain release where rel: "cmd = app_command p a release" "RelRepo release \<in> set repos"
    and g: "gathered_as (NewGitHubClient api) release"
    and flt: "WFilter ?w (filter_input (RelRepo release) release) = []"
    and due: "skipSHA \<or> LastSeenSHA c0 (Key (RelRepo release)) \<noteq> HeadSHA release
       \<or> (\<exists>sha. sha \<noteq> HeadSHA release \<and> sent (app_command p a) (new_acts s t) (Key (RelRepo release)) sha)"
    using j unfolding send_justified_def app_watcher_sel by blast
  have f: "IsAllowed p (ParseRepoAllowlist (AppRepoAllowlist a)) (Key (RelRepo release))
    \<and> UnreleasedBullets release \<noteq> 0 \<and> AutoRelease release \<and> (Fork (RelRepo release) \<longrightarrow> AllowFork release)"
    using flt by (simp add: app_watcher_sel static_filters_pass_iff filter_input_def)
  obtain u v where "gatherRelease (NewGitHubClient api) (RelRepo release) u = (Gathered release, v)"
    using g unfolding gathered_as_def by blast
  moreover have "skipSHA \<or> LastSeenSHA c0 (Key (RelRepo release)) \<noteq> HeadSHA release
       \<or> (\<exists>earlier. SendCreate (app_command p a earlier) True \<in> set (new_acts s t)
            \<and> Key (RelRepo earlier) = Key (RelRepo release) \<and> HeadSHA earlier \<noteq> HeadSHA release)"
    using due unfolding sent_def by blast
  ultimately show ?thesis using rel(1) f resolveRepos_owned [OF res rel(2)] by blast
qed

theorem Poll_sends_only_due_witness:
  "\<exists>release repo. app_command demo_platform demo_app demo_release = app_command demo_platform demo_app release
     \<and> RelRepo release = repo \<and> RepoString repo = ''bborbe/kv'' \<and> UnreleasedBullets release \<noteq> 0"
  using Poll_sends_only_due [OF demo_poll [unfolded demo_watcher_def] demo_load_start, of
      "app_command demo_platform demo_app demo_release" True]
  by (force simp: new_acts_eq [of _ _ "Acts demo_done"] demo_done_acts)

text \<open>C4: the cursor file only moves with the work that was done. After a cycle the files are as
  before, or the cursor was saved once, at the end of a successful cycle; in the saved cursor a
  repository's commit is the old one or that of a command handed over successfully in this
  cycle, and its tag is the old one or one for which the dispatcher returned without error.\<close>

theorem Poll_cursor_follows_work:
  assumes "Poll (app_watcher p a api (Some (app_dispatcher p api cl))) ctx skipSHA scope s = Some (r, t)"
    and "LoadCursor (AppCursorPath a) s = Inr c0"
  shows "Fs t = Fs s \<or> (\<exists>c. Fs t = Fs (snd (SaveCursor (AppCursorPath a) c s))
    \<and> r = PollOk \<and> IncPollCycle ''success'' \<in> set (new_acts s t)
    \<and> (\<forall>key. LastSeenSHA c key = LastSeenSHA c0 key
        \<or> (\<exists>release. SendCreate (app_command p a release) True \<in> set (new_acts s t)
             \<and> Key (RelRepo release) = key \<and> HeadSHA release = LastSeenSHA c key))
    \<and> (\<forall>key. built_tag c key = built_tag c0 key
        \<or> (\<exists>repo u v. Key repo = key \<and> Owner repo = AppOwner a \<and>
             app_dispatcher p api cl \<lparr>ReqRepo = RepoString repo, ReqTag = built_tag c key\<rparr> TriggerPoll u
               = (None, v))))"
proof -
  let ?w = "app_watcher p a api (Some (app_dispatcher p api cl))"
  have load: "LoadCursor (WCursorPath ?w) s = Inr c0" using assms(2) by (simp add: app_watcher_sel)
  show ?thesis
  proof (rule app.Poll_files [OF assms(1) load])
    assume "Fs t = Fs s"
    then show ?thesis by blast
  next
    fix c repos u
    assume fs: "Fs t = Fs (snd (SaveCursor (WCursorPath ?w) c s))"
      and ok: "IncPollCycle ''success'' \<in> set (new_acts s t)" "r = PollOk"
      and res: "resolveRepos ?w ctx scope s = Some (Some repos, u)"
      and m: "cursor_moves (app_command p a) (dispatched (Some (app_dispatcher p api cl))) repos (new_acts s t) c0 c"
    have "LastSeenSHA c key = LastSeenSHA c0 key
        \<or> (\<exists>release. SendCreate (app_command p a release) True \<in> set (new_acts s t)
             \<and> Key (RelRepo release) = key \<and> HeadSHA release = LastSeenSHA c key)" for key
      using cursor_moves_seen [OF m, of key] unfolding sent_def by blast
    moreover have "built_tag c key = built_tag c0 key
        \<or> (\<exists>repo u v. Key repo = key \<and> Owner repo = AppOwner a \<and>
             app_dispatcher p api cl \<lparr>ReqRepo = RepoString repo, ReqTag = built_tag c key\<rparr> TriggerPoll u
               = (None, v))" for key
      using cursor_moves_built [OF m, of key] resolveRepos_owned [OF res] unfolding dispatched_def by blast
    ultimately show ?thesis using fs ok by (auto simp: app_watcher_sel)
  qed
qed

theorem Poll_cursor_follows_work_witness:
  "\<exists>c. Fs demo_done = Fs (snd (SaveCursor ''c'' c (initial_sys () empty_fs)))
     \<and> LastSeenSHA c (Key demo_repo) \<in> {'''', ''abc1234def''}"
proof -
  have acts: "new_acts (initial_sys () empty_fs) demo_done = Acts demo_done" by (simp add: new_acts_def)
  have written: "files (Fs demo_done) ''c'' \<noteq> None"
    by (simp add: demo_done_def SaveCursor_def WriteFile_def Rename_def demo_scanned_def empty_fs_def)
  have "Fs demo_done \<noteq> Fs (initial_sys () empty_fs)" using written by (auto simp: empty_fs_def)
  then have "\<exists>c. Fs demo_done = Fs (snd (SaveCursor ''c'' c (initial_sys () empty_fs)))
      \<and> (\<forall>key. LastSeenSHA c key = LastSeenSHA \<lparr>Repos = Some fmempty\<rparr> key
      \<or> (\<exists>release. SendCreate (app_command demo_platform demo_app release) True \<in> set (Acts demo_done)
           \<and> Key (RelRepo release) = key \<and> HeadSHA release = LastSeenSHA c key))"
    using Poll_cursor_follows_work [OF demo_poll [unfolded demo_watcher_def] demo_load_start]
    unfolding acts demo_sel by blast
  then obtain c where c: "Fs demo_done = Fs (snd (SaveCursor ''c'' c (initial_sys () empty_fs)))"
    and seen: "LastSeenSHA c (Key demo_repo) = LastSeenSHA \<lparr>Repos = Some fmempty\<rparr> (Key demo_repo)
      \<or> (\<exists>release. SendCreate (app_command demo_platform demo_app release) True \<in> set (Acts demo_done)
           \<and> HeadSHA release = LastSeenSHA c (Key demo_repo))"
    by blast
  have "HeadSHA release = ''abc1234def''"
    if "app_command demo_platform demo_app release = app_command demo_platform demo_app demo_release" for release
  proof -
    have "Frontmatter (app_command demo_platform demo_app r) ''ref'' = Some (HeadSHA r)" for r
      by (simp add: app_command_def BuildCreateCommand_def buildFrontmatter_def Let_def)
    then show ?thesis using that by (metis demo_sel(9) option.inject)
  qed
  moreover have "LastSeenSHA \<lparr>Repos = Some fmempty\<rparr> (Key demo_repo) = ''''"
    by (simp add: LastSeenSHA_def repo_entry_def)
  ultimately show ?thesis using c seen by (auto simp: demo_done_acts)
qed

text \<open>C18: a cycle that does not succeed leaves the cursor alone. If the cursor cannot be read
  the cycle fails at once and nothing else happened; and whenever the success of a cycle was not
  counted (quota too low, listing failed, rate limit, a panic of the changelog parser, a scope
  outside the owner) the files are exactly as before, so the next cycle sees the same work.\<close>

theorem Poll_failure_keeps_cursor:
  assumes "Poll (app_watcher p a api (Some (app_dispatcher p api cl))) ctx skipSHA scope s = Some (r, t)"
  shows "((\<exists>e. r = PollErr e) \<longleftrightarrow> (\<exists>e. LoadCursor (AppCursorPath a) s = Inl e))
    \<and> ((\<exists>e. r = PollErr e) \<longrightarrow> t = s)
    \<and> (IncPollCycle ''success'' \<notin> set (new_acts s t) \<longrightarrow> Fs t = Fs s)"
proof (cases "LoadCursor (AppCursorPath a) s")
  case (Inl e)
  then have "t = s" "\<exists>e. r = PollErr e" using assms by (auto simp: Poll_def app_watcher_sel)
  with Inl show ?thesis by simp
next
  case (Inr c0)
  let ?w = "app_watcher p a api (Some (app_dispatcher p api cl))"
  have load: "LoadCursor (WCursorPath ?w) s = Inr c0" using Inr by (simp add: app_watcher_sel)
  have "r = PollOk \<or> r = PollPanic"
    using app.Poll_cases [OF assms load] by (auto simp: ended_early_def scanned_def)
  moreover have "IncPollCycle ''success'' \<notin> set (new_acts s t) \<longrightarrow> Fs t = Fs s"
    by (rule app.Poll_files [OF assms load]) auto
  ultimately show ?thesis using Inr by auto
qed

theorem Poll_failure_keeps_cursor_witness:
  "\<exists>e. Poll demo_watcher (\<lambda>_. None) False [] demo_bad = Some (PollErr e, demo_bad)"
proof -
  obtain e where e: "LoadCursor (AppCursorPath demo_app) demo_bad = Inl e"
    by (simp add: LoadCursor_def ReadFile_def demo_bad_def)
  then obtain r t where "Poll demo_watcher (\<lambda>_. None) False [] demo_bad = Some (r, t)"
    by (simp add: Poll_def demo_watcher_def app_watcher_sel)
  from Poll_failure_keeps_cursor [OF this [unfolded demo_watcher_def]] this e show ?thesis by auto
qed

text \<open>C21: every cycle reports itself once. After the cursor was read, a cycle counts at most one
  result; it counts none only when the changelog parser panicked or when the scope lies outside
  the owner, in which case it does nothing else either. Its last action sets the quota gauge, and
  the gauge then shows the reading from the start of the cycle, whatever quota its own calls
  used up.\<close>

theorem Poll_reports_once:
  assumes "Poll (app_watcher p a api (Some (app_dispatcher p api cl))) ctx skipSHA scope s = Some (r, t)"
    and "LoadCursor (AppCursorPath a) s = Inr c0"
  shows "\<exists>as. new_acts s t = as @ [SetRateLimitRemaining (RateRemaining s)]
    \<and> length (filter (\<lambda>a. \<exists>x. a = IncPollCycle x) as) \<le> 1
    \<and> (filter (\<lambda>a. \<exists>x. a = IncPollCycle x) as = [] \<longleftrightarrow> r = PollPanic \<or> as = [])
    \<and> (as = [] \<longrightarrow> scope \<noteq> [] \<and> scopeRepo scope (AppOwner a) = None)
    \<and> rateLimitRemaining (exported t) = RateRemaining s"
proof -
  let ?w = "app_watcher p a api (Some (app_dispatcher p api cl))"
  have load: "LoadCursor (WCursorPath ?w) s = Inr c0" using assms(2) by (simp add: app_watcher_sel)
  have g: "gauge ?w s = SetRateLimitRemaining (RateRemaining s)"
    by (simp add: gauge_def app_watcher_sel NewGitHubClient_def gc_RateLimitRemaining_def)
  have acts: "Acts t = Acts s @ new_acts s t"
    using app.Poll_cases [OF assms(1) load] by (auto simp: ended_early_def scanned_def new_acts_def)
  show ?thesis
  proof (rule app.Poll_result [OF assms(1) load], unfold g)
    fix as
    assume as: "new_acts s t = as @ [SetRateLimitRemaining (RateRemaining s)]"
      "length (filter (\<lambda>a. \<exists>x. a = IncPollCycle x) as) \<le> 1"
      "filter (\<lambda>a. \<exists>x. a = IncPollCycle x) as = [] \<longleftrightarrow> r = PollPanic \<or> as = []"
      "as = [] \<longrightarrow> scope \<noteq> [] \<and> scopeRepo scope (WOwner ?w) = None"
    have "rateLimitRemaining (exported t) = RateRemaining s"
      using exported_append [OF acts] as(1) by simp
    then show ?thesis using as by (auto simp: app_watcher_sel)
  qed
qed

theorem Poll_reports_once_witness: "rateLimitRemaining (exported demo_done) = 0"
  using Poll_reports_once [OF demo_poll [unfolded demo_watcher_def] demo_load_start] by auto

text \<open>C22: the quota gate. A cycle counts a low quota exactly when it scans the whole fleet and
  the last known reading is positive and below the configured minimum; such a cycle makes no
  call at all and changes nothing but its two metrics. A triggered, scoped cycle is never held
  back, and neither is one before the first reading.\<close>

theorem Poll_quota_gate:
  assumes "Poll (app_watcher p a api (Some (app_dispatcher p api cl))) ctx skipSHA scope s = Some (r, t)"
    and "LoadCursor (AppCursorPath a) s = Inr c0"
  shows "(IncPollCycle ''quota_low'' \<in> set (new_acts s t) \<longleftrightarrow>
      scope = [] \<and> 0 < RateRemaining s \<and> RateRemaining s < AppQuotaMinRemaining a)
    \<and> (IncPollCycle ''quota_low'' \<in> set (new_acts s t) \<longrightarrow> r = PollOk \<and>
      t = act (SetRateLimitRemaining (RateRemaining s)) (act (IncPollCycle ''quota_low'') s))"
proof -
  let ?w = "app_watcher p a api (Some (app_dispatcher p api cl))"
  have load: "LoadCursor (WCursorPath ?w) s = Inr c0" using assms(2) by (simp add: app_watcher_sel)
  have q: "quota_gate ?w scope s \<longleftrightarrow> scope = [] \<and> 0 < RateRemaining s \<and> RateRemaining s < AppQuotaMinRemaining a"
    by (auto simp: quota_gate_def app_watcher_sel NewGitHubClient_def gc_RateLimitRemaining_def Let_def)
  have rl: "RateLimitRemaining (WGh ?w) s = RateRemaining s"
    by (simp add: app_watcher_sel NewGitHubClient_def gc_RateLimitRemaining_def)
  have low: "IncPollCycle ''quota_low'' \<in> set (new_acts s t) \<longrightarrow> quota_gate ?w scope s"
    by (rule app.Poll_result [OF assms(1) load]) (simp add: gauge_def)
  have eq: "r = PollOk \<and> t = act (SetRateLimitRemaining (RateRemaining s)) (act (IncPollCycle ''quota_low'') s)"
    if "quota_gate ?w scope s"
    using assms(1) load that unfolding Poll_def by (simp add: rl)
  have "new_acts s (act y (act x s)) = [x, y]" for x y by (simp add: new_acts_def)
  then have "quota_gate ?w scope s \<longrightarrow> IncPollCycle ''quota_low'' \<in> set (new_acts s t)"
    using eq by simp
  then show ?thesis using low eq unfolding q by blast
qed

theorem Poll_quota_gate_witness: "IncPollCycle ''quota_low'' \<notin> set (Acts demo_done)"
  using Poll_quota_gate [OF demo_poll [unfolded demo_watcher_def] demo_load_start] by (simp add: new_acts_def)

text \<open>C20: a cycle ends. When the page numbers the server announces grow and stay below some
  bound, every cycle returns, with a result, an error or a panic, whatever the services answer.\<close>

theorem Poll_terminates:
  assumes "\<And>page w xs gs nx w'. Apps_ListRepos api page w = (xs, Inr (gs, Some nx), w') \<Longrightarrow>
      nx = 0 \<or> (page < nx \<and> nx \<le> bound)"
  shows "\<exists>r t. Poll (app_watcher p a api d) ctx skipSHA scope s = Some (r, t)"
  by (rule Poll_returns) (rule assms)

theorem Poll_terminates_witness:
  "\<exists>r t. Poll (app_watcher demo_platform demo_app demo_api None) (\<lambda>_. None) False [] demo_bad = Some (r, t)"
  by (rule Poll_terminates [where bound = 2]) (auto simp: demo_api_def split: if_splits)

text \<open>C2: what a cycle does to the whole fleet. When the context stays alive, the repositories have
  distinct names and answer steadily (with a release, or by being dropped), every command is
  accepted and the disk works, a cycle returns and its actions, but for the builds of the tag
  backstop, are exactly: the number of repositories, for each of them in order the announcement
  when the filters let its release through or else the one skip they count, the success and the
  gauge. The cursor file ends up naming the announced commits and, for every other repository,
  the commit it named before.\<close>

theorem Poll_computes_fleet:
  assumes "\<And>u. ctx u = None" "\<And>cmd x. fst (CreateKafkaSender p (AppTopicPrefix a) cmd x) = None"
    and "LoadCursor (AppCursorPath a) s = Inr c0" "\<not> quota_gate (polling p a api cl) scope s"
    and "resolveRepos (polling p a api cl) ctx scope s = Some (Some repos, u)"
    and "\<forall>repo\<in>set repos. steady (NewGitHubClient api) answer repo" "distinct (map Key repos)"
    and "writeFault (Fs s) (tmp_path (AppCursorPath a)) = None" "renameFault (Fs s) (tmp_path (AppCursorPath a)) = None"
  shows "\<exists>t c. Poll (polling p a api cl) ctx skipSHA scope s = Some (PollOk, t)
    \<and> visible (new_acts s t) = IncReposScanned (length repos)
        # concat (map (repo_trace (skip_reason (IsAllowed p (ParseRepoAllowlist (AppRepoAllowlist a))) skipSHA
            (LastSeenSHA c0)) (app_command p a) answer) repos)
        @ [IncPollCycle ''success'', SetRateLimitRemaining (RateLimitRemaining (NewGitHubClient api) s)]
    \<and> files (Fs t) (AppCursorPath a) = Some (json_print (encode_cursor c))
    \<and> (\<forall>repo\<in>set repos. LastSeenSHA c (Key repo) =
        repo_seen (skip_reason (IsAllowed p (ParseRepoAllowlist (AppRepoAllowlist a))) skipSHA
          (LastSeenSHA c0)) (LastSeenSHA c0) answer repo)
    \<and> (\<forall>k. k \<notin> Key ` set repos \<longrightarrow> LastSeenSHA c k = LastSeenSHA c0 k)"
proof -
  note steps = app.Poll_exact [of ctx p a api cl, OF assms(1) app_publishes [OF assms(2)] app_filter_visible]
  show ?thesis
    by (rule steps [of s c0 scope repos u answer skipSHA])
      (use assms in \<open>auto simp: app_watcher_sel gauge_def static_reason\<close>)
qed

theorem Poll_computes_fleet_witness:
  "visible (Acts demo_done) = [IncReposScanned 1, SendCreate (app_command demo_platform demo_app demo_release) True,
     IncPublished ''create'', IncPollCycle ''success'', SetRateLimitRemaining 0]"
proof -
  let ?answer = "\<lambda>_ :: Repo. Gathered demo_release" and ?start = "initial_sys () empty_fs"
  have "scopeRepo ''bborbe/kv'' ''bborbe'' = Some demo_repo" by (simp add: scopeRepo_def demo_repo_def)
  then have res: "resolveRepos (polling demo_platform demo_app demo_api demo_cluster) (\<lambda>_. None) ''bborbe/kv'' ?start
      = Some (Some [demo_repo], ?start)"
    by (simp add: resolveRepos_def app_watcher_sel)
  have "\<exists>t c. Poll demo_watcher (\<lambda>_. None) False ''bborbe/kv'' ?start = Some (PollOk, t)
    \<and> visible (new_acts ?start t) = IncReposScanned (length [demo_repo])
        # concat (map (repo_trace (skip_reason (IsAllowed demo_platform (ParseRepoAllowlist (AppRepoAllowlist demo_app))) False
            (LastSeenSHA \<lparr>Repos = Some fmempty\<rparr>)) (app_command demo_platform demo_app) ?answer) [demo_repo])
        @ [IncPollCycle ''success'', SetRateLimitRemaining (RateLimitRemaining (NewGitHubClient demo_api) ?start)]"
    using Poll_computes_fleet [of "\<lambda>_. None" demo_platform demo_app _ _ demo_api demo_cluster, OF _ _ demo_load_start _ res, of ?answer False]
    unfolding demo_watcher_def by (auto simp: quota_gate_def steady_def demo_gather empty_fs_def)
  moreover have "repo_trace (skip_reason (IsAllowed demo_platform (ParseRepoAllowlist (AppRepoAllowlist demo_app))) False
      (LastSeenSHA \<lparr>Repos = Some fmempty\<rparr>)) (app_command demo_platform demo_app) ?answer demo_repo
    = [SendCreate (app_command demo_platform demo_app demo_release) True, IncPublished ''create'']"
    by (simp add: repo_trace_def skip_reason_def demo_release_def
        demo_repo_def LastSeenSHA_def repo_entry_def)
  moreover have "RateLimitRemaining (NewGitHubClient demo_api) ?start = 0"
    by (simp add: NewGitHubClient_def gc_RateLimitRemaining_def)
  ultimately show ?thesis using demo_poll by (auto simp: new_acts_def)
qed

text \<open>C24: the smoke test builds nothing. A run of the run-once program creates no Job and counts
  no build, whatever tags the repositories have; with an empty allowlist flag it stops with an
  error before anything else happened.\<close>

theorem Application_Run_builds_nothing:
  assumes "Application_Run p a ctx s = Some (r, t)" "OnceCreateWatcher a = OnceCreateWatcher (NewApplication p)"
  shows "(\<forall>job. CreateJob job \<notin> set (new_acts s t)) \<and> (\<forall>x. IncBuildDispatched x \<notin> set (new_acts s t))
    \<and> (OnceRepoAllowlist a = [] \<longrightarrow> t = s \<and> (\<exists>e. r = PollErr e))"
proof (cases "OnceRepoAllowlist a = []")
  case True
  then show ?thesis using assms by (auto simp: Application_Run_def)
next
  case al: False
  from Application_Run_polls [OF assms(1) al assms(2)] show ?thesis
  proof (elim disjE exE conjE)
    assume "quiet s t"
    then show ?thesis using al by (simp add: new_acts_quiet)
  next
    fix api u r'
    assume u: "quiet s u" and poll: "Poll (app_watcher p (once_flags a) api None) ctx False [] u = Some (r', t)"
    have "new_acts s t = new_acts u t" using u by (simp add: quiet_def new_acts_def)
    then show ?thesis using al once_poll_no_build [OF poll] by auto
  qed
qed

theorem Application_Run_builds_nothing_witness:
  "\<exists>e. Application_Run demo_platform (NewApplication demo_platform) (\<lambda>_. None) (initial_sys () empty_fs)
     = Some (PollErr e, initial_sys () empty_fs)"
proof -
  obtain r t where r: "Application_Run demo_platform (NewApplication demo_platform) (\<lambda>_. None) (initial_sys () empty_fs)
      = Some (r, t)" by (simp add: Application_Run_def NewApplication_def)
  from Application_Run_builds_nothing [OF r refl] r show ?thesis by (auto simp: NewApplication_def)
qed

text \<open>C25: a triggered command builds first and polls second. A command that cannot be decoded is
  skipped with the sentinel and changes nothing. Otherwise a tag is dispatched first, by build
  actions only; a dispatch error ends the command without a cycle, and every other outcome is
  followed by exactly one cycle for the command's scope and force flag, in the state the dispatch
  left, whose error is the command's error.\<close>

theorem runTriggerReleaseCheck_order:
  assumes "runTriggerReleaseCheck q (app_watcher p a api (Some (app_dispatcher p api cl)))
      (app_dispatcher p api cl) ctx obj s = Some (r, t)"
  shows "case unmarshalAndValidate q obj of
      Inl e \<Rightarrow> r = PollErr e \<and> t = s \<and> err_is ErrCommandObjectSkipped e
    | Inr cmd \<Rightarrow> \<exists>u. extends s u \<and> list_all build_action (new_acts s u) \<and> (Tag cmd = [] \<longrightarrow> u = s) \<and>
        ((\<exists>e e'. app_dispatcher p api cl \<lparr>ReqRepo = Scope cmd, ReqTag = Tag cmd\<rparr> TriggerWebhook s = (Some e, u)
            \<and> Tag cmd \<noteq> [] \<and> t = u \<and> r = PollErr e')
         \<or> (\<exists>r'. (Tag cmd \<noteq> [] \<longrightarrow>
                app_dispatcher p api cl \<lparr>ReqRepo = Scope cmd, ReqTag = Tag cmd\<rparr> TriggerWebhook s = (None, u))
              \<and> Poll (app_watcher p a api (Some (app_dispatcher p api cl))) ctx (Force cmd) (Scope cmd) u = Some (r', t)
              \<and> ((\<exists>e. r = PollErr e) \<longleftrightarrow> (\<exists>e. r' = PollErr e)) \<and> (r' = PollPanic \<longleftrightarrow> r = PollPanic)))"
proof (cases "unmarshalAndValidate q obj")
  case (Inl e)
  then have "err_is ErrCommandObjectSkipped e"
    by (auto simp: unmarshalAndValidate_def split: sum.splits option.splits)
  with Inl assms show ?thesis by (auto simp: runTriggerReleaseCheck_def)
next
  case (Inr cmd)
  let ?d = "app_dispatcher p api cl \<lparr>ReqRepo = Scope cmd, ReqTag = Tag cmd\<rparr> TriggerWebhook s"
  let ?poll = "Poll (app_watcher p a api (Some (app_dispatcher p api cl))) ctx (Force cmd) (Scope cmd)"
  define x where "x = (if Tag cmd \<noteq> [] then fst ?d else None)"
  define u where "u = (if Tag cmd \<noteq> [] then snd ?d else s)"
  have gate: "(if Tag cmd \<noteq> [] then ?d else (None, s)) = (x, u)" by (simp add: x_def u_def)
  have ext: "extends s u \<and> list_all build_action (new_acts s u)"
  proof (cases "Tag cmd = []")
    case False
    then have "?d = (x, u)" using gate by simp
    then show ?thesis unfolding app_dispatcher_def by (rule dispatcher.dispatch_acts)
  qed (simp add: u_def)
  show ?thesis
  proof (cases x)
    case (Some e)
    then have "Tag cmd \<noteq> []" "?d = (Some e, u)" using gate by (auto simp: x_def split: if_splits)
    moreover have "t = u" "\<exists>e'. r = PollErr e'"
      using assms Inr gate Some by (auto simp: runTriggerReleaseCheck_def)
    ultimately show ?thesis using ext Inr by auto
  next
    case None
    obtain r' t' where p: "?poll u = Some (r', t')"
      using assms Inr gate None
      by (cases "?poll u") (auto simp: runTriggerReleaseCheck_def)
    have rt: "t' = t" "((\<exists>e. r = PollErr e) \<longleftrightarrow> (\<exists>e. r' = PollErr e))" "r' = PollPanic \<longleftrightarrow> r = PollPanic"
      using assms Inr gate None p by (cases r'; auto simp: runTriggerReleaseCheck_def)+
    have "Tag cmd \<noteq> [] \<longrightarrow> ?d = (None, u)" using gate None by auto
    moreover have "Tag cmd = [] \<longrightarrow> u = s" by (simp add: u_def)
    ultimately show ?thesis unfolding Inr sum.case using ext p rt by blast
  qed
qed

theorem runTriggerReleaseCheck_order_witness:
  "\<exists>r'. Poll demo_watcher (\<lambda>_. None) False ''bborbe/kv'' (initial_sys () empty_fs) = Some (r', demo_done)"
proof -
  let ?obj = "demo_object"
  have un: "unmarshalAndValidate (Cqrs demo_platform) ?obj = Inr \<lparr>Scope = ''bborbe/kv'', Force = False, Tag = ''''\<rparr>"
    by (simp add: unmarshalAndValidate_def demo_platform_def Command_Validate_def demo_object_def)
  then have "runTriggerReleaseCheck (Cqrs demo_platform) demo_watcher
      (app_dispatcher demo_platform demo_api demo_cluster) (\<lambda>_. None) ?obj (initial_sys () empty_fs)
      = Some (PollOk, demo_done)"
    by (simp add: runTriggerReleaseCheck_def demo_poll)
  from runTriggerReleaseCheck_order [OF this [unfolded demo_watcher_def]]
  show ?thesis unfolding un demo_watcher_def by auto
qed

text \<open>C40: the service starts exactly when both durations parse, the credentials resolve, the
  producer connects and the cluster is reachable; a configuration error is reported before
  anything is contacted, and starting sends nothing and counts nothing.\<close>

theorem application_Run_starts:
  fixes p :: "'w platform" and a :: application and s :: "'w sys"
  defines "producer \<equiv> world_call (NewSyncProducer p (AppKafkaBrokers a) ''maintainer-watcher-github-release'') s"
  shows "((\<exists>svc. fst (application_Run p a s) = Inr svc) \<longleftrightarrow>
      (\<exists>i. ParseDuration (FloatFraction p) (AppPollInterval a) = Inr i)
      \<and> (\<exists>i. ParseDuration (FloatFraction p) (AppWebhookMinInterval a) = Inr i)
      \<and> (\<exists>api. ResolveGitHubClient (NewGithubApp p) (AppCredentials a) = Inr api)
      \<and> fst producer = None
      \<and> (\<exists>cl. fst (world_call (CreateClientset p) (snd producer)) = Inr cl))
   \<and> ((\<exists>e. ParseDuration (FloatFraction p) (AppPollInterval a) = Inl e)
      \<or> (\<exists>e. ParseDuration (FloatFraction p) (AppWebhookMinInterval a) = Inl e)
      \<or> (\<exists>e. ResolveGitHubClient (NewGithubApp p) (AppCredentials a) = Inl e)
      \<longrightarrow> snd (application_Run p a s) = s)
   \<and> quiet s (snd (application_Run p a s))"
proof -
  obtain x t where c1: "producer = (x, t)" by fastforce
  obtain y u where c2: "world_call (CreateClientset p) t = (y, u)" by fastforce
  note c1' = c1 [unfolded producer_def]
  have "quiet s t" "quiet s u" using quiet_world_call [OF c1'] quiet_world_call [OF c2] quiet_trans by blast+
  then show ?thesis unfolding producer_def
    by (cases "ParseDuration (FloatFraction p) (AppPollInterval a)";
        cases "ParseDuration (FloatFraction p) (AppWebhookMinInterval a)";
        cases "ResolveGitHubClient (NewGithubApp p) (AppCredentials a)"; cases x; cases y)
      (simp_all add: application_Run_def c1' c2)
qed

theorem application_Run_starts_witness:
  "\<exists>svc. fst (application_Run demo_platform demo_app (initial_sys () empty_fs)) = Inr svc"
proof -
  have d: "ParseDuration (FloatFraction demo_platform) (AppPollInterval demo_app) = Inr 600000000000"
    "ParseDuration (FloatFraction demo_platform) (AppWebhookMinInterval demo_app) = Inr 60000000000"
    unfolding demo_app_def by (simp_all add: ParseDuration_defaults)
  show ?thesis
    unfolding application_Run_starts [THEN conjunct1] d
    by (simp add: demo_platform_def demo_app_def ResolveGitHubClient_def world_call_def)
qed

section \<open>The cursor over time\<close>

text \<open>C3: a commit is announced once. After a successful cycle on a healthy disk, as long as
  the cursor file still holds what that cycle wrote, a later unforced cycle does not announce
  for a repository the commit that the first one announced for it, whatever happened to the
  services, the metrics and the process in between, unless the later cycle announces another
  commit for the same repository. Names and commits are valid UTF-8, as those of GitHub are.\<close>

theorem Poll_announces_once:
  assumes first: "Poll (polling p a api cl) ctx skipSHA scope s = Some (r, t)"
      "IncPollCycle ''success'' \<in> set (new_acts s t)"
      "SendCreate (app_command p a release) True \<in> set (new_acts s t)"
    and only: "\<forall>rel. SendCreate (app_command p a rel) True \<in> set (new_acts s t)
        \<and> Key (RelRepo rel) = Key (RelRepo release) \<longrightarrow> HeadSHA rel = HeadSHA release"
    and disk: "writeFault (Fs s) (tmp_path (AppCursorPath a)) = None"
      "renameFault (Fs s) (tmp_path (AppCursorPath a)) = None"
    and kept: "files (Fs s') (AppCursorPath a) = files (Fs t) (AppCursorPath a)"
      "readFault (Fs s') (AppCursorPath a) = None"
    and utf8: "\<And>repos u. resolveRepos (polling p a api cl) ctx scope s = Some (Some repos, u) \<Longrightarrow>
        \<forall>repo\<in>set repos. valid_utf8 (Key repo)"
      "valid_utf8 (Key (RelRepo release))" "valid_utf8 (HeadSHA release)"
    and second: "Poll (polling p a api cl) ctx' False scope' s' = Some (r', t')"
  shows "\<forall>again ok. SendCreate (app_command p a again) ok \<in> set (new_acts s' t')
      \<and> Key (RelRepo again) = Key (RelRepo release) \<and> HeadSHA again = HeadSHA release \<longrightarrow>
      (\<exists>other. SendCreate (app_command p a other) True \<in> set (new_acts s' t')
        \<and> Key (RelRepo other) = Key (RelRepo release) \<and> HeadSHA other \<noteq> HeadSHA release)"
proof -
  obtain c0 where c0: "LoadCursor (AppCursorPath a) s = Inr c0"
  proof (cases "LoadCursor (AppCursorPath a) s")
    case (Inl e)
    then show thesis using first(1,2) by (simp add: Poll_def app_watcher_sel)
  qed
  obtain c1 where c1: "LoadCursor (AppCursorPath a) s' = Inr c1"
    and seen: "LastSeenSHA c1 (Key (RelRepo release)) = HeadSHA release"
  proof (rule Poll_saved_load [OF first(1) c0 first(2) disk utf8(1) kept])
    fix c1
    assume "LoadCursor (AppCursorPath a) s' = Inr c1" "\<And>k. valid_utf8 k \<Longrightarrow> LastSeenSHA c1 k =
       clean (last_sent command_key command_sha k (new_acts s t) (LastSeenSHA c0 k))"
    then show thesis
      using that utf8(2,3) last_announced [OF first(1) c0 first(3) only] by (simp add: clean_valid)
  qed
  show ?thesis using Poll_resends [OF second c1] seen by metis
qed

theorem Poll_announces_once_witness:
  "\<exists>r t. Poll demo_watcher (\<lambda>_. None) False ''bborbe/kv'' demo_done = Some (r, t)
     \<and> SendCreate (app_command demo_platform demo_app demo_release) True \<notin> set (new_acts demo_done t)"
proof -
  let ?s = "initial_sys () empty_fs"
  obtain r t where p: "Poll demo_watcher (\<lambda>_. None) False ''bborbe/kv'' demo_done = Some (r, t)"
    using demo_returns by blast
  obtain c where c: "LoadCursor ''c'' demo_done = Inr c"
    by (rule LoadCursor_saved [OF demo_writes(1)]) (simp add: demo_writes(2))
  have sent: "IncPollCycle ''success'' \<in> set (new_acts ?s demo_done)"
    "SendCreate (app_command demo_platform demo_app demo_release) True \<in> set (new_acts ?s demo_done)"
    by (simp_all add: new_acts_def demo_done_acts)
  have only: "\<forall>rel. SendCreate (app_command demo_platform demo_app rel) True \<in> set (new_acts ?s demo_done)
      \<and> Key (RelRepo rel) = Key (RelRepo demo_release) \<longrightarrow> HeadSHA rel = HeadSHA demo_release"
    using demo_send [OF demo_poll] demo_load_start by auto
  have utf8: "valid_utf8 (Key demo_repo)" "valid_utf8 (HeadSHA demo_release)"
    by (simp_all add: valid_utf8_ascii Key_def demo_repo_def)
  have "\<forall>again ok. SendCreate (app_command demo_platform demo_app again) ok \<in> set (new_acts demo_done t)
      \<and> Key (RelRepo again) = Key (RelRepo demo_release) \<and> HeadSHA again = HeadSHA demo_release \<longrightarrow>
      (\<exists>other. SendCreate (app_command demo_platform demo_app other) True \<in> set (new_acts demo_done t)
        \<and> Key (RelRepo other) = Key (RelRepo demo_release) \<and> HeadSHA other \<noteq> HeadSHA demo_release)"
    by (rule Poll_announces_once [OF demo_poll [unfolded demo_watcher_def] sent only])
      (use utf8 p in \<open>auto simp: demo_watcher_def [symmetric] demo_writes(2) empty_fs_def dest!: demo_resolve\<close>)
  then show ?thesis using p demo_send [OF p c] by blast
qed

text \<open>C12: a build that was put off is not tried again. When the backstop's build of a tag was
  deferred at the concurrency cap, or the registry could not be asked for the image, no Job was
  created, and still the tag is recorded as built: a later pass that finds this record, with the
  tag at the head of the page as the newest one is, does nothing at all.\<close>

theorem put_off_build_forgotten:
  assumes "runBackstop (WBackstop (polling p a api cl)) ctx repo c s = (c1, t)"
    and "IncBuildDispatched ''deferred'' \<in> set (new_acts s t)
      \<or> IncFilterSkipped ''registry_unreachable'' \<in> set (new_acts s t)"
    and "runBackstop (WBackstop (polling p a api cl)) ctx' repo c2 s' = (c3, t')"
      "built_tag c2 (Key repo) = built_tag c1 (Key repo)"
    and "ListTags (NewGitHubClient api) repo s' = (Inr tags, u)" "tags \<noteq> []" "hd tags = built_tag c1 (Key repo)"
  shows "(\<forall>job. CreateJob job \<notin> set (new_acts s t)) \<and> built_tag c1 (Key repo) \<noteq> []
    \<and> c3 = c2 \<and> new_acts s' t' = []"
  using put_off_recorded [OF assms(1) assms(2) [folded put_off_def]]
    settled_backstop [OF assms(3,5,6)] assms(4,7) by simp

theorem put_off_build_forgotten_witness:
  "\<exists>c t. runBackstop demo_down (\<lambda>_. None) demo_repository \<lparr>Repos = Some fmempty\<rparr> (initial_sys () empty_fs) = (c, t)
     \<and> built_tag c (Key demo_repository) = ''v1'' \<and> new_acts t (snd (runBackstop demo_down (\<lambda>_. None) demo_repository c t)) = []"
proof -
  let ?s = "initial_sys () empty_fs" and ?w = "polling demo_offline demo_app demo_build_api demo_idle_cluster"
  let ?t = "act (IncFilterSkipped ''registry_unreachable'') ?s"
  let ?c = "update_state (\<lambda>st. st\<lparr>LastBuiltTag := ''v1''\<rparr>) (Key demo_repository) \<lparr>Repos = Some fmempty\<rparr>"
  have first: "runBackstop (WBackstop ?w) (\<lambda>_. None) demo_repository \<lparr>Repos = Some fmempty\<rparr> ?s = (?c, ?t)"
    unfolding demo_offline_backstop
    by (simp add: runBackstop_def demo_down_pass built_tag_def repo_entry_def)
  have tag: "built_tag ?c (Key demo_repository) = ''v1''" by (simp add: built_tag_update_built)
  have "new_acts ?t (snd (runBackstop (WBackstop ?w) (\<lambda>_. None) demo_repository ?c ?t)) = []"
    using put_off_build_forgotten [OF first _ prod.collapse [symmetric] refl demo_down_tags] tag by simp
  then show ?thesis using first tag unfolding demo_offline_backstop by blast
qed

section \<open>All runs of the service\<close>



text \<open>C23: the exported series are closed. If the registry shows exactly the label values that
  were created at start, no run of the service, whatever it is asked to do and whatever the
  repositories, tags and services are, adds a new one, unless a build was deferred at the
  concurrency cap: that one label value is not created at start.\<close>

theorem service_series_closed:
  assumes "runs p a api cl interval minInterval es s t" "series (exported s) = series NewMetrics"
  shows "series (exported t) = series NewMetrics \<or> IncBuildDispatched ''deferred'' \<in> set (new_acts s t)"
proof -
  have a: "Acts t = Acts s @ new_acts s t" and k: "list_all (known (app_dispatcher p api cl)) (new_acts s t)"
    using runs_known [OF assms(1)] by (simp_all add: known_step_def)
  show ?thesis
  proof (cases "IncBuildDispatched ''deferred'' \<in> set (new_acts s t)")
    case False
    then have "list_all initialised (new_acts s t)"
      using k unfolding list_all_iff known_def by blast
    then show ?thesis using series_closed [OF assms(2) a] by simp
  qed simp
qed

theorem service_series_closed_witness: "series (exported demo_done) = series NewMetrics"
proof -
  have "series (exported (initial_sys () empty_fs)) = series NewMetrics" by (simp add: exported_def)
  moreover have "IncBuildDispatched ''deferred'' \<notin> set (new_acts (initial_sys () empty_fs) demo_done)"
    by (simp add: new_acts_def demo_done_acts)
  ultimately show ?thesis using service_series_closed [OF demo_run] by blast
qed

section \<open>The program is the state machine\<close>

text \<open>C9: a push that was answered 202 is worked off. If the event codec keeps commands whose
  strings are valid UTF-8, the object that the request handed to Kafka carries the schema and the
  operation the service's own consumer is registered for, and handling it, in whatever state and
  however late, returns and does the work of the push: the tag that was pushed is dispatched
  first, and unless that failed, one unforced cycle for the pushed repository follows.\<close>

theorem push_is_carried_out:
  assumes "codec_ok (Cqrs p)"
    and "WebhookEndpoint (app_service p a api cl interval minInterval) req s = (Inr writeWebhookDispatched, t)"
  shows "\<exists>payload tag obj executor. unmarshal_push (BodyBytes (ReqBody req)) = Inr payload
    \<and> (if tag = [] then touchesReleaseFiles payload else PushRef payload = ''refs/tags/'' @ tag)
    \<and> handed_over (Cqrs p) (AppTopicPrefix a) obj (Ext s) (Ext t)
    \<and> SchemaID obj = ConsumerSchemaID (CommandConsumer (app_service p a api cl interval minInterval))
    \<and> Executors (CommandConsumer (app_service p a api cl interval minInterval)) = [executor]
    \<and> Operation (ObjCommand obj) = ExecOperation executor
    \<and> (\<forall>ctx u. \<exists>r v. HandleCommand executor ctx obj u = Some (r, v)
        \<and> work_done (polling p a api cl) (app_dispatcher p api cl) ctx
            \<lparr>Scope = FullName payload, Force = False, Tag = tag\<rparr> u r v)"
proof -
  let ?ex = "NewTriggerReleaseCheckCommandExecutor (Cqrs p) (polling p a api cl) (app_dispatcher p api cl)"
  obtain payload tag u v where pl: "unmarshal_push (BodyBytes (ReqBody req)) = Inr payload" "FullName payload \<noteq> []"
    and tag: "if tag = [] then touchesReleaseFiles payload else PushRef payload = tagRefPrefix @ tag"
    and send: "app_sender p a \<lparr>Scope = FullName payload, Force = False, Tag = tag\<rparr> u = (None, v)"
    and ext: "Ext u = Ext s" "Ext t = Ext v" and utf8: "valid_utf8 (FullName payload)" "valid_utf8 tag"
    by (rule Webhook_dispatched [OF assms(2) [unfolded service_sel]])
      (simp add: CreateWebhookHandler_def NewWebhookHandler_def)
  obtain obj where obj: "handed_over (Cqrs p) (AppTopicPrefix a) obj (Ext u) (Ext v)" "SchemaID obj = GithubReleaserV1SchemaID (Cqrs p)"
    "Operation (ObjCommand obj) = TriggerReleaseCheckCommandOperation"
    "unmarshalAndValidate (Cqrs p) obj = Inr \<lparr>Scope = FullName payload, Force = False, Tag = tag\<rparr>"
    by (rule SendCommand_hands_over [OF assms(1) send]) (use utf8 in simp_all)
  have "\<exists>r x. HandleCommand ?ex ctx obj y = Some (r, x) \<and> work_done (polling p a api cl) (app_dispatcher p api cl) ctx
      \<lparr>Scope = FullName payload, Force = False, Tag = tag\<rparr> y r x" for ctx y
    using runTriggerReleaseCheck_returns [OF obj(4)] runTriggerReleaseCheck_works [OF obj(4)] pl(2)
    by (simp add: NewTriggerReleaseCheckCommandExecutor_def) blast
  moreover have "ConsumerSchemaID (CommandConsumer (app_service p a api cl interval minInterval)) = GithubReleaserV1SchemaID (Cqrs p)"
    by (simp add: app_service_def CreateCommandConsumer_def Let_def)
  ultimately show ?thesis using pl(1) tag obj(1-3) [unfolded ext(1) ext(2) [symmetric]]
    by (intro exI [of _ payload] exI [of _ tag] exI [of _ obj] exI [of _ ?ex])
      (simp add: tagRefPrefix_def NewTriggerReleaseCheckCommandExecutor_def)
qed

theorem push_is_carried_out_witness:
  "\<exists>payload obj. unmarshal_push demo_push = Inr payload \<and> handed_over (Cqrs demo_relay) ''develop'' obj () ()"
  using push_is_carried_out [OF demo_codec demo_relay_accepted]
  by (auto simp: demo_delivery_def demo_app_def)

text \<open>C7: a request does what one endpoint does. If the router hands a request to the first
  route whose template matches, and the handler wrappers call what they wrap, then everything a
  request to the service's server changes is one step of the state machine: of the trigger or
  the webhook handler when their template matches the path, of the reset or set handler for the
  repository in the path, or nothing but the outside.\<close>

theorem server_requests_are_steps:
  assumes "web_ok web" "app_server web p a api cl interval minInterval vars req s = (reply, t)"
  shows "\<exists>e. serves p a api cl interval minInterval e s t
    \<and> (e = OutsideEvent
     \<or> e = TriggerEvent req \<and> MuxMatch web ''/trigger'' (UrlPath req) \<noteq> None
     \<or> e = WebhookEvent req \<and> MuxMatch web ''/webhook/github-release'' (UrlPath req) \<noteq> None
     \<or> (\<exists>v. MuxMatch web ''/resetcursor/{repo:.+}'' (UrlPath req) = Some v \<and> e = ResetEvent (v ''repo''))
     \<or> (\<exists>v. MuxMatch web ''/setcursor/{repo:.+}'' (UrlPath req) = Some v
          \<and> e = SetEvent (v ''repo'') (QueryGet req ''sha'')))"
  using request_step [OF assms] unfolding request_event_def by blast

theorem server_requests_are_steps_witness:
  "\<exists>e. serves demo_platform demo_app demo_api demo_cluster 1 1 e (initial_sys () empty_fs)
     (snd (app_server demo_web demo_platform demo_app demo_api demo_cluster 1 1 (\<lambda>_. []) demo_force
       (initial_sys () empty_fs)))"
  using server_requests_are_steps [OF demo_web_ok prod.collapse [symmetric]] by blast

text \<open>C8: the poll loop is a run. With a positive interval, and cycles that return without a panic,
  the loop of the service runs one cycle at once and one more after everything that happens up to
  each tick. Then it waits, in the state of the run of the state machine that has exactly these
  events in this order, and from there it ends only with the error of its context.\<close>

theorem poll_loop_is_run:
  assumes "0 < interval"
    and "\<And>u. \<exists>r v. Poll (polling p a api cl) ctx False '''' u = Some (r, v) \<and> r \<noteq> PollPanic"
    and "list_all2 (\<lambda>es f. \<forall>u. runs p a api cl interval minInterval es u (f u)) ess fs"
  shows "\<exists>t. PollLoop (app_service p a api cl interval minInterval) ctx (map Tick fs) s = Some (Waiting, t)
    \<and> runs p a api cl interval minInterval (TickEvent ctx # concat (map (\<lambda>es. es @ [TickEvent ctx]) ess)) s t
    \<and> PollLoop (app_service p a api cl interval minInterval) ctx (map Tick fs @ CtxDone e # later) s
        = Some (LoopReturned e, t)"
proof -
  let ?poll = "Poll (polling p a api cl) ctx False ''''"
  have "list_all2 (\<lambda>es f. \<forall>u. runs p a api cl interval minInterval es u (f u)) ([] # ess) (id # fs)"
    using assms(3) by (simp add: runs.start)
  from run_ticks_runs [OF assms(2) this]
  have run: "runs p a api cl interval minInterval (TickEvent ctx # concat (map (\<lambda>es. es @ [TickEvent ctx]) ess)) s
      (run_ticks ?poll (id # fs) s)" by simp
  have loop: "PollLoop (app_service p a api cl interval minInterval) ctx ticks s = pollLoop_from ?poll (Tick id # ticks) s" for ticks
    using assms(1) by (simp add: app_service_def Let_def pollLoop_def)
  show ?thesis
    using run loop pollLoop_from_ticks [where poll = ?poll and fs = "id # fs" and s = s and es = "[]", OF assms(2)]
      pollLoop_from_ticks [where poll = ?poll and fs = "id # fs" and s = s and es = "CtxDone e # later", OF assms(2)]
    by (simp del: pollLoop_from.simps(3))
qed

text \<open>The input: between the first cycle and the first tick an operator sets a commit.\<close>

theorem poll_loop_is_run_witness:
  "\<exists>t. PollLoop (app_service demo_platform demo_app demo_api demo_cluster 60 60) (\<lambda>_. None)
       [Tick (\<lambda>u. snd (SetCursorHandler ''c'' ''k'' ''a'' u))] (initial_sys () empty_fs) = Some (Waiting, t)
     \<and> runs demo_platform demo_app demo_api demo_cluster 60 60
         [TickEvent (\<lambda>_. None), SetEvent ''k'' ''a'', TickEvent (\<lambda>_. None)] (initial_sys () empty_fs) t"
proof -
  let ?f = "\<lambda>u :: unit sys. snd (SetCursorHandler ''c'' ''k'' ''a'' u)"
  have "runs demo_platform demo_app demo_api demo_cluster 60 60 [SetEvent ''k'' ''a''] u (?f u)" for u
    using runs.step [OF runs.start serves.set] by (metis append_Nil demo_set_endpoint prod.collapse)
  then have "list_all2 (\<lambda>es f. \<forall>u. runs demo_platform demo_app demo_api demo_cluster 60 60 es u (f u))
      [[SetEvent ''k'' ''a'']] [?f]" by simp
  from poll_loop_is_run [OF _ demo_no_panic [unfolded demo_watcher_def] this] show ?thesis by fastforce
qed

section \<open>Cycles that overlap\<close>

text \<open>C6: overlapping cycles keep the cursor honest, as long as their saves do not overlap. However
  the cycles, the builds and the requests of the service interleave, one statement, and within
  a save one byte, at a time, whatever the disk does to a save (opening the temporary file,
  writing it to the end and renaming it may fail at any point), and wherever the process is
  killed and started again: if it started without a cursor file and no second thread opened the
  temporary file between another one's opening and renaming it, the cursor can be loaded
  whenever reading works, its strings are valid and its map exists, and each commit in it was
  announced in the run or set by an operator. The code has nothing that keeps the saves apart,
  and the next theorem shows that this cannot be left out.\<close>

theorem overlapping_cursor_traced:
  assumes "interleaved exclusive p a api cl interval minInterval es ths s t"
    and "files (Fs s) (AppCursorPath a) = None" "readFault (Fs t) (AppCursorPath a) = None"
  shows "\<exists>c. LoadCursor (AppCursorPath a) t = Inr c \<and> cursor_valid c \<and> Repos c \<noteq> None
    \<and> (\<forall>key. LastSeenSHA c key = [] \<or> (\<exists>k sha. clean k = key \<and> clean sha = LastSeenSHA c key
         \<and> (SetEvent k sha \<in> set es \<or>
            (\<exists>cmd. SendCreate cmd True \<in> set (new_acts s t) \<and> command_key cmd = k \<and> command_sha cmd = sha))))"
proof -
  have good: "good_file (AppCursorPath a) (set es) (new_acts s t) (Fs t)"
    using interleaved_inv [OF assms(1,2)] by (simp add: interleaving_ok_def)
  obtain c where c: "LoadCursor (AppCursorPath a) t = Inr c" by (rule good_file_load [OF good assms(3)])
  show ?thesis
    using c LoadCursor_valid [OF c] LoadCursor_map [OF c] good_load [OF good c] unfolding announced_def by metis
qed

text \<open>
  The input: two operators set a commit of the same repository. Both have read the cursor when
  the first one saves; the disk is full when the second one has written two bytes.
\<close>

theorem overlapping_cursor_traced_witness:
  "\<exists>t c. demo_interleaved exclusive [SetEvent ''k'' ''a'', SetEvent ''k'' ''b'', OutsideEvent]
       [EditThread (SetEdit ''k'' ''a'') (EditSaving SaveDone), EditThread (SetEdit ''k'' ''b'') (EditSaving SaveDone)]
       (demo_disk Map.empty Map.empty) t
     \<and> files (Fs t) (tmp_path ''c'') = Some ''{\"'' \<and> LoadCursor ''c'' t = Inr c \<and> LastSeenSHA c ''k'' = ''a''"
proof -
  let ?s = "demo_disk Map.empty Map.empty" and ?tmp = "tmp_path ''c''"
  let ?a = "demo_text ''k'' ''a''" and ?b = "demo_text ''k'' ''b''"
  let ?es = "[SetEvent ''k'' ''a'', SetEvent ''k'' ''b'', OutsideEvent]" and ?done = "EditSaving SaveDone"
  let ?full = "[?tmp \<mapsto> WriteFails 2 (Foreign ''no space left on device'')]"
  let ?t = "demo_disk [''c'' \<mapsto> ?a, ?tmp \<mapsto> ''{\"''] ?full"
  have ok: "exclusive (demo_two ''k'' ?done w)" for w using demo_exclusive [of "''k''"] by (simp add: demo_allows_def)
  have half: "take 2 ?b = ''{\"''" by (simp add: demo_text_def demo_baseline_def encode_cursor_def quote_def)
  have two: "2 \<le> length ?b" using arg_cong [OF half, of length] by simp
  have lim: "write_limit ''c'' ?b (demo_fs m ?full) = 2" "write_broken ''c'' (demo_fs m ?full)"
    "\<not> open_broken ''c'' (demo_fs m ?full)" for m
    using two by (simp_all add: write_limit_def write_broken_def open_broken_def)
  have "serves demo_platform demo_app demo_api demo_cluster 60 60 OutsideEvent
      (demo_disk [''c'' \<mapsto> ?a] Map.empty) (demo_disk [''c'' \<mapsto> ?a] ?full)"
    by (rule serves.outside) simp_all
  from interleaved.event [OF demo_first_saved [OF demo_exclusive] this]
  have "demo_interleaved exclusive ?es (demo_two ''k'' ?done (EditSaving (SaveOpen ?b))) ?s (demo_disk [''c'' \<mapsto> ?a] ?full)"
    by simp
  from demo_opened [OF this, of 1]
  have "demo_interleaved exclusive ?es (demo_two ''k'' ?done (EditSaving (SaveWrite ?b 0 AtTmp))) ?s
      (demo_disk [''c'' \<mapsto> ?a, ?tmp \<mapsto> []] ?full)"
    using lim(3) ok by simp
  from demo_wrote [OF this, of 1 _ _ 2]
  have w: "demo_interleaved exclusive ?es (demo_two ''k'' ?done (EditSaving (SaveWrite ?b 2 AtTmp))) ?s ?t"
    using lim(1) ok half by simp
  have fails: "save_step ''c'' (SaveWrite ?b 2 AtTmp, demo_fs m ?full) (SaveDone, demo_fs m ?full)" for m
    using lim by (intro save_step.write_fails) simp_all
  have run: "demo_interleaved exclusive ?es (demo_two ''k'' ?done ?done) ?s ?t"
    using demo_save_move [OF w _ _ fails, of 1] ok by (simp add: after_step_def)
  obtain c where c: "LoadCursor ''c'' ?t = Inr c" using overlapping_cursor_traced [OF run] by auto
  moreover have "LoadCursor ''c'' ?t = Inr (demo_baseline ''k'' ''a'')" by (rule demo_load_text) (simp_all add: tmp_path_def)
  ultimately have "c = demo_baseline ''k'' ''a''" by simp
  then have "LastSeenSHA c ''k'' = ''a''" by (simp add: demo_baseline_def LastSeenSHA_def repo_entry_def)
  then show ?thesis using run c by (intro exI [of _ ?t] exI [of _ c]) simp
qed

text \<open>C10: but two savers share one temporary file. Of two overlapping requests, on a disk that
  works, the second one opens and so empties the temporary file before the first one renames it:
  the cursor file is then empty and cannot be decoded, and every cycle fails. If the process is
  stopped there, before the second request has written its text, this stays so until somebody
  repairs the file.\<close>

theorem overlapping_saves_spoil:
  "\<exists>es ths s t. demo_interleaved (\<lambda>_. True) es ths s t \<and> files (Fs s) ''c'' = None
     \<and> readFault (Fs t) = Map.empty \<and> (\<exists>e. LoadCursor ''c'' t = Inl e)
     \<and> (\<forall>ctx force scope. \<exists>e. Poll demo_watcher ctx force scope t = Some (PollErr e, t))
     \<and> OutsideEvent \<notin> set es \<and> writeFault (Fs s) = Map.empty
     \<and> demo_interleaved (\<lambda>_. True) es [] s t"
proof -
  let ?s = "demo_disk Map.empty Map.empty" and ?tmp = "tmp_path ''c''" and ?b = "demo_text ''k'' ''b''"
  let ?t = "demo_disk [''c'' \<mapsto> []] Map.empty"
  have "demo_interleaved (\<lambda>_. True) (demo_sets ''k'')
      (demo_two ''k'' (EditSaving SaveRename) (EditSaving (SaveWrite ?b 0 AtTmp))) ?s (demo_disk [?tmp \<mapsto> []] Map.empty)"
    using demo_opened [OF demo_first_written, of "\<lambda>_. True" "''k''" 1]
    by (simp add: demo_allows_def open_broken_def)
  moreover have "[?tmp \<mapsto> []](?tmp := None, ''c'' := Some []) = [''c'' \<mapsto> []]" by (auto simp: fun_eq_iff)
  ultimately have run: "demo_interleaved (\<lambda>_. True) (demo_sets ''k'')
      (demo_two ''k'' (EditSaving SaveDone) (EditSaving (SaveWrite ?b 0 AtCursor))) ?s ?t"
    using demo_renamed [where k = 0 and ok = "\<lambda>_. True"] by fastforce
  have "json_parse [] = None" by code_simp
  then obtain e where e: "LoadCursor ''c'' ?t = Inl e"
    by (simp add: LoadCursor_def ReadFile_def unmarshal_cursor_def)
  then have "\<forall>ctx force scope. \<exists>e. Poll demo_watcher ctx force scope ?t = Some (PollErr e, ?t)"
    by (simp add: Poll_def demo_watcher_def app_watcher_sel)
  then show ?thesis using run interleaved.killed [OF run] e
    by (intro exI [of _ "demo_sets ''k''"] exI [of _ ?s] exI [of _ ?t] exI) (auto simp: demo_disk_sel)
qed

text \<open>C11: and even saves that do not overlap lose work. Two operators each set a commit of another
  repository; both have read the cursor before either saves. Both requests succeed, one save
  after the other, and the commit of the first one is gone: the second cursor was read before.\<close>

theorem overlapping_edits_lost:
  "\<exists>t c. demo_interleaved exclusive [SetEvent ''k'' ''a'', SetEvent ''j'' ''b'']
       [EditThread (SetEdit ''k'' ''a'') (EditSaving SaveDone), EditThread (SetEdit ''j'' ''b'') (EditSaving SaveDone)]
       (demo_disk Map.empty Map.empty) t
     \<and> LoadCursor ''c'' t = Inr c \<and> LastSeenSHA c ''j'' = ''b'' \<and> LastSeenSHA c ''k'' = ''''"
proof -
  let ?s = "demo_disk Map.empty Map.empty" and ?tmp = "tmp_path ''c''" and ?b = "demo_text ''j'' ''b''"
  let ?t = "demo_disk [''c'' \<mapsto> ?b] Map.empty" and ?done = "EditSaving SaveDone"
  have ok: "exclusive (demo_two ''j'' ?done w)" for w using demo_exclusive [of "''j''"] by (simp add: demo_allows_def)
  have w: "demo_interleaved exclusive (demo_sets ''j'') (demo_two ''j'' ?done (EditSaving SaveRename)) ?s
      (demo_disk [''c'' \<mapsto> demo_text ''k'' ''a'', ?tmp \<mapsto> ?b] Map.empty)"
    using demo_written [OF demo_first_saved [OF demo_exclusive], of "''j''" 1] ok by simp
  have "[''c'' \<mapsto> demo_text ''k'' ''a'', ?tmp \<mapsto> ?b](?tmp := None, ''c'' := Some ?b) = [''c'' \<mapsto> ?b]"
    by (auto simp: fun_eq_iff)
  then have "demo_interleaved exclusive (demo_sets ''j'') (demo_two ''j'' ?done ?done) ?s ?t"
    using demo_renamed [OF w, of 1] ok by simp
  moreover have "LoadCursor ''c'' ?t = Inr (demo_baseline ''j'' ''b'')" by (rule demo_load_text) simp_all
  ultimately show ?thesis
    by (intro exI [of _ ?t] exI [of _ "demo_baseline ''j'' ''b''"]) (simp add: demo_baseline_def LastSeenSHA_def repo_entry_def)
qed

end
